theory Spec2Isabelle
  imports Main "HOL-Library.AList"
begin

section \<open>Data model of src/main.py\<close>

text \<open>
  The four dataclasses of the source. Field names carry a one-letter prefix because the
  classes share field names (\<open>id\<close>, \<open>quantidade\<close>, \<open>categoria\<close>, \<open>data\<close>).
  Python's \<open>int\<close> is unbounded, hence \<open>int\<close>; nothing in the engine keeps a quantity
  positive, so negative values are values of the model too.
\<close>

record ItemDoacao =
  i_id :: string
  i_nome :: string
  i_categoria :: string
  i_quantidade :: int
  i_data :: string

record Pedido =
  p_id :: string
  p_solicitante :: string
  p_categoria :: string
  p_quantidade :: int
  p_prioridade :: string
  p_data :: string
  p_atendido :: bool

record Alocacao =
  a_id :: string
  a_item_id :: string
  a_pedido_id :: string
  a_quantidade :: int
  a_data :: string

text \<open>
  \<open>SistemaDoacoes\<close>: the two dictionaries are association lists in insertion order
  (what a Python \<open>dict\<close> is), the three deques are lists with the front at the head, the
  history is a list with the newest entry last. \<open>n_ids\<close> and \<open>n_relogio\<close> count the
  calls made so far to \<open>_novo_id\<close> and to \<open>_now\<close>. The donor table and the text of
  the log take no part in the engine and are left out; a call of \<open>log\<close> is one reading
  of the clock.
\<close>

record SistemaDoacoes =
  estoque :: "(string \<times> ItemDoacao list) list"
  fila_alta :: "string list"
  fila_media :: "string list"
  fila_baixa :: "string list"
  pedidos :: "(string \<times> Pedido) list"
  historico_alocacoes :: "Alocacao list"
  n_ids :: nat
  n_relogio :: nat

text \<open>
  The external collaborators: the id generator (\<open>uuid4\<close>, cut to 8 characters) and the
  wall clock, each as the sequence of values its successive calls return.
\<close>

record Ambiente =
  novo_id :: "nat \<Rightarrow> string"
  now :: "nat \<Rightarrow> string"

definition sistema_vazio :: SistemaDoacoes where
  "sistema_vazio = \<lparr>estoque = [], fila_alta = [], fila_media = [], fila_baixa = [],
     pedidos = [], historico_alocacoes = [], n_ids = 0, n_relogio = 0\<rparr>"

definition log :: "SistemaDoacoes \<Rightarrow> SistemaDoacoes" where
  "log s = s\<lparr>n_relogio := Suc (n_relogio s)\<rparr>"

subsection \<open>The tuple of the three queues\<close>

datatype nivel = Alta | Media | Baixa

definition niveis :: "nivel list" where
  "niveis = [Alta, Media, Baixa]"

fun fila :: "nivel \<Rightarrow> SistemaDoacoes \<Rightarrow> string list" where
  "fila Alta s = fila_alta s"
| "fila Media s = fila_media s"
| "fila Baixa s = fila_baixa s"

fun fila_upd :: "nivel \<Rightarrow> (string list \<Rightarrow> string list) \<Rightarrow> SistemaDoacoes \<Rightarrow> SistemaDoacoes" where
  "fila_upd Alta f s = s\<lparr>fila_alta := f (fila_alta s)\<rparr>"
| "fila_upd Media f s = s\<lparr>fila_media := f (fila_media s)\<rparr>"
| "fila_upd Baixa f s = s\<lparr>fila_baixa := f (fila_baixa s)\<rparr>"

text \<open>The queue a priority string selects (lines 116-121 and 217-222): anything that
  is neither \<open>alta\<close> nor \<open>media\<close> falls into the \<open>else\<close> branch.\<close>

definition nivel_de :: "string \<Rightarrow> nivel" where
  "nivel_de prioridade =
     (if prioridade = ''alta'' then Alta
      else if prioridade = ''media'' then Media
      else Baixa)"

subsection \<open>The stock dictionary (a defaultdict of lists)\<close>

text \<open>\<open>self.estoque[c]\<close>: reading a missing key creates it with an empty list.\<close>

definition estoque_tocar :: "string \<Rightarrow> (string \<times> ItemDoacao list) list \<Rightarrow> (string \<times> ItemDoacao list) list" where
  "estoque_tocar c e = (case map_of e c of None \<Rightarrow> e @ [(c, [])] | Some _ \<Rightarrow> e)"

definition itens_de :: "(string \<times> ItemDoacao list) list \<Rightarrow> string \<Rightarrow> ItemDoacao list" where
  "itens_de e c = (case map_of e c of None \<Rightarrow> [] | Some l \<Rightarrow> l)"

section \<open>The matching loop, \<open>_tentar_alocar_para_pedidos\<close>\<close>

text \<open>\<open>prox_pedido\<close> (lines 134-138): the front of the first non-empty queue.\<close>

fun prox_pedido_em :: "string list list \<Rightarrow> string option" where
  "prox_pedido_em [] = None"
| "prox_pedido_em (q # qs) = (case q of [] \<Rightarrow> prox_pedido_em qs | x # _ \<Rightarrow> Some x)"

definition prox_pedido :: "SistemaDoacoes \<Rightarrow> string option" where
  "prox_pedido s = prox_pedido_em (map (\<lambda>n. fila n s) niveis)"

text \<open>Lines 147-149: every queue whose front is the stale id loses its front.\<close>

definition popleft_se :: "string \<Rightarrow> string list \<Rightarrow> string list" where
  "popleft_se pid q = (case q of [] \<Rightarrow> [] | x # r \<Rightarrow> if x = pid then r else q)"

definition remover_invalido :: "string \<Rightarrow> SistemaDoacoes \<Rightarrow> SistemaDoacoes" where
  "remover_invalido pid s =
     fila_upd Baixa (popleft_se pid) (fila_upd Media (popleft_se pid) (fila_upd Alta (popleft_se pid) s))"

text \<open>Lines 155-159: the first entry of one queue that names a known, unsatisfied
  request of the category, together with the request found under it.\<close>

definition compativel :: "(string \<times> Pedido) list \<Rightarrow> string \<Rightarrow> string \<Rightarrow> bool" where
  "compativel ps c pid =
     (case map_of ps pid of None \<Rightarrow> False | Some p \<Rightarrow> \<not> p_atendido p \<and> p_categoria p = c)"

fun primeiro_compativel :: "(string \<times> Pedido) list \<Rightarrow> string \<Rightarrow> string list \<Rightarrow> (string \<times> Pedido) option" where
  "primeiro_compativel ps c [] = None"
| "primeiro_compativel ps c (pid # q) =
     (case map_of ps pid of
        None \<Rightarrow> primeiro_compativel ps c q
      | Some p \<Rightarrow> if \<not> p_atendido p \<and> p_categoria p = c then Some (pid, p)
                  else primeiro_compativel ps c q)"

text \<open>Lines 162-163: \<open>while fila[0] != found: fila.rotate(-1)\<close>. The source enters
  the loop only with \<open>found\<close> taken from this very queue; the membership test is what
  makes the model total outside that case.\<close>

function rodar_ate :: "string \<Rightarrow> string list \<Rightarrow> string list" where
  "rodar_ate found q =
     (if found \<in> set q \<and> hd q \<noteq> found then rodar_ate found (rotate1 q) else q)"
  by pat_completeness auto
termination
proof (relation "measure (\<lambda>(found, q). length (takeWhile (\<lambda>x. x \<noteq> found) q))")
  show "wf (measure (\<lambda>(found, q). length (takeWhile (\<lambda>x. x \<noteq> found) q)))"
    by simp
next
  fix found :: string and q :: "string list"
  assume a: "found \<in> set q \<and> hd q \<noteq> found"
  then obtain x r where q: "q = x # r" by (cases q) auto
  with a have "x \<noteq> found" "found \<in> set r" by auto
  then have "takeWhile (\<lambda>x. x \<noteq> found) (r @ [x]) = takeWhile (\<lambda>x. x \<noteq> found) r"
    by (simp add: takeWhile_append1)
  with q \<open>x \<noteq> found\<close>
  show "((found, rotate1 q), (found, q)) \<in> measure (\<lambda>(found, q). length (takeWhile (\<lambda>x. x \<noteq> found) q))"
    by simp
qed

declare rodar_ate.simps [simp del]

text \<open>Lines 153-168: the queues are searched in priority order. A \<open>found\<close> that is
  the empty string is false in \<open>if found:\<close>, so the search goes on to the next queue.\<close>

fun procurar :: "nivel list \<Rightarrow> string \<Rightarrow> SistemaDoacoes \<Rightarrow> (string \<times> Pedido \<times> SistemaDoacoes) option" where
  "procurar [] c s = None"
| "procurar (n # ns) c s =
     (case primeiro_compativel (pedidos s) c (fila n s) of
        None \<Rightarrow> procurar ns c s
      | Some (found, p) \<Rightarrow>
          if found \<noteq> [] then Some (found, p, fila_upd n (rodar_ate found) s)
          else procurar ns c s)"

text \<open>Lines 188-194: the first queue that holds the id loses its first occurrence.\<close>

fun remover_da_fila :: "nivel list \<Rightarrow> string \<Rightarrow> SistemaDoacoes \<Rightarrow> SistemaDoacoes" where
  "remover_da_fila [] pid s = s"
| "remover_da_fila (n # ns) pid s =
     (if fila n s \<noteq> [] \<and> hd (fila n s) = pid then fila_upd n tl s
      else if pid \<in> set (fila n s) then fila_upd n (remove1 pid) s
      else remover_da_fila ns pid s)"

datatype passo = Parar SistemaDoacoes | Continuar SistemaDoacoes

text \<open>Lines 170-194, with \<open>chave\<close> the dictionary key under which \<open>pedido\<close> was
  found: the stock test, the allocation, the two decrements and the two removals.\<close>

definition alocar :: "Ambiente \<Rightarrow> string \<Rightarrow> string \<Rightarrow> Pedido \<Rightarrow> SistemaDoacoes \<Rightarrow> passo" where
  "alocar E c chave pedido s =
     (case itens_de (estoque s) c of
        [] \<Rightarrow> Parar (s\<lparr>estoque := estoque_tocar c (estoque s)\<rparr>)
      | item # resto \<Rightarrow>
          let alocar_qtd = min (i_quantidade item) (p_quantidade pedido);
              aloc = \<lparr>a_id = novo_id E (n_ids s), a_item_id = i_id item, a_pedido_id = p_id pedido,
                      a_quantidade = alocar_qtd, a_data = now E (n_relogio s)\<rparr>;
              item' = item\<lparr>i_quantidade := i_quantidade item - alocar_qtd\<rparr>;
              pedido' = pedido\<lparr>p_quantidade := p_quantidade pedido - alocar_qtd\<rparr>;
              s1 = log (s\<lparr>historico_alocacoes := historico_alocacoes s @ [aloc],
                          n_ids := Suc (n_ids s), n_relogio := Suc (n_relogio s)\<rparr>);
              s2 = s1\<lparr>estoque := AList.update c
                         (if i_quantidade item' \<le> 0 then resto else item' # resto) (estoque s1)\<rparr>
          in if p_quantidade pedido' \<le> 0
             then Continuar (remover_da_fila niveis (p_id pedido)
                    (s2\<lparr>pedidos := AList.update chave (pedido'\<lparr>p_atendido := True\<rparr>) (pedidos s2)\<rparr>))
             else Continuar (s2\<lparr>pedidos := AList.update chave pedido' (pedidos s2)\<rparr>))"

text \<open>One pass through the body of \<open>while True\<close> (lines 141-195). \<open>not pedido_id\<close>
  holds for \<open>None\<close> and for the empty string.\<close>

definition iteracao :: "Ambiente \<Rightarrow> string \<Rightarrow> SistemaDoacoes \<Rightarrow> passo" where
  "iteracao E c s =
     (case prox_pedido s of
        None \<Rightarrow> Parar s
      | Some pedido_id \<Rightarrow>
          if pedido_id = [] then Parar s
          else (case map_of (pedidos s) pedido_id of
                  None \<Rightarrow> Continuar (remover_invalido pedido_id s)
                | Some pedido \<Rightarrow>
                    if p_atendido pedido then Continuar (remover_invalido pedido_id s)
                    else if p_categoria pedido \<noteq> c then
                      (case procurar niveis c s of
                         None \<Rightarrow> Parar s
                       | Some (found, p, s1) \<Rightarrow> alocar E c found p s1)
                    else alocar E c pedido_id pedido s))"

text \<open>What bounds the loop: the number of stock items, of unsatisfied request records
  and of queue entries.\<close>

definition n_itens :: "SistemaDoacoes \<Rightarrow> nat" where
  "n_itens s = sum_list (map (\<lambda>kv. length (snd kv)) (estoque s))"

definition n_pendentes :: "SistemaDoacoes \<Rightarrow> nat" where
  "n_pendentes s = length (filter (\<lambda>kv. \<not> p_atendido (snd kv)) (pedidos s))"

definition n_filas :: "SistemaDoacoes \<Rightarrow> nat" where
  "n_filas s = length (fila_alta s) + length (fila_media s) + length (fila_baixa s)"

definition medida :: "SistemaDoacoes \<Rightarrow> nat" where
  "medida s = n_itens s + n_pendentes s + n_filas s"

section \<open>Termination of the matching loop\<close>

subsection \<open>The queues\<close>

lemma fila_fila_upd: "fila m (fila_upd n f s) = (if m = n then f (fila n s) else fila m s)"
  by (cases n; cases m) simp_all

lemma fila_upd_campos:
  "estoque (fila_upd n f s) = estoque s"
  "pedidos (fila_upd n f s) = pedidos s"
  "historico_alocacoes (fila_upd n f s) = historico_alocacoes s"
  "n_ids (fila_upd n f s) = n_ids s"
  "n_relogio (fila_upd n f s) = n_relogio s"
  by (cases n; simp)+

lemma n_filas_fila: "n_filas s = length (fila Alta s) + length (fila Media s) + length (fila Baixa s)"
  by (simp add: n_filas_def)

lemma n_filas_fila_upd:
  "n_filas (fila_upd n f s) + length (fila n s) = n_filas s + length (f (fila n s))"
  by (cases n) (simp_all add: n_filas_def)

lemma length_popleft_se: "length (popleft_se pid q) \<le> length q"
  by (simp add: popleft_se_def split: list.splits)

lemma length_popleft_se_hd: "length (popleft_se pid (pid # r)) < length (pid # r)"
  by (simp add: popleft_se_def)

lemma prox_pedido_cases:
  "prox_pedido s = Some pid \<Longrightarrow>
     (\<exists>r. fila_alta s = pid # r) \<or> (fila_alta s = [] \<and> (\<exists>r. fila_media s = pid # r))
     \<or> (fila_alta s = [] \<and> fila_media s = [] \<and> (\<exists>r. fila_baixa s = pid # r))"
  by (auto simp: prox_pedido_def niveis_def split: list.splits)

lemma n_filas_remover_invalido:
  assumes "prox_pedido s = Some pid"
  shows "n_filas (remover_invalido pid s) < n_filas s"
proof -
  have le: "\<And>q. length (popleft_se pid q) \<le> length q" by (rule length_popleft_se)
  from prox_pedido_cases [OF assms] show ?thesis
    using le [of "fila_alta s"] le [of "fila_media s"] le [of "fila_baixa s"]
    by (auto simp: remover_invalido_def n_filas_def popleft_se_def)
qed

lemma remover_invalido_campos:
  "estoque (remover_invalido pid s) = estoque s"
  "pedidos (remover_invalido pid s) = pedidos s"
  "historico_alocacoes (remover_invalido pid s) = historico_alocacoes s"
  "n_ids (remover_invalido pid s) = n_ids s"
  "n_relogio (remover_invalido pid s) = n_relogio s"
  by (simp_all add: remover_invalido_def)

lemma rodar_ate_forma:
  "found \<in> set q \<Longrightarrow>
     rodar_ate found q = dropWhile (\<lambda>x. x \<noteq> found) q @ takeWhile (\<lambda>x. x \<noteq> found) q"
proof (induction "length (takeWhile (\<lambda>x. x \<noteq> found) q)" arbitrary: q)
  case 0
  then obtain x r where q: "q = x # r" by (cases q) auto
  with 0 have "x = found" by (auto split: if_splits)
  with q show ?case by (simp add: rodar_ate.simps)
next
  case (Suc k)
  then obtain x r where q: "q = x # r" by (cases q) auto
  with Suc have x: "x \<noteq> found" by (auto split: if_splits)
  with q Suc.prems have r: "found \<in> set r" by auto
  have tw: "takeWhile (\<lambda>x. x \<noteq> found) (r @ [x]) = takeWhile (\<lambda>x. x \<noteq> found) r"
    using r by (simp add: takeWhile_append1)
  have dw: "dropWhile (\<lambda>x. x \<noteq> found) (r @ [x]) = dropWhile (\<lambda>x. x \<noteq> found) r @ [x]"
    using r by (simp add: dropWhile_append1)
  have "k = length (takeWhile (\<lambda>x. x \<noteq> found) (r @ [x]))"
    using Suc.hyps(2) q x tw by simp
  moreover have "found \<in> set (r @ [x])" using r by simp
  ultimately have "rodar_ate found (r @ [x]) =
      dropWhile (\<lambda>x. x \<noteq> found) (r @ [x]) @ takeWhile (\<lambda>x. x \<noteq> found) (r @ [x])"
    by (rule Suc.hyps(1))
  moreover have "rodar_ate found q = rodar_ate found (r @ [x])"
    using q x r by (subst rodar_ate.simps) simp
  ultimately show ?case using q x tw dw by simp
qed

lemma rodar_ate_fora: "found \<notin> set q \<Longrightarrow> rodar_ate found q = q"
  by (subst rodar_ate.simps) simp

lemma length_rodar_ate: "length (rodar_ate found q) = length q"
proof (cases "found \<in> set q")
  case True
  have "length (dropWhile (\<lambda>x. x \<noteq> found) q @ takeWhile (\<lambda>x. x \<noteq> found) q) = length (takeWhile (\<lambda>x. x \<noteq> found) q @ dropWhile (\<lambda>x. x \<noteq> found) q)"
    by (simp only: length_append add.commute)
  with True show ?thesis by (simp add: rodar_ate_forma del: length_append)
next
  case False
  then show ?thesis by (simp add: rodar_ate_fora)
qed

lemma primeiro_compativel_Some:
  "primeiro_compativel ps c q = Some (found, p) \<Longrightarrow>
     found \<in> set q \<and> map_of ps found = Some p \<and> \<not> p_atendido p \<and> p_categoria p = c"
  by (induction q) (auto split: option.splits if_splits)

lemma procurar_Some:
  "procurar ns c s = Some (found, p, s1) \<Longrightarrow>
     found \<noteq> [] \<and> map_of (pedidos s) found = Some p \<and> \<not> p_atendido p \<and> p_categoria p = c
     \<and> (\<exists>n \<in> set ns. found \<in> set (fila n s) \<and> s1 = fila_upd n (rodar_ate found) s)"
  by (induction ns) (auto split: option.splits if_splits dest: primeiro_compativel_Some)

lemma n_filas_rodar: "n_filas (fila_upd n (rodar_ate found) s) = n_filas s"
  using n_filas_fila_upd [of n "rodar_ate found" s] by (simp add: length_rodar_ate)

lemma remover_da_fila_campos:
  "estoque (remover_da_fila ns pid s) = estoque s"
  "pedidos (remover_da_fila ns pid s) = pedidos s"
  "historico_alocacoes (remover_da_fila ns pid s) = historico_alocacoes s"
  "n_ids (remover_da_fila ns pid s) = n_ids s"
  "n_relogio (remover_da_fila ns pid s) = n_relogio s"
  by (induction ns; simp add: fila_upd_campos)+

lemma n_filas_remover_da_fila: "n_filas (remover_da_fila ns pid s) \<le> n_filas s"
proof (induction ns)
  case Nil
  then show ?case by simp
next
  case (Cons n ns)
  have a: "n_filas (fila_upd n tl s) \<le> n_filas s"
    using n_filas_fila_upd [of n tl s] by simp
  have b: "n_filas (fila_upd n (remove1 pid) s) \<le> n_filas s"
    using n_filas_fila_upd [of n "remove1 pid" s] by (simp add: length_remove1 split: if_splits)
  from a b Cons show ?case by simp
qed

lemma n_pendentes_update:
  "map_of ps k = Some p \<Longrightarrow> \<not> p_atendido p \<Longrightarrow>
     length (filter (\<lambda>kv. \<not> p_atendido (snd kv)) (AList.update k p' ps)) =
       (if p_atendido p' then length (filter (\<lambda>kv. \<not> p_atendido (snd kv)) ps) - 1
        else length (filter (\<lambda>kv. \<not> p_atendido (snd kv)) ps))
     \<and> 0 < length (filter (\<lambda>kv. \<not> p_atendido (snd kv)) ps)"
  by (induction ps) (auto split: if_splits)

lemma n_itens_update:
  "map_of e c = Some l \<Longrightarrow>
     sum_list (map (\<lambda>kv. length (snd kv)) (AList.update c l' e)) + length l =
     sum_list (map (\<lambda>kv. length (snd kv)) e) + length l'"
  by (induction e) (auto split: if_splits)

subsection \<open>One allocation\<close>

lemma itens_de_Cons: "itens_de e c = item # resto \<Longrightarrow> map_of e c = Some (item # resto)"
  by (auto simp: itens_de_def split: option.splits)

lemma alocar_Parar:
  "alocar E c chave pedido s = Parar s' \<longleftrightarrow>
     itens_de (estoque s) c = [] \<and> s' = s\<lparr>estoque := estoque_tocar c (estoque s)\<rparr>"
  by (auto simp: alocar_def Let_def split: list.splits)

lemma fila_remover_cong:
  "fila_alta t = fila_alta u \<Longrightarrow> fila_media t = fila_media u \<Longrightarrow> fila_baixa t = fila_baixa u \<Longrightarrow>
     fila n (remover_da_fila niveis pid t) = fila n (remover_da_fila niveis pid u)"
  by (cases n) (simp_all add: niveis_def)

lemma alocar_Cons:
  assumes it: "itens_de (estoque s) c = item # resto"
  shows "\<exists>s'. alocar E c chave pedido s = Continuar s' \<and>
     historico_alocacoes s' = historico_alocacoes s @
           [\<lparr>a_id = novo_id E (n_ids s), a_item_id = i_id item, a_pedido_id = p_id pedido,
             a_quantidade = min (i_quantidade item) (p_quantidade pedido), a_data = now E (n_relogio s)\<rparr>]
     \<and> estoque s' = AList.update c
           (if i_quantidade item \<le> p_quantidade pedido then resto
            else item\<lparr>i_quantidade := i_quantidade item - p_quantidade pedido\<rparr> # resto) (estoque s)
     \<and> pedidos s' = AList.update chave
           (if p_quantidade pedido \<le> i_quantidade item
            then pedido\<lparr>p_quantidade := 0, p_atendido := True\<rparr>
            else pedido\<lparr>p_quantidade := p_quantidade pedido - i_quantidade item\<rparr>) (pedidos s)
     \<and> (\<forall>n. fila n s' =
           (if p_quantidade pedido \<le> i_quantidade item
            then fila n (remover_da_fila niveis (p_id pedido) s) else fila n s))
     \<and> n_ids s' = Suc (n_ids s) \<and> n_relogio s' = Suc (Suc (n_relogio s))"
proof (cases "p_quantidade pedido \<le> i_quantidade item")
  case True
  then have mn: "min (i_quantidade item) (p_quantidade pedido) = p_quantidade pedido" by simp
  have eq: "(i_quantidade item - p_quantidade pedido \<le> 0) = (i_quantidade item \<le> p_quantidade pedido)"
    by auto
  show ?thesis
    using True
    apply (simp add: alocar_def it Let_def mn log_def remover_da_fila_campos eq)
    apply (intro conjI impI allI fila_remover_cong; simp)
    done
next
  case False
  then have mn: "min (i_quantidade item) (p_quantidade pedido) = i_quantidade item" by simp
  from False have nz: "\<not> p_quantidade pedido - i_quantidade item \<le> 0" by simp
  from False have le: "i_quantidade item \<le> p_quantidade pedido" by simp
  have fl: "\<And>n t. fila_alta t = fila_alta s \<Longrightarrow> fila_media t = fila_media s \<Longrightarrow> fila_baixa t = fila_baixa s \<Longrightarrow> fila n t = fila n s"
    subgoal for n t by (cases n) simp_all
    done
  show ?thesis
    using False
    apply (simp add: alocar_def it Let_def mn log_def nz le)
    apply (intro conjI impI allI fl; simp)
    done
qed

lemma medida_alocar:
  assumes al: "alocar E c chave pedido s = Continuar s'"
    and p: "map_of (pedidos s) chave = Some pedido" "\<not> p_atendido pedido"
  shows "medida s' < medida s"
proof -
  from al obtain item resto where it: "itens_de (estoque s) c = item # resto"
    by (cases "itens_de (estoque s) c") (auto simp: alocar_def)
  from alocar_Cons [OF it, of E chave pedido] al
  have e: "estoque s' = AList.update c
           (if i_quantidade item \<le> p_quantidade pedido then resto
            else item\<lparr>i_quantidade := i_quantidade item - p_quantidade pedido\<rparr> # resto) (estoque s)"
    and ps: "pedidos s' = AList.update chave
           (if p_quantidade pedido \<le> i_quantidade item
            then pedido\<lparr>p_quantidade := 0, p_atendido := True\<rparr>
            else pedido\<lparr>p_quantidade := p_quantidade pedido - i_quantidade item\<rparr>) (pedidos s)"
    and f: "\<And>n. fila n s' =
           (if p_quantidade pedido \<le> i_quantidade item
            then fila n (remover_da_fila niveis (p_id pedido) s) else fila n s)"
    by simp_all
  from it have m: "map_of (estoque s) c = Some (item # resto)" by (rule itens_de_Cons)
  note iu = n_itens_update [OF m]
  note pu = n_pendentes_update [OF p]
  have nf: "n_filas s' \<le> n_filas s"
    using n_filas_remover_da_fila [of niveis "p_id pedido" s]
    by (simp add: n_filas_fila f)
  have i: "n_itens s' \<le> n_itens s" "i_quantidade item \<le> p_quantidade pedido \<Longrightarrow> n_itens s' < n_itens s"
    using iu [of "resto"] iu [of "item\<lparr>i_quantidade := i_quantidade item - p_quantidade pedido\<rparr> # resto"]
    by (simp_all add: n_itens_def e)
  have pn: "n_pendentes s' \<le> n_pendentes s" "p_quantidade pedido \<le> i_quantidade item \<Longrightarrow> n_pendentes s' < n_pendentes s"
    using pu [of "pedido\<lparr>p_quantidade := 0, p_atendido := True\<rparr>"]
      pu [of "pedido\<lparr>p_quantidade := p_quantidade pedido - i_quantidade item\<rparr>"] p(2)
    by (simp_all add: n_pendentes_def ps)
  show ?thesis
  proof (cases "p_quantidade pedido \<le> i_quantidade item")
    case True
    with nf i(1) pn(2) show ?thesis by (simp add: medida_def)
  next
    case False
    with nf i(2) pn(1) show ?thesis by (simp add: medida_def)
  qed
qed

lemma medida_fila_upd_rodar: "medida (fila_upd n (rodar_ate found) s) = medida s"
  by (simp add: medida_def n_filas_rodar n_itens_def n_pendentes_def fila_upd_campos)

lemma medida_remover_invalido:
  "prox_pedido s = Some pid \<Longrightarrow> medida (remover_invalido pid s) < medida s"
  using n_filas_remover_invalido [of s pid]
  by (simp add: medida_def n_itens_def n_pendentes_def remover_invalido_campos)

lemma medida_iteracao:
  assumes "iteracao E c s = Continuar s'"
  shows "medida s' < medida s"
proof -
  from assms obtain pid where pp: "prox_pedido s = Some pid" and ne: "pid \<noteq> []"
    by (cases "prox_pedido s") (auto simp: iteracao_def split: if_splits)
  show ?thesis
  proof (cases "map_of (pedidos s) pid")
    case None
    with assms pp ne have "s' = remover_invalido pid s" by (simp add: iteracao_def)
    with pp show ?thesis by (simp add: medida_remover_invalido)
  next
    case (Some pedido)
    show ?thesis
    proof (cases "p_atendido pedido")
      case True
      with assms pp ne Some have "s' = remover_invalido pid s" by (simp add: iteracao_def)
      with pp show ?thesis by (simp add: medida_remover_invalido)
    next
      case na: False
      show ?thesis
      proof (cases "p_categoria pedido = c")
        case True
        with assms pp ne Some na have "alocar E c pid pedido s = Continuar s'"
          by (simp add: iteracao_def)
        from medida_alocar [OF this Some na] show ?thesis .
      next
        case False
        with assms pp ne Some na obtain found p s1 where
          pr: "procurar niveis c s = Some (found, p, s1)" and al: "alocar E c found p s1 = Continuar s'"
          by (cases "procurar niveis c s") (auto simp: iteracao_def)
        from procurar_Some [OF pr] obtain n where
          f: "map_of (pedidos s) found = Some p" "\<not> p_atendido p" and s1: "s1 = fila_upd n (rodar_ate found) s"
          by auto
        from f s1 have "map_of (pedidos s1) found = Some p" by (simp add: fila_upd_campos)
        from medida_alocar [OF al this f(2)] have "medida s' < medida s1" .
        with s1 show ?thesis by (simp add: medida_fila_upd_rodar)
      qed
    qed
  qed
qed

text \<open>Lines 140-195: \<open>while True\<close>, left by \<open>break\<close>.\<close>

function tentar_alocar_para_pedidos :: "Ambiente \<Rightarrow> string \<Rightarrow> SistemaDoacoes \<Rightarrow> SistemaDoacoes" where
  "tentar_alocar_para_pedidos E c s =
     (case iteracao E c s of
        Parar s' \<Rightarrow> s'
      | Continuar s' \<Rightarrow> tentar_alocar_para_pedidos E c s')"
  by pat_completeness auto
termination
  by (relation "measure (\<lambda>(E, c, s). medida s)") (simp_all add: medida_iteracao)


declare tentar_alocar_para_pedidos.simps [simp del]

text \<open>The same loop with a budget of iterations: \<open>None\<close> when the budget runs out
  before a \<open>break\<close>.\<close>

fun iterar :: "nat \<Rightarrow> Ambiente \<Rightarrow> string \<Rightarrow> SistemaDoacoes \<Rightarrow> SistemaDoacoes option" where
  "iterar 0 E c s = None"
| "iterar (Suc k) E c s =
     (case iteracao E c s of
        Parar s' \<Rightarrow> Some s'
      | Continuar s' \<Rightarrow> iterar k E c s')"

section \<open>The public operations\<close>

text \<open>\<open>registrar_doacao\<close> (lines 101-108). \<open>inserir_doacao\<close> is lines 102-105, the
  part before the matching loop is called. The caller gets back the item created, which
  is the one with id \<open>novo_id E (n_ids s)\<close>; \<open>doador_id\<close> goes to the log only.\<close>

definition inserir_doacao :: "Ambiente \<Rightarrow> string \<Rightarrow> string \<Rightarrow> int \<Rightarrow> SistemaDoacoes \<Rightarrow> SistemaDoacoes" where
  "inserir_doacao E nome_item categoria quantidade s =
     (let item = \<lparr>i_id = novo_id E (n_ids s), i_nome = nome_item, i_categoria = categoria,
                   i_quantidade = quantidade, i_data = now E (n_relogio s)\<rparr>
      in log (s\<lparr>estoque := AList.update categoria (itens_de (estoque s) categoria @ [item]) (estoque s),
                n_ids := Suc (n_ids s), n_relogio := Suc (n_relogio s)\<rparr>))"

definition registrar_doacao ::
  "Ambiente \<Rightarrow> string \<Rightarrow> string \<Rightarrow> int \<Rightarrow> string option \<Rightarrow> SistemaDoacoes \<Rightarrow> SistemaDoacoes" where
  "registrar_doacao E nome_item categoria quantidade doador_id s =
     tentar_alocar_para_pedidos E categoria (inserir_doacao E nome_item categoria quantidade s)"

text \<open>\<open>cadastrar_pedido\<close> (lines 111-125); \<open>inserir_pedido\<close> is lines 112-122.\<close>

definition inserir_pedido :: "Ambiente \<Rightarrow> string \<Rightarrow> string \<Rightarrow> int \<Rightarrow> string \<Rightarrow> SistemaDoacoes \<Rightarrow> SistemaDoacoes" where
  "inserir_pedido E solicitante categoria quantidade prioridade s =
     (let pid = novo_id E (n_ids s);
          pedido = \<lparr>p_id = pid, p_solicitante = solicitante, p_categoria = categoria,
                     p_quantidade = quantidade, p_prioridade = prioridade,
                     p_data = now E (n_relogio s), p_atendido = False\<rparr>
      in log (fila_upd (nivel_de prioridade) (\<lambda>q. q @ [pid])
               (s\<lparr>pedidos := AList.update pid pedido (pedidos s),
                  n_ids := Suc (n_ids s), n_relogio := Suc (n_relogio s)\<rparr>)))"

definition cadastrar_pedido ::
  "Ambiente \<Rightarrow> string \<Rightarrow> string \<Rightarrow> int \<Rightarrow> string \<Rightarrow> SistemaDoacoes \<Rightarrow> SistemaDoacoes" where
  "cadastrar_pedido E solicitante categoria quantidade prioridade s =
     tentar_alocar_para_pedidos E categoria (inserir_pedido E solicitante categoria quantidade prioridade s)"

text \<open>\<open>desfazer_ultima_alocacao\<close> (lines 198-227). \<open>if pedido:\<close> is the test that the
  id is a key of \<open>self.pedidos\<close>.\<close>

definition desfazer_ultima_alocacao :: "Ambiente \<Rightarrow> SistemaDoacoes \<Rightarrow> bool \<times> SistemaDoacoes" where
  "desfazer_ultima_alocacao E s =
     (if historico_alocacoes s = [] then (False, log s)
      else
        let aloc = last (historico_alocacoes s);
            s1 = s\<lparr>historico_alocacoes := butlast (historico_alocacoes s)\<rparr>;
            item_recriado = \<lparr>i_id = a_item_id aloc, i_nome = ''Item_recuperado_'' @ a_item_id aloc,
                              i_categoria = ''Desconhecido'', i_quantidade = a_quantidade aloc,
                              i_data = now E (n_relogio s1)\<rparr>;
            s2 = s1\<lparr>n_relogio := Suc (n_relogio s1)\<rparr>;
            s3 = (case map_of (pedidos s2) (a_pedido_id aloc) of
                    None \<Rightarrow> s2
                  | Some pedido \<Rightarrow>
                      let s2' = (if p_atendido pedido
                                 then fila_upd (nivel_de (p_prioridade pedido)) (\<lambda>q. p_id pedido # q) s2
                                 else s2)
                      in s2'\<lparr>pedidos := AList.update (a_pedido_id aloc)
                                (pedido\<lparr>p_atendido := False,
                                        p_quantidade := p_quantidade pedido + a_quantidade aloc\<rparr>)
                                (pedidos s2')\<rparr>)
        in (True, log (s3\<lparr>estoque := AList.update (i_categoria item_recriado)
                             (itens_de (estoque s3) (i_categoria item_recriado) @ [item_recriado])
                             (estoque s3)\<rparr>)))"

text \<open>The three operations as the menu offers them (options 2, 3 and 6), and a run of
  them from a given state.\<close>

datatype operacao =
  Doar string string int "string option"
| Pedir string string int string
| Desfazer

fun executar :: "Ambiente \<Rightarrow> SistemaDoacoes \<Rightarrow> operacao \<Rightarrow> SistemaDoacoes" where
  "executar E s (Doar nome_item categoria qtd doador_id) = registrar_doacao E nome_item categoria qtd doador_id s"
| "executar E s (Pedir sol categoria qtd prio) = cadastrar_pedido E sol categoria qtd prio s"
| "executar E s Desfazer = snd (desfazer_ultima_alocacao E s)"

definition executar_todas :: "Ambiente \<Rightarrow> operacao list \<Rightarrow> SistemaDoacoes \<Rightarrow> SistemaDoacoes" where
  "executar_todas E ops s = foldl (executar E) s ops"

section \<open>An example environment and example states\<close>

text \<open>An id generator whose \<open>k\<close>-th id is \<open>k + 1\<close> letters \<open>x\<close>, and a clock whose
  \<open>k\<close>-th reading is \<open>k\<close> letters \<open>t\<close>.\<close>

definition ambiente_exemplo :: Ambiente where
  "ambiente_exemplo = \<lparr>novo_id = (\<lambda>k. replicate (Suc k) (CHR ''x'')), now = (\<lambda>k. replicate k (CHR ''t''))\<rparr>"

text \<open>The quantity in stock under one category, as the tests add it up.\<close>

definition quantidade_disponivel :: "SistemaDoacoes \<Rightarrow> string \<Rightarrow> int" where
  "quantidade_disponivel s c = sum_list (map i_quantidade (itens_de (estoque s) c))"

text \<open>One donation of 10 and one request of 4 in the same category, before the loop
  runs, and the state one iteration later.\<close>

definition estado_exemplo :: SistemaDoacoes where
  "estado_exemplo =
     inserir_pedido ambiente_exemplo ''R'' ''cat'' 4 ''alta''
       (inserir_doacao ambiente_exemplo ''A'' ''cat'' 10 sistema_vazio)"

definition estado_exemplo_depois :: SistemaDoacoes where
  "estado_exemplo_depois =
     \<lparr>estoque = [(''cat'', [\<lparr>i_id = ''x'', i_nome = ''A'', i_categoria = ''cat'', i_quantidade = 6, i_data = ''''\<rparr>])],
      fila_alta = [], fila_media = [], fila_baixa = [],
      pedidos = [(''xx'', \<lparr>p_id = ''xx'', p_solicitante = ''R'', p_categoria = ''cat'', p_quantidade = 0,
                           p_prioridade = ''alta'', p_data = ''tt'', p_atendido = True\<rparr>)],
      historico_alocacoes = [\<lparr>a_id = ''xxx'', a_item_id = ''x'', a_pedido_id = ''xx'', a_quantidade = 4, a_data = ''tttt''\<rparr>],
      n_ids = 3, n_relogio = 6\<rparr>"

text \<open>Three requests of high priority for three categories, no stock.\<close>

definition estado_tres_pedidos :: SistemaDoacoes where
  "estado_tres_pedidos =
     executar_todas ambiente_exemplo
       [Pedir ''R1'' ''A'' 1 ''alta'', Pedir ''R2'' ''B'' 2 ''alta'', Pedir ''R3'' ''C'' 1 ''alta'']
       sistema_vazio"

section \<open>Quantities and predicates the claims speak of\<close>

text \<open>The quantity held by a list of items, by the whole stock and by the history, and
  the quantity a run of operations donates.\<close>

definition soma_itens :: "ItemDoacao list \<Rightarrow> int" where
  "soma_itens l = sum_list (map i_quantidade l)"

definition soma_estoque :: "SistemaDoacoes \<Rightarrow> int" where
  "soma_estoque s = sum_list (map (\<lambda>kv. soma_itens (snd kv)) (estoque s))"

definition soma_historico :: "SistemaDoacoes \<Rightarrow> int" where
  "soma_historico s = sum_list (map a_quantidade (historico_alocacoes s))"

fun doado :: "operacao \<Rightarrow> int" where
  "doado (Doar nome_item categoria qtd doador_id) = qtd"
| "doado (Pedir sol categoria qtd prio) = 0"
| "doado Desfazer = 0"

definition total_doado :: "operacao list \<Rightarrow> int" where
  "total_doado ops = sum_list (map doado ops)"

text \<open>The conservation property as the specification words it, for one category: what
  the category holds, plus what the history allocates from the items donated to the
  category, is what was donated to the category. \<open>ids_doados\<close> are the ids the items
  donated to the category receive in the run.\<close>

fun doado_em :: "string \<Rightarrow> operacao \<Rightarrow> int" where
  "doado_em c (Doar nome_item categoria qtd doador_id) = (if categoria = c then qtd else 0)"
| "doado_em c (Pedir sol categoria qtd prio) = 0"
| "doado_em c Desfazer = 0"

fun ids_doados :: "Ambiente \<Rightarrow> string \<Rightarrow> SistemaDoacoes \<Rightarrow> operacao list \<Rightarrow> string list" where
  "ids_doados E c s [] = []"
| "ids_doados E c s (Doar nome_item categoria qtd doador_id # ops) =
     (if categoria = c then [novo_id E (n_ids s)] else [])
       @ ids_doados E c (executar E s (Doar nome_item categoria qtd doador_id)) ops"
| "ids_doados E c s (x # ops) = ids_doados E c (executar E s x) ops"

fun alocado_de :: "string list \<Rightarrow> Alocacao list \<Rightarrow> int" where
  "alocado_de ids [] = 0"
| "alocado_de ids (a # h) = (if a_item_id a \<in> set ids then a_quantidade a else 0) + alocado_de ids h"

definition conservacao_por_categoria :: "Ambiente \<Rightarrow> string \<Rightarrow> operacao list \<Rightarrow> bool" where
  "conservacao_por_categoria E c ops \<longleftrightarrow>
     quantidade_disponivel (executar_todas E ops sistema_vazio) c
       + alocado_de (ids_doados E c sistema_vazio ops)
           (historico_alocacoes (executar_todas E ops sistema_vazio))
     = sum_list (map (doado_em c) ops)"

text \<open>The fields of a request that no operation changes, and a request kept under its
  key up to the two fields that do change.\<close>

definition mesmo_pedido :: "Pedido \<Rightarrow> Pedido \<Rightarrow> bool" where
  "mesmo_pedido p p' \<longleftrightarrow>
     p_id p' = p_id p \<and> p_solicitante p' = p_solicitante p \<and> p_categoria p' = p_categoria p
     \<and> p_prioridade p' = p_prioridade p \<and> p_data p' = p_data p"

definition pedido_mantido :: "string \<Rightarrow> Pedido \<Rightarrow> SistemaDoacoes \<Rightarrow> bool" where
  "pedido_mantido k p s \<longleftrightarrow> (\<exists>p'. map_of (pedidos s) k = Some p' \<and> mesmo_pedido p p')"

text \<open>The rank of a queue in the order the loop visits them; a queue entry that names a
  known, unsatisfied request; a search that comes back empty-handed from one queue.\<close>

fun ordem :: "nivel \<Rightarrow> nat" where
  "ordem Alta = 0"
| "ordem Media = 1"
| "ordem Baixa = 2"

definition pendente :: "(string \<times> Pedido) list \<Rightarrow> string \<Rightarrow> bool" where
  "pendente ps k = (case map_of ps k of None \<Rightarrow> False | Some p \<Rightarrow> \<not> p_atendido p)"

definition sem_achado :: "(string \<times> Pedido) option \<Rightarrow> bool" where
  "sem_achado r = (case r of None \<Rightarrow> True | Some (found, p) \<Rightarrow> found = [])"

text \<open>The situation in which the matching step has nothing to do for a category: no
  queue entry names a known, unsatisfied request of the category, or the category has no
  stock. \<open>quieto c s t\<close> is what the step then leaves alone between \<open>s\<close> and \<open>t\<close>.\<close>

definition existe_compativel :: "string \<Rightarrow> SistemaDoacoes \<Rightarrow> bool" where
  "existe_compativel c s = list_ex (\<lambda>n. list_ex (compativel (pedidos s) c) (fila n s)) niveis"

definition sem_trabalho :: "string \<Rightarrow> SistemaDoacoes \<Rightarrow> bool" where
  "sem_trabalho c s \<longleftrightarrow> \<not> existe_compativel c s \<or> itens_de (estoque s) c = []"

definition quieto :: "string \<Rightarrow> SistemaDoacoes \<Rightarrow> SistemaDoacoes \<Rightarrow> bool" where
  "quieto c s t \<longleftrightarrow>
     historico_alocacoes t = historico_alocacoes s \<and> pedidos t = pedidos s
     \<and> (estoque t = estoque s \<or> estoque t = estoque_tocar c (estoque s))
     \<and> n_ids t = n_ids s \<and> n_relogio t = n_relogio s
     \<and> (\<forall>n. set (fila n t) \<subseteq> set (fila n s))
     \<and> (\<forall>n k. k \<in> set (fila n s) \<and> pendente (pedidos s) k \<longrightarrow> k \<in> set (fila n t))"

text \<open>Two requests of high priority for two categories, no stock.\<close>

definition estado_dois_pedidos :: SistemaDoacoes where
  "estado_dois_pedidos =
     executar_todas ambiente_exemplo
       [Pedir ''R1'' ''A'' 1 ''alta'', Pedir ''R2'' ''B'' 2 ''alta''] sistema_vazio"


text \<open>Invariant I2 as the specification words it: no id stands twice in the three
  queues taken together, every queue entry names a known, unsatisfied request
  (\<open>fila_unica\<close>), and that request has a positive remaining quantity.\<close>

definition todas_filas :: "SistemaDoacoes \<Rightarrow> string list" where
  "todas_filas s = fila_alta s @ fila_media s @ fila_baixa s"

definition fila_unica :: "SistemaDoacoes \<Rightarrow> bool" where
  "fila_unica s \<longleftrightarrow> distinct (todas_filas s) \<and> list_all (pendente (pedidos s)) (todas_filas s)"

definition quantidade_restante :: "(string \<times> Pedido) list \<Rightarrow> string \<Rightarrow> int" where
  "quantidade_restante ps k = (case map_of ps k of None \<Rightarrow> 0 | Some p \<Rightarrow> p_quantidade p)"

definition filas_positivas :: "SistemaDoacoes \<Rightarrow> bool" where
  "filas_positivas s \<longleftrightarrow> list_all (\<lambda>k. 0 < quantidade_restante (pedidos s) k) (todas_filas s)"

definition singularidade :: "SistemaDoacoes \<Rightarrow> bool" where
  "singularidade s \<longleftrightarrow>
     fila_unica s \<and> list_all (\<lambda>k. 0 < quantidade_restante (pedidos s) k) (todas_filas s)"

text \<open>What the proof of I2 carries along: every request is stored under its own id, an
  id the generator has already issued; no request has a negative remaining quantity, and
  every item in stock and every allocation in the history has a positive one.\<close>

definition ids_ok :: "Ambiente \<Rightarrow> SistemaDoacoes \<Rightarrow> bool" where
  "ids_ok E s \<longleftrightarrow>
     (\<forall>k p. map_of (pedidos s) k = Some p \<longrightarrow> p_id p = k \<and> (\<exists>i < n_ids s. k = novo_id E i))"

definition positivo :: "SistemaDoacoes \<Rightarrow> bool" where
  "positivo s \<longleftrightarrow>
     (\<forall>k p. map_of (pedidos s) k = Some p \<longrightarrow> 0 \<le> p_quantidade p)
     \<and> (\<forall>c. \<forall>item \<in> set (itens_de (estoque s) c). 0 < i_quantidade item)
     \<and> (\<forall>a \<in> set (historico_alocacoes s). 0 < a_quantidade a)"

definition inv_pos :: "Ambiente \<Rightarrow> SistemaDoacoes \<Rightarrow> bool" where
  "inv_pos E s \<longleftrightarrow> fila_unica s \<and> ids_ok E s \<and> positivo s \<and> filas_positivas s"

fun quantidade_positiva :: "operacao \<Rightarrow> bool" where
  "quantidade_positiva (Doar nome_item categoria qtd doador_id) = (0 < qtd)"
| "quantidade_positiva (Pedir sol categoria qtd prio) = (0 < qtd)"
| "quantidade_positiva Desfazer = True"

text \<open>The quantity the unsatisfied requests of a category still ask for, and the
  variant the specification gives for the loop: one iteration lowers the supply of the
  category or its unsatisfied demand.\<close>

definition demanda_pendente :: "SistemaDoacoes \<Rightarrow> string \<Rightarrow> int" where
  "demanda_pendente s c =
     sum_list (map (\<lambda>kv. p_quantidade (snd kv))
       (filter (\<lambda>kv. \<not> p_atendido (snd kv) \<and> p_categoria (snd kv) = c) (pedidos s)))"

definition variante_diminui :: "string \<Rightarrow> SistemaDoacoes \<Rightarrow> SistemaDoacoes \<Rightarrow> bool" where
  "variante_diminui c s s' \<longleftrightarrow>
     quantidade_disponivel s' c < quantidade_disponivel s c
     \<or> demanda_pendente s' c < demanda_pendente s c"

text \<open>A donation of 10 and then a request for 0 units of the same category, at the
  moment \<open>cadastrar_pedido\<close> enters the loop, and the state one iteration later.\<close>

definition estado_pedido_zero :: SistemaDoacoes where
  "estado_pedido_zero =
     inserir_pedido ambiente_exemplo ''R'' ''cat'' 0 ''alta''
       (registrar_doacao ambiente_exemplo ''A'' ''cat'' 10 None sistema_vazio)"

definition estado_pedido_zero_depois :: SistemaDoacoes where
  "estado_pedido_zero_depois =
     \<lparr>estoque = [(''cat'', [\<lparr>i_id = ''x'', i_nome = ''A'', i_categoria = ''cat'', i_quantidade = 10, i_data = ''''\<rparr>])],
      fila_alta = [], fila_media = [], fila_baixa = [],
      pedidos = [(''xx'', \<lparr>p_id = ''xx'', p_solicitante = ''R'', p_categoria = ''cat'', p_quantidade = 0,
                           p_prioridade = ''alta'', p_data = ''tt'', p_atendido = True\<rparr>)],
      historico_alocacoes = [\<lparr>a_id = ''xxx'', a_item_id = ''x'', a_pedido_id = ''xx'', a_quantidade = 0, a_data = ''tttt''\<rparr>],
      n_ids = 3, n_relogio = 6\<rparr>"

text \<open>A run without undo; the ids the generator has issued so far; and what the proof
  of the conservation in one category carries along, for the ids \<open>D\<close> of the items
  donated to the category \<open>c\<close> and the quantity \<open>T\<close> donated to it: the items of the
  category are those of \<open>D\<close>, no other category holds one of them, every id in the
  stock and in the history has been issued, and the two sums make \<open>T\<close>.\<close>

fun nao_desfaz :: "operacao \<Rightarrow> bool" where
  "nao_desfaz Desfazer = False"
| "nao_desfaz x = True"

definition emitidos :: "Ambiente \<Rightarrow> SistemaDoacoes \<Rightarrow> string set" where
  "emitidos E s = novo_id E ` {..<n_ids s}"

definition inv_cat :: "Ambiente \<Rightarrow> string \<Rightarrow> string list \<Rightarrow> int \<Rightarrow> SistemaDoacoes \<Rightarrow> bool" where
  "inv_cat E c D T s \<longleftrightarrow>
     (\<forall>x \<in> set (itens_de (estoque s) c). i_id x \<in> set D)
     \<and> (\<forall>c'. c' \<noteq> c \<longrightarrow> (\<forall>x \<in> set (itens_de (estoque s) c'). i_id x \<notin> set D))
     \<and> set D \<subseteq> emitidos E s
     \<and> (\<forall>c'. \<forall>x \<in> set (itens_de (estoque s) c'). i_id x \<in> emitidos E s)
     \<and> (\<forall>a \<in> set (historico_alocacoes s). a_item_id a \<in> emitidos E s)
     \<and> quantidade_disponivel s c + alocado_de D (historico_alocacoes s) = T"



text \<open>The same account kept by the origin of a unit rather than by the category it is
  filed under: the quantity of the stock items, of whatever category, that carry one of
  the ids \<open>D\<close>. An undo files the unit it returns under \<open>Desconhecido\<close> with the id of
  the item it was taken from, so the unit stays in this sum.\<close>

definition soma_de :: "string list \<Rightarrow> ItemDoacao list \<Rightarrow> int" where
  "soma_de D l = sum_list (map i_quantidade (filter (\<lambda>x. i_id x \<in> set D) l))"

definition estoque_de_origem :: "string list \<Rightarrow> SistemaDoacoes \<Rightarrow> int" where
  "estoque_de_origem D s = sum_list (map (\<lambda>kv. soma_de D (snd kv)) (estoque s))"

definition conservacao_por_origem :: "Ambiente \<Rightarrow> string \<Rightarrow> operacao list \<Rightarrow> bool" where
  "conservacao_por_origem E c ops \<longleftrightarrow>
     estoque_de_origem (ids_doados E c sistema_vazio ops) (executar_todas E ops sistema_vazio)
       + alocado_de (ids_doados E c sistema_vazio ops)
           (historico_alocacoes (executar_todas E ops sistema_vazio))
     = sum_list (map (doado_em c) ops)"

definition inv_origem :: "Ambiente \<Rightarrow> string list \<Rightarrow> int \<Rightarrow> SistemaDoacoes \<Rightarrow> bool" where
  "inv_origem E D T s \<longleftrightarrow>
     set D \<subseteq> emitidos E s
     \<and> (\<forall>kv \<in> set (estoque s). \<forall>x \<in> set (snd kv). i_id x \<in> emitidos E s)
     \<and> (\<forall>a \<in> set (historico_alocacoes s). a_item_id a \<in> emitidos E s)
     \<and> estoque_de_origem D s + alocado_de D (historico_alocacoes s) = T"

section \<open>Facts about one iteration\<close>

lemma iterar_suficiente:
  "medida s < k \<Longrightarrow> iterar k E c s = Some (tentar_alocar_para_pedidos E c s)"
proof (induction k arbitrary: s)
  case 0
  then show ?case by simp
next
  case (Suc k)
  show ?case
  proof (cases "iteracao E c s")
    case (Parar s')
    then show ?thesis by (simp add: tentar_alocar_para_pedidos.simps [of E c s])
  next
    case (Continuar s')
    then have "medida s' < medida s" by (rule medida_iteracao)
    with Suc.prems have "medida s' < k" by simp
    then have "iterar k E c s' = Some (tentar_alocar_para_pedidos E c s')" by (rule Suc.IH)
    with Continuar show ?thesis by (simp add: tentar_alocar_para_pedidos.simps [of E c s])
  qed
qed

lemma iteracao_Continuar_casos:
  assumes "iteracao E c s = Continuar s'"
  obtains (invalido) pid where "prox_pedido s = Some pid" "pid \<noteq> []"
      "\<not> compativel (pedidos s) (case map_of (pedidos s) pid of None \<Rightarrow> c | Some p \<Rightarrow> p_categoria p) pid"
      "s' = remover_invalido pid s"
    | (frente) pid pedido where "prox_pedido s = Some pid" "pid \<noteq> []"
      "map_of (pedidos s) pid = Some pedido" "\<not> p_atendido pedido" "p_categoria pedido = c"
      "alocar E c pid pedido s = Continuar s'"
    | (busca) pid pedido found p s1 where "prox_pedido s = Some pid" "pid \<noteq> []"
      "map_of (pedidos s) pid = Some pedido" "\<not> p_atendido pedido" "p_categoria pedido \<noteq> c"
      "procurar niveis c s = Some (found, p, s1)" "alocar E c found p s1 = Continuar s'"
proof -
  from assms obtain pid where pp: "prox_pedido s = Some pid" and ne: "pid \<noteq> []"
    by (cases "prox_pedido s") (auto simp: iteracao_def split: if_splits)
  show thesis
  proof (cases "map_of (pedidos s) pid")
    case None
    with assms pp ne have "s' = remover_invalido pid s" by (simp add: iteracao_def)
    with pp ne None show ?thesis by (intro invalido [of pid]) (simp_all add: compativel_def)
  next
    case (Some pedido)
    show ?thesis
    proof (cases "p_atendido pedido")
      case True
      with assms pp ne Some have "s' = remover_invalido pid s" by (simp add: iteracao_def)
      with pp ne Some True show ?thesis by (intro invalido [of pid]) (simp_all add: compativel_def)
    next
      case na: False
      show ?thesis
      proof (cases "p_categoria pedido = c")
        case True
        with assms pp ne Some na have "alocar E c pid pedido s = Continuar s'"
          by (simp add: iteracao_def)
        with pp ne Some na True show ?thesis by (intro frente)
      next
        case False
        with assms pp ne Some na obtain found p s1 where
          "procurar niveis c s = Some (found, p, s1)" "alocar E c found p s1 = Continuar s'"
          by (cases "procurar niveis c s") (auto simp: iteracao_def)
        with pp ne Some na False show ?thesis by (intro busca)
      qed
    qed
  qed
qed

lemma procurar_rotacao:
  assumes "procurar ns c s = Some (found, p, s1)"
  shows "\<exists>n \<in> set ns. found \<in> set (fila n s)
     \<and> fila n s1 = dropWhile (\<lambda>x. x \<noteq> found) (fila n s) @ takeWhile (\<lambda>x. x \<noteq> found) (fila n s)
     \<and> (\<forall>m. m \<noteq> n \<longrightarrow> fila m s1 = fila m s)"
proof -
  from procurar_Some [OF assms] obtain n where
    n: "n \<in> set ns" "found \<in> set (fila n s)" "s1 = fila_upd n (rodar_ate found) s" by auto
  then show ?thesis
    by (intro bexI [of _ n]) (simp_all add: fila_fila_upd rodar_ate_forma)
qed

lemma alocar_Continuar_itens:
  "alocar E c chave pedido s = Continuar s' \<Longrightarrow> \<exists>item resto. itens_de (estoque s) c = item # resto"
  by (cases "itens_de (estoque s) c") (auto simp: alocar_def)

lemma iteracao_efeito:
  assumes "iteracao E c s = Continuar s'"
  obtains (invalido) pid where "prox_pedido s = Some pid" "pid \<noteq> []"
      "\<not> compativel (pedidos s) (case map_of (pedidos s) pid of None \<Rightarrow> c | Some p \<Rightarrow> p_categoria p) pid"
      "s' = remover_invalido pid s"
  | (alocou) chave pedido item resto s1 where
      "s1 = s \<or> (\<exists>n. chave \<in> set (fila n s) \<and> s1 = fila_upd n (rodar_ate chave) s)"
      "chave \<noteq> []" "map_of (pedidos s) chave = Some pedido" "\<not> p_atendido pedido" "p_categoria pedido = c"
      "itens_de (estoque s) c = item # resto"
      "historico_alocacoes s' = historico_alocacoes s @
           [\<lparr>a_id = novo_id E (n_ids s), a_item_id = i_id item, a_pedido_id = p_id pedido,
             a_quantidade = min (i_quantidade item) (p_quantidade pedido), a_data = now E (n_relogio s)\<rparr>]"
      "estoque s' = AList.update c
           (if i_quantidade item \<le> p_quantidade pedido then resto
            else item\<lparr>i_quantidade := i_quantidade item - p_quantidade pedido\<rparr> # resto) (estoque s)"
      "pedidos s' = AList.update chave
           (if p_quantidade pedido \<le> i_quantidade item
            then pedido\<lparr>p_quantidade := 0, p_atendido := True\<rparr>
            else pedido\<lparr>p_quantidade := p_quantidade pedido - i_quantidade item\<rparr>) (pedidos s)"
      "\<And>n. fila n s' =
           (if p_quantidade pedido \<le> i_quantidade item
            then fila n (remover_da_fila niveis (p_id pedido) s1) else fila n s1)"
      "n_ids s' = Suc (n_ids s)" "n_relogio s' = Suc (Suc (n_relogio s))"
  using assms
proof (cases rule: iteracao_Continuar_casos)
  case (invalido pid)
  then show ?thesis by (rule that(1))
next
  case (frente pid pedido)
  from alocar_Continuar_itens [OF frente(6)] obtain item resto where
    it: "itens_de (estoque s) c = item # resto" by blast
  from alocar_Cons [OF it, of E pid pedido] frente(6)
  show ?thesis
    by (intro that(2) [of s pid pedido item resto]) (simp_all add: frente it)
next
  case (busca pid pedido found p s1)
  from procurar_Some [OF busca(6)] obtain n where
    f: "found \<noteq> []" "map_of (pedidos s) found = Some p" "\<not> p_atendido p" "p_categoria p = c"
      "found \<in> set (fila n s)" and s1: "s1 = fila_upd n (rodar_ate found) s" by blast
  from alocar_Continuar_itens [OF busca(7)] obtain item resto where
    it: "itens_de (estoque s1) c = item # resto" by blast
  from alocar_Cons [OF it, of E found p] busca(7)
  have r: "historico_alocacoes s' = historico_alocacoes s1 @
           [\<lparr>a_id = novo_id E (n_ids s1), a_item_id = i_id item, a_pedido_id = p_id p,
             a_quantidade = min (i_quantidade item) (p_quantidade p), a_data = now E (n_relogio s1)\<rparr>]"
    "estoque s' = AList.update c
           (if i_quantidade item \<le> p_quantidade p then resto
            else item\<lparr>i_quantidade := i_quantidade item - p_quantidade p\<rparr> # resto) (estoque s1)"
    "pedidos s' = AList.update found
           (if p_quantidade p \<le> i_quantidade item
            then p\<lparr>p_quantidade := 0, p_atendido := True\<rparr>
            else p\<lparr>p_quantidade := p_quantidade p - i_quantidade item\<rparr>) (pedidos s1)"
    "\<And>n. fila n s' =
           (if p_quantidade p \<le> i_quantidade item
            then fila n (remover_da_fila niveis (p_id p) s1) else fila n s1)"
    "n_ids s' = Suc (n_ids s1)" "n_relogio s' = Suc (Suc (n_relogio s1))"
    by simp_all
  show ?thesis
  proof (rule that(2) [of s1 found p item resto])
    show "s1 = s \<or> (\<exists>n. found \<in> set (fila n s) \<and> s1 = fila_upd n (rodar_ate found) s)"
      using f(5) s1 by blast
    show "itens_de (estoque s) c = item # resto" using it by (simp add: s1 fila_upd_campos)
    show "\<And>n. fila n s' =
           (if p_quantidade p \<le> i_quantidade item
            then fila n (remover_da_fila niveis (p_id p) s1) else fila n s1)" by (rule r(4))
  qed (use f r in \<open>simp_all add: s1 fila_upd_campos\<close>)
qed

lemma itens_de_update: "itens_de (AList.update c l e) c' = (if c' = c then l else itens_de e c')"
  by (simp add: itens_de_def update_conv')

lemma fifo_iteracao:
  assumes "iteracao E c s = Continuar s'" "historico_alocacoes s' \<noteq> historico_alocacoes s"
    "itens_de (estoque s) c = velho # resto"
  shows "a_item_id (last (historico_alocacoes s')) = i_id velho
     \<and> (itens_de (estoque s') c = resto \<or> (\<exists>q. itens_de (estoque s') c = velho\<lparr>i_quantidade := q\<rparr> # resto))"
  using assms(1)
proof (cases rule: iteracao_efeito)
  case (invalido pid)
  with assms(2) show ?thesis by (simp add: remover_invalido_campos)
next
  case (alocou chave pedido item resto' s1)
  with assms(3) show ?thesis by (auto simp: itens_de_update)
qed

lemma dropWhile_achado:
  "x \<in> set q \<Longrightarrow> dropWhile (\<lambda>y. y \<noteq> x) q = x # tl (dropWhile (\<lambda>y. y \<noteq> x) q)"
  by (induction q) auto

subsection \<open>Evaluation of the examples\<close>

lemmas avaliar =
  executar_todas_def registrar_doacao_def cadastrar_pedido_def desfazer_ultima_alocacao_def
  inserir_doacao_def inserir_pedido_def tentar_alocar_para_pedidos.simps iteracao_def
  alocar_def prox_pedido_def niveis_def nivel_de_def itens_de_def estoque_tocar_def
  remover_invalido_def popleft_se_def log_def sistema_vazio_def Let_def

lemma iteracao_estado_exemplo:
  "iteracao ambiente_exemplo ''cat'' estado_exemplo = Continuar estado_exemplo_depois"
  by (simp add: estado_exemplo_def estado_exemplo_depois_def ambiente_exemplo_def avaliar)

lemma estado_tres_pedidos_valor:
  "estado_tres_pedidos =
     \<lparr>estoque = [(''A'', []), (''B'', []), (''C'', [])],
      fila_alta = [''xxx'', ''xx'', ''x''], fila_media = [], fila_baixa = [],
      pedidos = [(''x'', \<lparr>p_id = ''x'', p_solicitante = ''R1'', p_categoria = ''A'', p_quantidade = 1,
                           p_prioridade = ''alta'', p_data = '''', p_atendido = False\<rparr>),
                 (''xx'', \<lparr>p_id = ''xx'', p_solicitante = ''R2'', p_categoria = ''B'', p_quantidade = 2,
                           p_prioridade = ''alta'', p_data = ''tt'', p_atendido = False\<rparr>),
                 (''xxx'', \<lparr>p_id = ''xxx'', p_solicitante = ''R3'', p_categoria = ''C'', p_quantidade = 1,
                           p_prioridade = ''alta'', p_data = ''tttt'', p_atendido = False\<rparr>)],
      historico_alocacoes = [], n_ids = 3, n_relogio = 6\<rparr>"
  by (simp add: estado_tres_pedidos_def ambiente_exemplo_def avaliar rodar_ate.simps)

section \<open>Invariants of the loop\<close>

lemma tentar_invariante:
  assumes "P s"
    and "\<And>t t'. P t \<Longrightarrow> iteracao E c t = Continuar t' \<Longrightarrow> P t'"
    and "\<And>t t'. P t \<Longrightarrow> iteracao E c t = Parar t' \<Longrightarrow> Q t'"
  shows "Q (tentar_alocar_para_pedidos E c s)"
  using assms
proof (induction E c s rule: tentar_alocar_para_pedidos.induct)
  case (1 E c s)
  note passo = "1.prems"(2) and fim = "1.prems"(3)
  show ?case
  proof (cases "iteracao E c s")
    case (Parar s')
    from "1.prems"(1) Parar have "Q s'" by (rule fim)
    with Parar show ?thesis
      by (simp add: tentar_alocar_para_pedidos.simps [of E c s])
  next
    case (Continuar s')
    from "1.prems"(1) Continuar have "P s'" by (rule passo)
    from Continuar this have "Q (tentar_alocar_para_pedidos E c s')"
    proof (rule "1.IH")
      show "\<And>t t'. P t \<Longrightarrow> iteracao E c t = Continuar t' \<Longrightarrow> P t'" by (rule passo)
      show "\<And>t t'. P t \<Longrightarrow> iteracao E c t = Parar t' \<Longrightarrow> Q t'" by (rule fim)
    qed
    with Continuar show ?thesis
      by (simp add: tentar_alocar_para_pedidos.simps [of E c s])
  qed
qed

lemma iteracao_Parar_efeito:
  assumes "iteracao E c s = Parar s'"
  obtains (sem_pedido) "s' = s" "prox_pedido s = None \<or> prox_pedido s = Some []"
  | (sem_compativel) pid pedido where "s' = s" "prox_pedido s = Some pid" "pid \<noteq> []"
      "map_of (pedidos s) pid = Some pedido" "\<not> p_atendido pedido" "p_categoria pedido \<noteq> c"
      "procurar niveis c s = None"
  | (sem_estoque) chave pedido s1 where
      "s1 = s \<or> (\<exists>n. chave \<in> set (fila n s) \<and> s1 = fila_upd n (rodar_ate chave) s)"
      "chave \<noteq> []" "map_of (pedidos s) chave = Some pedido" "\<not> p_atendido pedido" "p_categoria pedido = c"
      "itens_de (estoque s) c = []" "s' = s1\<lparr>estoque := estoque_tocar c (estoque s)\<rparr>"
proof (cases "prox_pedido s")
  case None
  with assms show ?thesis by (intro sem_pedido) (simp_all add: iteracao_def)
next
  case (Some pid)
  show ?thesis
  proof (cases "pid = []")
    case True
    with assms Some show ?thesis by (intro sem_pedido) (simp_all add: iteracao_def)
  next
    case ne: False
    from assms Some ne obtain pedido where p: "map_of (pedidos s) pid = Some pedido"
      by (cases "map_of (pedidos s) pid") (auto simp: iteracao_def)
    with assms Some ne have na: "\<not> p_atendido pedido"
      by (auto simp: iteracao_def split: if_splits)
    show ?thesis
    proof (cases "p_categoria pedido = c")
      case True
      with assms Some ne p na have "alocar E c pid pedido s = Parar s'" by (simp add: iteracao_def)
      then have "itens_de (estoque s) c = []" "s' = s\<lparr>estoque := estoque_tocar c (estoque s)\<rparr>"
        by (simp_all add: alocar_Parar)
      with ne p na True show ?thesis by (intro sem_estoque [of s pid pedido]) simp_all
    next
      case False
      show ?thesis
      proof (cases "procurar niveis c s")
        case None
        with assms Some ne p na False have "s' = s" by (simp add: iteracao_def)
        with Some ne p na False None show ?thesis by (intro sem_compativel)
      next
        case (Some r)
        obtain found q s1 where r: "r = (found, q, s1)" by (cases r)
        with assms \<open>prox_pedido s = Some pid\<close> ne p na False Some
        have al: "alocar E c found q s1 = Parar s'" by (simp add: iteracao_def)
        from Some r procurar_Some [of niveis c s found q s1] obtain n where
          f: "found \<noteq> []" "map_of (pedidos s) found = Some q" "\<not> p_atendido q" "p_categoria q = c"
          "found \<in> set (fila n s)" and s1: "s1 = fila_upd n (rodar_ate found) s" by blast
        from al have "itens_de (estoque s1) c = []" "s' = s1\<lparr>estoque := estoque_tocar c (estoque s1)\<rparr>"
          by (simp_all add: alocar_Parar)
        then have "itens_de (estoque s) c = []" "s' = s1\<lparr>estoque := estoque_tocar c (estoque s)\<rparr>"
          by (simp_all add: s1 fila_upd_campos)
        with f s1 show ?thesis by (intro sem_estoque [of s1 found q]) blast+
      qed
    qed
  qed
qed

lemma soma_update:
  "sum_list (map (\<lambda>kv. soma_itens (snd kv)) (AList.update c l e)) =
     sum_list (map (\<lambda>kv. soma_itens (snd kv)) e) - soma_itens (itens_de e c) + soma_itens l"
  by (induction e) (auto simp: itens_de_def soma_itens_def)

lemma soma_tocar:
  "sum_list (map (\<lambda>kv. soma_itens (snd kv)) (estoque_tocar c e)) = sum_list (map (\<lambda>kv. soma_itens (snd kv)) e)"
  by (simp add: estoque_tocar_def soma_itens_def split: option.splits)

lemma soma_iteracao_Continuar:
  assumes "iteracao E c s = Continuar s'"
  shows "soma_estoque s' + soma_historico s' = soma_estoque s + soma_historico s"
  using assms
proof (cases rule: iteracao_efeito)
  case (invalido pid)
  then show ?thesis by (simp add: soma_estoque_def soma_historico_def remover_invalido_campos)
next
  case (alocou chave pedido item resto s1)
  then show ?thesis
    by (simp add: soma_estoque_def soma_historico_def soma_update) (simp add: soma_itens_def)
qed

lemma soma_iteracao_Parar:
  assumes "iteracao E c s = Parar s'"
  shows "soma_estoque s' + soma_historico s' = soma_estoque s + soma_historico s"
  using assms
proof (cases rule: iteracao_Parar_efeito)
  case (sem_estoque chave pedido s1)
  then show ?thesis
    by (auto simp: soma_estoque_def soma_historico_def soma_tocar fila_upd_campos)
qed simp_all

lemma soma_tentar:
  "soma_estoque (tentar_alocar_para_pedidos E c s) + soma_historico (tentar_alocar_para_pedidos E c s)
     = soma_estoque s + soma_historico s"
  by (rule tentar_invariante [where P = "\<lambda>t. soma_estoque t + soma_historico t = soma_estoque s + soma_historico s"])
     (simp_all add: soma_iteracao_Continuar soma_iteracao_Parar)

lemma soma_inserir_doacao:
  "soma_estoque (inserir_doacao E n c q s) + soma_historico (inserir_doacao E n c q s)
     = soma_estoque s + soma_historico s + q"
  by (simp add: inserir_doacao_def log_def soma_estoque_def soma_historico_def soma_update)
     (simp add: soma_itens_def)

lemma soma_inserir_pedido:
  "soma_estoque (inserir_pedido E sol c q prio s) + soma_historico (inserir_pedido E sol c q prio s)
     = soma_estoque s + soma_historico s"
  by (simp add: inserir_pedido_def Let_def log_def soma_estoque_def soma_historico_def fila_upd_campos)

lemma soma_desfazer:
  "soma_estoque (snd (desfazer_ultima_alocacao E s)) + soma_historico (snd (desfazer_ultima_alocacao E s))
     = soma_estoque s + soma_historico s"
proof (cases "historico_alocacoes s = []")
  case True
  then show ?thesis by (simp add: desfazer_ultima_alocacao_def log_def soma_estoque_def soma_historico_def)
next
  case False
  then have h: "historico_alocacoes s = butlast (historico_alocacoes s) @ [last (historico_alocacoes s)]"
    by simp
  have "soma_historico s = sum_list (map a_quantidade (butlast (historico_alocacoes s)))
      + a_quantidade (last (historico_alocacoes s))"
    unfolding soma_historico_def by (subst h) simp
  with False show ?thesis
    by (simp add: desfazer_ultima_alocacao_def Let_def log_def soma_estoque_def soma_historico_def
        soma_update fila_upd_campos split: option.splits)
      (simp add: soma_itens_def)
qed

lemma soma_executar:
  "soma_estoque (executar E s x) + soma_historico (executar E s x)
     = soma_estoque s + soma_historico s + doado x"
  by (cases x)
     (simp_all add: registrar_doacao_def cadastrar_pedido_def soma_tentar soma_inserir_doacao
        soma_inserir_pedido soma_desfazer)

lemma soma_executar_todas:
  "soma_estoque (executar_todas E ops s) + soma_historico (executar_todas E ops s)
     = soma_estoque s + soma_historico s + total_doado ops"
  unfolding executar_todas_def total_doado_def
  by (induction ops arbitrary: s) (simp_all add: soma_executar)

lemma mesmo_pedido_refl: "mesmo_pedido p p"
  by (simp add: mesmo_pedido_def)

lemma mesmo_pedido_trans: "mesmo_pedido p p' \<Longrightarrow> mesmo_pedido p' p'' \<Longrightarrow> mesmo_pedido p p''"
  by (simp add: mesmo_pedido_def)

lemma pedido_mantido_Continuar:
  assumes "iteracao E c s = Continuar s'" "pedido_mantido k p s"
  shows "pedido_mantido k p s'"
  using assms(1)
proof (cases rule: iteracao_efeito)
  case (invalido pid)
  with assms(2) show ?thesis by (simp add: pedido_mantido_def remover_invalido_campos)
next
  case (alocou chave pedido item resto s1)
  with assms(2) show ?thesis
    by (auto simp: pedido_mantido_def update_conv' mesmo_pedido_def)
qed

lemma pedidos_Parar:
  assumes "iteracao E c s = Parar s'"
  shows "pedidos s' = pedidos s" "historico_alocacoes s' = historico_alocacoes s"
    "n_ids s' = n_ids s" "n_relogio s' = n_relogio s"
  using assms
  by (cases rule: iteracao_Parar_efeito; auto simp: fila_upd_campos)+

lemma pedido_mantido_tentar:
  assumes "pedido_mantido k p s"
  shows "pedido_mantido k p (tentar_alocar_para_pedidos E c s)"
proof (rule tentar_invariante [where P = "pedido_mantido k p"])
  show "pedido_mantido k p s" by (rule assms)
  show "\<And>t t'. pedido_mantido k p t \<Longrightarrow> iteracao E c t = Continuar t' \<Longrightarrow> pedido_mantido k p t'"
    by (rule pedido_mantido_Continuar)
  show "\<And>t t'. pedido_mantido k p t \<Longrightarrow> iteracao E c t = Parar t' \<Longrightarrow> pedido_mantido k p t'"
    by (simp add: pedido_mantido_def pedidos_Parar)
qed

lemma inserir_pedido_campos:
  "pedidos (inserir_pedido E sol c q prio s) =
     AList.update (novo_id E (n_ids s))
       \<lparr>p_id = novo_id E (n_ids s), p_solicitante = sol, p_categoria = c, p_quantidade = q,
         p_prioridade = prio, p_data = now E (n_relogio s), p_atendido = False\<rparr> (pedidos s)"
  "estoque (inserir_pedido E sol c q prio s) = estoque s"
  "historico_alocacoes (inserir_pedido E sol c q prio s) = historico_alocacoes s"
  "n_ids (inserir_pedido E sol c q prio s) = Suc (n_ids s)"
  "n_relogio (inserir_pedido E sol c q prio s) = Suc (Suc (n_relogio s))"
  "fila n (inserir_pedido E sol c q prio s) =
     (if n = nivel_de prio then fila n s @ [novo_id E (n_ids s)] else fila n s)"
  by (simp_all add: inserir_pedido_def Let_def log_def fila_upd_campos fila_fila_upd)
     (cases n; cases "nivel_de prio"; simp)+

section \<open>The selection of a request and the idle step\<close>

lemma existe_compativel_iff:
  "existe_compativel c s \<longleftrightarrow> (\<exists>n k. k \<in> set (fila n s) \<and> compativel (pedidos s) c k)"
proof -
  have "\<And>n. n \<in> set niveis" subgoal for n by (cases n) (simp_all add: niveis_def) done
  then show ?thesis by (auto simp: existe_compativel_def list_ex_iff)
qed

lemma prox_pedido_frente:
  assumes "prox_pedido s = Some pid"
  obtains n r where "fila n s = pid # r" "\<And>m. ordem m < ordem n \<Longrightarrow> fila m s = []"
proof -
  from prox_pedido_cases [OF assms] consider
    (a) r where "fila_alta s = pid # r"
    | (m) r where "fila_alta s = []" "fila_media s = pid # r"
    | (b) r where "fila_alta s = []" "fila_media s = []" "fila_baixa s = pid # r"
    by blast
  then show thesis
  proof cases
    case a
    show ?thesis
    proof (rule that [of Alta r])
      show "fila Alta s = pid # r" using a by simp
      show "\<And>m. ordem m < ordem Alta \<Longrightarrow> fila m s = []" by simp
    qed
  next
    case m
    show ?thesis
    proof (rule that [of Media r])
      show "fila Media s = pid # r" using m by simp
      show "\<And>k. ordem k < ordem Media \<Longrightarrow> fila k s = []"
        subgoal for k using m by (cases k) simp_all
        done
    qed
  next
    case b
    show ?thesis
    proof (rule that [of Baixa r])
      show "fila Baixa s = pid # r" using b by simp
      show "\<And>k. ordem k < ordem Baixa \<Longrightarrow> fila k s = []"
        subgoal for k using b by (cases k) simp_all
        done
    qed
  qed
qed


lemma rodar_ate_frente: "rodar_ate k (k # r) = k # r"
  by (subst rodar_ate.simps) simp

lemma fila_upd_mesma: "f (fila n s) = fila n s \<Longrightarrow> fila_upd n f s = s"
  by (cases n) simp_all

lemma set_rodar_ate: "set (rodar_ate k q) = set q"
proof (cases "k \<in> set q")
  case True
  have "set (dropWhile (\<lambda>x. x \<noteq> k) q @ takeWhile (\<lambda>x. x \<noteq> k) q) =
        set (takeWhile (\<lambda>x. x \<noteq> k) q @ dropWhile (\<lambda>x. x \<noteq> k) q)"
    by (simp only: set_append Un_commute)
  with True show ?thesis by (simp add: rodar_ate_forma del: set_append)
next
  case False
  then show ?thesis by (simp add: rodar_ate_fora)
qed

lemma distinct_rodar_ate: "distinct (rodar_ate k q) = distinct q"
proof (cases "k \<in> set q")
  case True
  have "distinct (dropWhile (\<lambda>x. x \<noteq> k) q @ takeWhile (\<lambda>x. x \<noteq> k) q) =
        distinct (takeWhile (\<lambda>x. x \<noteq> k) q @ dropWhile (\<lambda>x. x \<noteq> k) q)"
    by (simp only: distinct_append) (auto simp: Int_commute)
  with True show ?thesis by (simp add: rodar_ate_forma del: distinct_append)
next
  case False
  then show ?thesis by (simp add: rodar_ate_fora)
qed

lemma hd_rodar_ate:
  assumes "k \<in> set q"
  shows "\<exists>r. rodar_ate k q = k # r"
proof -
  from assms obtain d where d: "dropWhile (\<lambda>x. x \<noteq> k) q = k # d"
    using dropWhile_achado [of k q] by blast
  from assms have "rodar_ate k q = dropWhile (\<lambda>x. x \<noteq> k) q @ takeWhile (\<lambda>x. x \<noteq> k) q"
    by (rule rodar_ate_forma)
  with d show ?thesis by simp
qed

lemma iteracao_efeito_fila:
  assumes "iteracao E c s = Continuar s'"
  obtains (invalido) pid where "prox_pedido s = Some pid" "pid \<noteq> []"
      "\<not> pendente (pedidos s) pid" "s' = remover_invalido pid s"
  | (alocou) n chave pedido item resto s1 where
      "chave \<in> set (fila n s)" "s1 = fila_upd n (rodar_ate chave) s"
      "chave \<noteq> []" "map_of (pedidos s) chave = Some pedido" "\<not> p_atendido pedido" "p_categoria pedido = c"
      "itens_de (estoque s) c = item # resto"
      "historico_alocacoes s' = historico_alocacoes s @
           [\<lparr>a_id = novo_id E (n_ids s), a_item_id = i_id item, a_pedido_id = p_id pedido,
             a_quantidade = min (i_quantidade item) (p_quantidade pedido), a_data = now E (n_relogio s)\<rparr>]"
      "estoque s' = AList.update c
           (if i_quantidade item \<le> p_quantidade pedido then resto
            else item\<lparr>i_quantidade := i_quantidade item - p_quantidade pedido\<rparr> # resto) (estoque s)"
      "pedidos s' = AList.update chave
           (if p_quantidade pedido \<le> i_quantidade item
            then pedido\<lparr>p_quantidade := 0, p_atendido := True\<rparr>
            else pedido\<lparr>p_quantidade := p_quantidade pedido - i_quantidade item\<rparr>) (pedidos s)"
      "\<And>m. fila m s' =
           (if p_quantidade pedido \<le> i_quantidade item
            then fila m (remover_da_fila niveis (p_id pedido) s1) else fila m s1)"
      "n_ids s' = Suc (n_ids s)" "n_relogio s' = Suc (Suc (n_relogio s))"
  using assms
proof (cases rule: iteracao_Continuar_casos)
  case (invalido pid)
  from invalido(3) have "\<not> pendente (pedidos s) pid"
    by (auto simp: pendente_def compativel_def split: option.splits)
  with invalido show ?thesis by (intro that(1) [of pid])
next
  case (frente pid pedido)
  from frente(1) obtain n r where n: "fila n s = pid # r" by (rule prox_pedido_frente)
  then have s: "fila_upd n (rodar_ate pid) s = s"
    by (intro fila_upd_mesma) (simp add: rodar_ate_frente)
  from alocar_Continuar_itens [OF frente(6)] obtain item resto where
    it: "itens_de (estoque s) c = item # resto" by blast
  from alocar_Cons [OF it, of E pid pedido] frente(6)
  show ?thesis
    by (intro that(2) [of pid n s pedido item resto]) (simp_all add: frente it n s)
next
  case (busca pid pedido found p s1)
  from procurar_Some [OF busca(6)] obtain n where
    f: "found \<noteq> []" "map_of (pedidos s) found = Some p" "\<not> p_atendido p" "p_categoria p = c"
      "found \<in> set (fila n s)" and s1: "s1 = fila_upd n (rodar_ate found) s" by blast
  from alocar_Continuar_itens [OF busca(7)] obtain item resto where
    it: "itens_de (estoque s1) c = item # resto" by blast
  from alocar_Cons [OF it, of E found p] busca(7)
  have r: "historico_alocacoes s' = historico_alocacoes s1 @
           [\<lparr>a_id = novo_id E (n_ids s1), a_item_id = i_id item, a_pedido_id = p_id p,
             a_quantidade = min (i_quantidade item) (p_quantidade p), a_data = now E (n_relogio s1)\<rparr>]"
    "estoque s' = AList.update c
           (if i_quantidade item \<le> p_quantidade p then resto
            else item\<lparr>i_quantidade := i_quantidade item - p_quantidade p\<rparr> # resto) (estoque s1)"
    "pedidos s' = AList.update found
           (if p_quantidade p \<le> i_quantidade item
            then p\<lparr>p_quantidade := 0, p_atendido := True\<rparr>
            else p\<lparr>p_quantidade := p_quantidade p - i_quantidade item\<rparr>) (pedidos s1)"
    "\<And>n. fila n s' =
           (if p_quantidade p \<le> i_quantidade item
            then fila n (remover_da_fila niveis (p_id p) s1) else fila n s1)"
    "n_ids s' = Suc (n_ids s1)" "n_relogio s' = Suc (Suc (n_relogio s1))"
    by simp_all
  show ?thesis
  proof (rule that(2) [of found n s1 p item resto])
    show "itens_de (estoque s) c = item # resto" using it by (simp add: s1 fila_upd_campos)
    show "\<And>n. fila n s' =
           (if p_quantidade p \<le> i_quantidade item
            then fila n (remover_da_fila niveis (p_id p) s1) else fila n s1)" by (rule r(4))
  qed (use f r in \<open>simp_all add: s1 fila_upd_campos\<close>)
qed

lemma iteracao_Parar_fila:
  assumes "iteracao E c s = Parar s'"
  obtains (sem_pedido) "s' = s" "prox_pedido s = None \<or> prox_pedido s = Some []"
  | (sem_compativel) pid pedido where "s' = s" "prox_pedido s = Some pid" "pid \<noteq> []"
      "map_of (pedidos s) pid = Some pedido" "\<not> p_atendido pedido" "p_categoria pedido \<noteq> c"
      "procurar niveis c s = None"
  | (sem_estoque) n chave pedido where
      "chave \<in> set (fila n s)" "chave \<noteq> []" "map_of (pedidos s) chave = Some pedido"
      "\<not> p_atendido pedido" "p_categoria pedido = c"
      "itens_de (estoque s) c = []"
      "s' = (fila_upd n (rodar_ate chave) s)\<lparr>estoque := estoque_tocar c (estoque s)\<rparr>"
proof (cases "prox_pedido s")
  case None
  with assms show ?thesis by (intro sem_pedido) (simp_all add: iteracao_def)
next
  case (Some pid)
  show ?thesis
  proof (cases "pid = []")
    case True
    with assms Some show ?thesis by (intro sem_pedido) (simp_all add: iteracao_def)
  next
    case ne: False
    from assms Some ne obtain pedido where p: "map_of (pedidos s) pid = Some pedido"
      by (cases "map_of (pedidos s) pid") (auto simp: iteracao_def)
    with assms Some ne have na: "\<not> p_atendido pedido"
      by (auto simp: iteracao_def split: if_splits)
    show ?thesis
    proof (cases "p_categoria pedido = c")
      case True
      from Some obtain n r where n: "fila n s = pid # r" by (rule prox_pedido_frente)
      then have s: "fila_upd n (rodar_ate pid) s = s"
        by (intro fila_upd_mesma) (simp add: rodar_ate_frente)
      from True assms Some ne p na have "alocar E c pid pedido s = Parar s'" by (simp add: iteracao_def)
      then have "itens_de (estoque s) c = []" "s' = s\<lparr>estoque := estoque_tocar c (estoque s)\<rparr>"
        by (simp_all add: alocar_Parar)
      with ne p na True n s show ?thesis by (intro sem_estoque [of pid n pedido]) simp_all
    next
      case False
      show ?thesis
      proof (cases "procurar niveis c s")
        case None
        with assms Some ne p na False have "s' = s" by (simp add: iteracao_def)
        with Some ne p na False None show ?thesis by (intro sem_compativel)
      next
        case (Some r)
        obtain found q s1 where r: "r = (found, q, s1)" by (cases r)
        with assms \<open>prox_pedido s = Some pid\<close> ne p na False Some
        have al: "alocar E c found q s1 = Parar s'" by (simp add: iteracao_def)
        from Some r procurar_Some [of niveis c s found q s1] obtain n where
          f: "found \<noteq> []" "map_of (pedidos s) found = Some q" "\<not> p_atendido q" "p_categoria q = c"
          "found \<in> set (fila n s)" and s1: "s1 = fila_upd n (rodar_ate found) s" by blast
        from al have "itens_de (estoque s1) c = []" "s' = s1\<lparr>estoque := estoque_tocar c (estoque s1)\<rparr>"
          by (simp_all add: alocar_Parar)
        then have "itens_de (estoque s) c = []"
          "s' = (fila_upd n (rodar_ate found) s)\<lparr>estoque := estoque_tocar c (estoque s)\<rparr>"
          by (simp_all add: s1 fila_upd_campos)
        with f show ?thesis by (intro sem_estoque [of found n q])
      qed
    qed
  qed
qed

lemma iteracao_Parar_casos:
  assumes "iteracao E c s = Parar s'"
  obtains (sem_pedido) "s' = s" "prox_pedido s = None \<or> prox_pedido s = Some []"
  | (sem_compativel) pid pedido where "s' = s" "prox_pedido s = Some pid" "pid \<noteq> []"
      "map_of (pedidos s) pid = Some pedido" "\<not> p_atendido pedido" "p_categoria pedido \<noteq> c"
      "procurar niveis c s = None"
  | (frente) chave pedido where "prox_pedido s = Some chave" "chave \<noteq> []"
      "map_of (pedidos s) chave = Some pedido" "\<not> p_atendido pedido" "p_categoria pedido = c"
      "itens_de (estoque s) c = []" "s' = s\<lparr>estoque := estoque_tocar c (estoque s)\<rparr>"
  | (busca) pid pedido chave p s1 where "prox_pedido s = Some pid" "pid \<noteq> []"
      "map_of (pedidos s) pid = Some pedido" "\<not> p_atendido pedido" "p_categoria pedido \<noteq> c"
      "procurar niveis c s = Some (chave, p, s1)"
      "itens_de (estoque s) c = []" "s' = s1\<lparr>estoque := estoque_tocar c (estoque s)\<rparr>"
proof (cases "prox_pedido s")
  case None
  with assms show ?thesis by (intro sem_pedido) (simp_all add: iteracao_def)
next
  case (Some pid)
  show ?thesis
  proof (cases "pid = []")
    case True
    with assms Some show ?thesis by (intro sem_pedido) (simp_all add: iteracao_def)
  next
    case ne: False
    from assms Some ne obtain pedido where p: "map_of (pedidos s) pid = Some pedido"
      by (cases "map_of (pedidos s) pid") (auto simp: iteracao_def)
    with assms Some ne have na: "\<not> p_atendido pedido"
      by (auto simp: iteracao_def split: if_splits)
    show ?thesis
    proof (cases "p_categoria pedido = c")
      case True
      from True assms Some ne p na have "alocar E c pid pedido s = Parar s'" by (simp add: iteracao_def)
      then have "itens_de (estoque s) c = []" "s' = s\<lparr>estoque := estoque_tocar c (estoque s)\<rparr>"
        by (simp_all add: alocar_Parar)
      with Some ne p na True show ?thesis by (intro frente [of pid pedido])
    next
      case False
      show ?thesis
      proof (cases "procurar niveis c s")
        case None
        with assms Some ne p na False have "s' = s" by (simp add: iteracao_def)
        with Some ne p na False None show ?thesis by (intro sem_compativel)
      next
        case sr: (Some r)
        obtain found q s1 where r: "r = (found, q, s1)" by (cases r)
        with assms Some ne p na False sr
        have al: "alocar E c found q s1 = Parar s'" by (simp add: iteracao_def)
        from sr r procurar_Some [of niveis c s found q s1] have e: "estoque s1 = estoque s"
          by (auto simp: fila_upd_campos)
        from al have "itens_de (estoque s1) c = []" "s' = s1\<lparr>estoque := estoque_tocar c (estoque s1)\<rparr>"
          by (simp_all add: alocar_Parar)
        with e have "itens_de (estoque s) c = []" "s' = s1\<lparr>estoque := estoque_tocar c (estoque s)\<rparr>"
          by simp_all
        with Some ne p na False sr r show ?thesis by (intro busca [of pid pedido found q s1]) simp_all
      qed
    qed
  qed
qed

lemma procurar_passo:
  "procurar (n # ns) c s =
     (if sem_achado (primeiro_compativel (pedidos s) c (fila n s)) then procurar ns c s
      else (case primeiro_compativel (pedidos s) c (fila n s) of
              Some (found, p) \<Rightarrow> Some (found, p, fila_upd n (rodar_ate found) s)))"
  by (auto simp: sem_achado_def split: option.splits)

lemma ordem_casos:
  "(\<forall>m. ordem m < ordem Alta \<longrightarrow> P m) = True"
  "(\<forall>m. ordem m < ordem Media \<longrightarrow> P m) = P Alta"
  "(\<forall>m. ordem m < ordem Baixa \<longrightarrow> P m) = (P Alta \<and> P Media)"
proof -
  show "(\<forall>m. ordem m < ordem Alta \<longrightarrow> P m) = True" by simp
  show "(\<forall>m. ordem m < ordem Media \<longrightarrow> P m) = P Alta"
  proof
    assume "\<forall>m. ordem m < ordem Media \<longrightarrow> P m"
    then show "P Alta" by (elim allE [of _ Alta]) simp
  next
    assume a: "P Alta"
    show "\<forall>m. ordem m < ordem Media \<longrightarrow> P m"
    proof (intro allI impI)
      fix m assume "ordem m < ordem Media"
      with a show "P m" by (cases m) simp_all
    qed
  qed
  show "(\<forall>m. ordem m < ordem Baixa \<longrightarrow> P m) = (P Alta \<and> P Media)"
  proof
    assume h: "\<forall>m. ordem m < ordem Baixa \<longrightarrow> P m"
    from h [rule_format, of Alta] h [rule_format, of Media] show "P Alta \<and> P Media" by simp
  next
    assume a: "P Alta \<and> P Media"
    show "\<forall>m. ordem m < ordem Baixa \<longrightarrow> P m"
    proof (intro allI impI)
      fix m assume "ordem m < ordem Baixa"
      with a show "P m" by (cases m) simp_all
    qed
  qed
qed

lemma procurar_niveis_Some:
  "procurar niveis c s = Some (found, p, s1) \<longleftrightarrow>
     (\<exists>n. (\<forall>m. ordem m < ordem n \<longrightarrow> sem_achado (primeiro_compativel (pedidos s) c (fila m s)))
        \<and> primeiro_compativel (pedidos s) c (fila n s) = Some (found, p) \<and> found \<noteq> []
        \<and> s1 = fila_upd n (rodar_ate found) s)"
  (is "?l \<longleftrightarrow> (\<exists>n. ?r n)")
proof
  assume l: ?l
  let ?sa = "\<lambda>m. sem_achado (primeiro_compativel (pedidos s) c (fila m s))"
  show "\<exists>n. ?r n"
  proof (cases "?sa Alta")
    case False
    with l have "?r Alta"
      by (simp only: niveis_def procurar_passo ordem_casos)
         (auto simp: sem_achado_def split: option.splits)
    then show ?thesis ..
  next
    case a: True
    show ?thesis
    proof (cases "?sa Media")
      case False
      with l a have "?r Media"
        by (simp only: niveis_def procurar_passo ordem_casos)
           (auto simp: sem_achado_def split: option.splits)
      then show ?thesis ..
    next
      case m: True
      with l a have "?r Baixa"
        by (simp only: niveis_def procurar_passo ordem_casos)
           (auto simp: sem_achado_def split: option.splits if_splits)
      then show ?thesis ..
    qed
  qed
next
  assume "\<exists>n. ?r n"
  then obtain n where r: "?r n" ..
  then have na: "\<not> sem_achado (primeiro_compativel (pedidos s) c (fila n s))"
    by (simp add: sem_achado_def)
  let ?sa = "\<lambda>m. sem_achado (primeiro_compativel (pedidos s) c (fila m s))"
  from r have todos: "\<And>m. ordem m < ordem n \<Longrightarrow> ?sa m" by blast
  show ?l
  proof (cases n)
    case Alta
    with r na show ?thesis by (simp add: niveis_def procurar_passo del: procurar.simps)
  next
    case Media
    with todos [of Alta] have "?sa Alta" by simp
    with Media r na show ?thesis by (simp add: niveis_def procurar_passo del: procurar.simps)
  next
    case Baixa
    with todos [of Alta] todos [of Media] have "?sa Alta" "?sa Media" by simp_all
    with Baixa r na show ?thesis by (simp add: niveis_def procurar_passo del: procurar.simps)
  qed
qed

lemma prox_pedido_Some_iff:
  "prox_pedido s = Some pid \<longleftrightarrow>
     (\<exists>n r. fila n s = pid # r \<and> (\<forall>m. ordem m < ordem n \<longrightarrow> fila m s = []))"
proof
  assume "prox_pedido s = Some pid"
  then obtain n r where "fila n s = pid # r" "\<forall>m. ordem m < ordem n \<longrightarrow> fila m s = []"
    by (rule prox_pedido_frente) blast
  then show "\<exists>n r. fila n s = pid # r \<and> (\<forall>m. ordem m < ordem n \<longrightarrow> fila m s = [])" by blast
next
  assume "\<exists>n r. fila n s = pid # r \<and> (\<forall>m. ordem m < ordem n \<longrightarrow> fila m s = [])"
  then obtain n r where n: "fila n s = pid # r" and v: "\<And>m. ordem m < ordem n \<Longrightarrow> fila m s = []" by blast
  show "prox_pedido s = Some pid"
  proof (cases n)
    case Alta
    with n show ?thesis by (simp add: prox_pedido_def niveis_def)
  next
    case Media
    with v [of Alta] have "fila_alta s = []" by simp
    with Media n show ?thesis by (simp add: prox_pedido_def niveis_def)
  next
    case Baixa
    with v [of Alta] v [of Media] have "fila_alta s = []" "fila_media s = []" by simp_all
    with Baixa n show ?thesis by (simp add: prox_pedido_def niveis_def)
  qed
qed

lemma estoque_tocar_idem: "estoque_tocar c (estoque_tocar c e) = estoque_tocar c e"
  by (simp add: estoque_tocar_def split: option.splits)

lemma itens_de_tocar: "itens_de (estoque_tocar c e) c' = itens_de e c'"
  by (auto simp: estoque_tocar_def itens_de_def split: option.splits if_splits)

lemma primeiro_compativel_frente:
  "map_of ps k = Some p \<Longrightarrow> \<not> p_atendido p \<Longrightarrow> p_categoria p = c \<Longrightarrow>
     primeiro_compativel ps c (k # r) = Some (k, p)"
  by simp

lemma prox_pedido_estoque [simp]: "prox_pedido (s\<lparr>estoque := e\<rparr>) = prox_pedido s"
  by (simp add: prox_pedido_def niveis_def)

lemma fila_estoque [simp]: "fila n (s\<lparr>estoque := e\<rparr>) = fila n s"
  by (cases n) simp_all

lemma fila_upd_estoque: "fila_upd n f (s\<lparr>estoque := e\<rparr>) = (fila_upd n f s)\<lparr>estoque := e\<rparr>"
  by (cases n) simp_all

lemma iteracao_Parar_fixo:
  assumes "iteracao E c s = Parar s'"
  shows "iteracao E c s' = Parar s'"
  using assms
proof (cases rule: iteracao_Parar_casos)
  case sem_pedido
  with assms show ?thesis by simp
next
  case (sem_compativel pid pedido)
  with assms show ?thesis by simp
next
  case (frente chave pedido)
  have "alocar E c chave pedido s' = Parar s'"
    by (simp add: alocar_Parar frente(6,7) itens_de_tocar estoque_tocar_idem)
  with frente show ?thesis by (simp add: iteracao_def)
next
  case (busca pid pedido chave p s1)
  from busca(6) obtain n where
    n: "\<And>m. ordem m < ordem n \<Longrightarrow> sem_achado (primeiro_compativel (pedidos s) c (fila m s))"
      "primeiro_compativel (pedidos s) c (fila n s) = Some (chave, p)" "chave \<noteq> []"
      "s1 = fila_upd n (rodar_ate chave) s"
    unfolding procurar_niveis_Some by blast
  from primeiro_compativel_Some [OF n(2)] have
    k: "chave \<in> set (fila n s)" "map_of (pedidos s) chave = Some p" "\<not> p_atendido p" "p_categoria p = c"
    by simp_all
  from hd_rodar_ate [OF k(1)] obtain r' where r': "rodar_ate chave (fila n s) = chave # r'" ..
  have f': "\<And>m. fila m s' = (if m = n then chave # r' else fila m s)"
    by (simp add: busca(8) n(4) fila_fila_upd r')
  have p': "pedidos s' = pedidos s" "itens_de (estoque s') c = []"
    by (simp_all add: busca(7,8) n(4) fila_upd_campos itens_de_tocar)
  have fixo: "fila_upd n (rodar_ate chave) s' = s'"
    by (rule fila_upd_mesma) (simp add: f' rodar_ate_frente)
  have al: "alocar E c chave p s' = Parar s'"
    by (simp add: alocar_Parar p' busca(7,8) estoque_tocar_idem itens_de_tocar)
  from busca(1) obtain n0 r0 where n0a: "fila n0 s = pid # r0"
    and n0b: "\<forall>m. ordem m < ordem n0 \<longrightarrow> fila m s = []"
    unfolding prox_pedido_Some_iff by blast
  note n0 = n0a n0b [rule_format]
  show ?thesis
  proof (cases "n0 = n")
    case True
    have vazio: "\<And>m. ordem m < ordem n \<Longrightarrow> fila m s' = []"
      subgoal for m using n0(2) [of m] True by (auto simp: f')
      done
    have "prox_pedido s' = Some chave"
      unfolding prox_pedido_Some_iff using f' [of n] vazio by auto
    with k n(3) al show ?thesis by (simp add: iteracao_def p')
  next
    case False
    have nv: "\<And>m. ordem m < ordem n0 \<Longrightarrow> m \<noteq> n"
      subgoal for m using n0(2) [of m] k(1) by auto
      done
    have "fila n0 s' = pid # r0" using False n0(1) by (simp add: f')
    moreover have "\<And>m. ordem m < ordem n0 \<Longrightarrow> fila m s' = []"
      subgoal for m using n0(2) [of m] nv [of m] by (simp add: f')
      done
    ultimately have pp: "prox_pedido s' = Some pid"
      unfolding prox_pedido_Some_iff by blast
    have "procurar niveis c s' = Some (chave, p, fila_upd n (rodar_ate chave) s')"
      unfolding procurar_niveis_Some
    proof (intro exI [of _ n] conjI allI impI)
      fix m assume m: "ordem m < ordem n"
      then have "m \<noteq> n" by auto
      with n(1) [OF m] show "sem_achado (primeiro_compativel (pedidos s') c (fila m s'))"
        by (simp add: f' p')
    next
      show "primeiro_compativel (pedidos s') c (fila n s') = Some (chave, p)"
        using k by (simp add: f' p')
    qed (simp_all add: n(3))
    with fixo have "procurar niveis c s' = Some (chave, p, s')" by simp
    with pp busca(2-5) al show ?thesis by (simp add: iteracao_def p')
  qed
qed

lemma tentar_Parar: "iteracao E c s = Parar s' \<Longrightarrow> tentar_alocar_para_pedidos E c s = s'"
  by (simp add: tentar_alocar_para_pedidos.simps [of E c s])

lemma tentar_idempotente:
  "tentar_alocar_para_pedidos E c (tentar_alocar_para_pedidos E c s) = tentar_alocar_para_pedidos E c s"
proof (rule tentar_invariante [where P = "\<lambda>t. True" and Q = "\<lambda>t. tentar_alocar_para_pedidos E c t = t"])
  show "\<And>t t'. True \<Longrightarrow> iteracao E c t = Parar t' \<Longrightarrow> tentar_alocar_para_pedidos E c t' = t'"
    by (rule tentar_Parar) (rule iteracao_Parar_fixo)
qed simp_all

lemma fila_remover_invalido: "fila n (remover_invalido pid s) = popleft_se pid (fila n s)"
  by (cases n) (simp_all add: remover_invalido_def)

lemma set_popleft_se: "set (popleft_se pid q) \<subseteq> set q"
  by (auto simp: popleft_se_def split: list.splits if_splits)

lemma popleft_se_outro: "k \<in> set q \<Longrightarrow> k \<noteq> pid \<Longrightarrow> k \<in> set (popleft_se pid q)"
  by (cases q) (auto simp: popleft_se_def)

lemma quieto_refl: "quieto c s s"
  by (simp add: quieto_def)

lemma sem_trabalho_Continuar:
  assumes "iteracao E c t = Continuar t'" "sem_trabalho c t"
  obtains pid where "\<not> pendente (pedidos t) pid" "t' = remover_invalido pid t"
  using assms(1)
proof (cases rule: iteracao_efeito_fila)
  case (invalido pid)
  then show ?thesis by (intro that [of pid])
next
  case (alocou n chave pedido item resto s1)
  from alocou(1,4,5,6) have "compativel (pedidos t) c chave" by (simp add: compativel_def)
  with alocou(1) have "existe_compativel c t" unfolding existe_compativel_iff by blast
  moreover from alocou(7) have "itens_de (estoque t) c \<noteq> []" by simp
  ultimately have "existe_compativel c t" "itens_de (estoque t) c \<noteq> []" .
  with assms(2) show ?thesis by (simp add: sem_trabalho_def)
qed

lemma quieto_Continuar:
  assumes "iteracao E c t = Continuar t'" "sem_trabalho c t" "quieto c s t"
  shows "quieto c s t' \<and> sem_trabalho c t'"
proof -
  from assms(1,2) obtain pid where pid: "\<not> pendente (pedidos t) pid" "t' = remover_invalido pid t"
    by (rule sem_trabalho_Continuar)
  have f: "\<And>n. set (fila n t') \<subseteq> set (fila n t)"
    by (simp add: pid(2) fila_remover_invalido set_popleft_se)
  have "quieto c s t'"
    unfolding quieto_def
  proof (intro conjI allI impI)
    fix n k assume a: "k \<in> set (fila n s) \<and> pendente (pedidos s) k"
    with assms(3) have "k \<in> set (fila n t)" "pedidos t = pedidos s" by (auto simp: quieto_def)
    with a pid(1) have "k \<in> set (fila n t)" "k \<noteq> pid" by auto
    then show "k \<in> set (fila n t')" by (simp add: pid(2) fila_remover_invalido popleft_se_outro)
  next
    fix n show "set (fila n t') \<subseteq> set (fila n s)"
      using f [of n] assms(3) by (auto simp: quieto_def)
  qed (use assms(3) in \<open>simp_all add: quieto_def pid(2) remover_invalido_campos\<close>)
  moreover have "sem_trabalho c t'"
    using assms(2) f by (auto simp: sem_trabalho_def existe_compativel_iff pid(2) remover_invalido_campos)
  ultimately show ?thesis ..
qed

lemma quieto_Parar:
  assumes "iteracao E c t = Parar t'" "sem_trabalho c t" "quieto c s t"
  shows "quieto c s t' \<and> sem_trabalho c t'"
  using assms(1)
proof (cases rule: iteracao_Parar_fila)
  case sem_pedido
  with assms show ?thesis by simp
next
  case (sem_compativel pid pedido)
  with assms show ?thesis by simp
next
  case (sem_estoque n chave pedido)
  have f: "\<And>m. set (fila m t') = set (fila m t)"
    by (simp add: sem_estoque(7) fila_fila_upd set_rodar_ate)
  have e: "estoque t' = estoque_tocar c (estoque t)" "pedidos t' = pedidos t"
    "historico_alocacoes t' = historico_alocacoes t" "n_ids t' = n_ids t" "n_relogio t' = n_relogio t"
    by (simp_all add: sem_estoque(7) fila_upd_campos)
  from assms(3) have "estoque t' = estoque_tocar c (estoque s)"
    by (auto simp: quieto_def e estoque_tocar_idem)
  with assms(3) have "quieto c s t'"
    by (simp add: quieto_def e f)
  moreover have "sem_trabalho c t'"
    by (simp add: sem_trabalho_def e itens_de_tocar sem_estoque(6))
  ultimately show ?thesis ..
qed

lemma quieto_tentar:
  assumes "sem_trabalho c s"
  shows "quieto c s (tentar_alocar_para_pedidos E c s) \<and> sem_trabalho c (tentar_alocar_para_pedidos E c s)"
proof (rule tentar_invariante [where P = "\<lambda>t. quieto c s t \<and> sem_trabalho c t"])
  show "quieto c s s \<and> sem_trabalho c s" using assms by (simp add: quieto_refl)
  show "\<And>t t'. quieto c s t \<and> sem_trabalho c t \<Longrightarrow> iteracao E c t = Continuar t' \<Longrightarrow>
      quieto c s t' \<and> sem_trabalho c t'"
    subgoal for t t' by (rule quieto_Continuar [of E c t t' s]) simp_all
    done
  show "\<And>t t'. quieto c s t \<and> sem_trabalho c t \<Longrightarrow> iteracao E c t = Parar t' \<Longrightarrow>
      quieto c s t' \<and> sem_trabalho c t'"
    subgoal for t t' by (rule quieto_Parar [of E c t t' s]) simp_all
    done
qed

lemma estado_dois_pedidos_valor:
  "estado_dois_pedidos =
     \<lparr>estoque = [(''A'', []), (''B'', [])],
      fila_alta = [''xx'', ''x''], fila_media = [], fila_baixa = [],
      pedidos = [(''x'', \<lparr>p_id = ''x'', p_solicitante = ''R1'', p_categoria = ''A'', p_quantidade = 1,
                           p_prioridade = ''alta'', p_data = '''', p_atendido = False\<rparr>),
                 (''xx'', \<lparr>p_id = ''xx'', p_solicitante = ''R2'', p_categoria = ''B'', p_quantidade = 2,
                           p_prioridade = ''alta'', p_data = ''tt'', p_atendido = False\<rparr>)],
      historico_alocacoes = [], n_ids = 2, n_relogio = 4\<rparr>"
  by (simp add: estado_dois_pedidos_def ambiente_exemplo_def avaliar rodar_ate.simps)

lemma tentar_estado_dois_pedidos:
  "tentar_alocar_para_pedidos ambiente_exemplo ''A'' estado_dois_pedidos =
     estado_dois_pedidos\<lparr>fila_alta := [''x'', ''xx'']\<rparr>"
  by (simp add: estado_dois_pedidos_valor avaliar rodar_ate.simps)

section \<open>Which request a donation serves\<close>



lemma inserir_doacao_campos:
  "estoque (inserir_doacao E nome c q s) =
     AList.update c (itens_de (estoque s) c @
        [\<lparr>i_id = novo_id E (n_ids s), i_nome = nome, i_categoria = c, i_quantidade = q,
          i_data = now E (n_relogio s)\<rparr>]) (estoque s)"
  "pedidos (inserir_doacao E nome c q s) = pedidos s"
  "historico_alocacoes (inserir_doacao E nome c q s) = historico_alocacoes s"
  "n_ids (inserir_doacao E nome c q s) = Suc (n_ids s)"
  "n_relogio (inserir_doacao E nome c q s) = Suc (Suc (n_relogio s))"
  "fila n (inserir_doacao E nome c q s) = fila n s"
  "prox_pedido (inserir_doacao E nome c q s) = prox_pedido s"
  by (simp_all add: inserir_doacao_def Let_def log_def prox_pedido_def niveis_def) (cases n; simp)





section \<open>Invariant I2 along a run\<close>

lemma nivel_all: "(\<forall>n. P n) = (P Alta \<and> P Media \<and> P Baixa)"
proof
  assume "\<forall>n. P n" then show "P Alta \<and> P Media \<and> P Baixa" by simp
next
  assume a: "P Alta \<and> P Media \<and> P Baixa"
  show "\<forall>n. P n"
  proof
    fix n from a show "P n" by (cases n) simp_all
  qed
qed

lemma nivel_ex: "(\<exists>n. P n) = (P Alta \<or> P Media \<or> P Baixa)"
  using nivel_all [of "\<lambda>n. \<not> P n"] by blast

lemma set_todas_filas: "k \<in> set (todas_filas s) \<longleftrightarrow> (\<exists>n. k \<in> set (fila n s))"
  by (simp add: todas_filas_def nivel_ex)

lemma distinct_todas_filas:
  "distinct (todas_filas s) \<longleftrightarrow>
     (\<forall>n. distinct (fila n s)) \<and> (\<forall>n m. n \<noteq> m \<longrightarrow> set (fila n s) \<inter> set (fila m s) = {})"
  by (simp add: todas_filas_def nivel_all) blast

lemma fila_unica_iff:
  "fila_unica s \<longleftrightarrow>
     (\<forall>n. distinct (fila n s)) \<and> (\<forall>n m. n \<noteq> m \<longrightarrow> set (fila n s) \<inter> set (fila m s) = {})
     \<and> (\<forall>n. \<forall>k \<in> set (fila n s). pendente (pedidos s) k)"
  unfolding fila_unica_def distinct_todas_filas list_all_iff
  by (auto simp: set_todas_filas)

lemma fila_unica_sub:
  assumes "fila_unica s"
    and "\<And>n. distinct (fila n s) \<Longrightarrow> distinct (fila n t)"
    and "\<And>n. set (fila n t) \<subseteq> set (fila n s)"
    and "\<And>n k. k \<in> set (fila n t) \<Longrightarrow> pendente (pedidos s) k \<Longrightarrow> pendente (pedidos t) k"
  shows "fila_unica t"
  unfolding fila_unica_iff
proof (intro conjI allI impI ballI)
  fix n show "distinct (fila n t)" using assms(1,2) by (simp add: fila_unica_iff)
next
  fix n m :: nivel assume "n \<noteq> m"
  with assms(1) have "set (fila n s) \<inter> set (fila m s) = {}" by (simp add: fila_unica_iff)
  with assms(3) [of n] assms(3) [of m] show "set (fila n t) \<inter> set (fila m t) = {}" by blast
next
  fix n k assume k: "k \<in> set (fila n t)"
  with assms(3) [of n] have "k \<in> set (fila n s)" by blast
  with assms(1) have "pendente (pedidos s) k" by (simp add: fila_unica_iff)
  with k show "pendente (pedidos t) k" by (rule assms(4))
qed

lemma distinct_popleft_se: "distinct q \<Longrightarrow> distinct (popleft_se pid q)"
  by (cases q) (auto simp: popleft_se_def)

lemma fila_remover_da_fila:
  "fila m (remover_da_fila niveis k t) =
     (if k \<in> set (fila Alta t) then (if m = Alta then remove1 k (fila m t) else fila m t)
      else if k \<in> set (fila Media t) then (if m = Media then remove1 k (fila m t) else fila m t)
      else if k \<in> set (fila Baixa t) then (if m = Baixa then remove1 k (fila m t) else fila m t)
      else fila m t)"
proof -
  have tl: "\<And>q. q \<noteq> [] \<Longrightarrow> hd q = k \<Longrightarrow> tl q = remove1 k q"
    subgoal for q by (cases q) simp_all
    done
  have hd: "\<And>q. q \<noteq> [] \<Longrightarrow> hd q = k \<Longrightarrow> k \<in> set q"
    subgoal for q by (cases q) auto
    done
  show ?thesis
    by (cases m) (auto simp: niveis_def fila_fila_upd tl dest: hd)
qed

lemma remover_da_fila_unica:
  assumes "distinct (todas_filas t)"
  shows "set (fila m (remover_da_fila niveis k t)) = set (fila m t) - {k}"
    and "distinct (fila m (remover_da_fila niveis k t))"
proof -
  from assms have d: "\<And>n. distinct (fila n t)"
    and x: "\<And>n m. n \<noteq> m \<Longrightarrow> set (fila n t) \<inter> set (fila m t) = {}"
    by (simp_all add: distinct_todas_filas)
  from x [of Alta Media] x [of Alta Baixa] x [of Media Baixa] d [of m]
  show "set (fila m (remover_da_fila niveis k t)) = set (fila m t) - {k}"
    by (cases m) (auto simp: fila_remover_da_fila)
  from d [of m] show "distinct (fila m (remover_da_fila niveis k t))"
    by (cases m) (auto simp: fila_remover_da_fila)
qed

lemma filas_positivas_iff:
  "filas_positivas s \<longleftrightarrow> (\<forall>n. \<forall>k \<in> set (fila n s). 0 < quantidade_restante (pedidos s) k)"
  unfolding filas_positivas_def list_all_iff by (auto simp: set_todas_filas)

lemma pendente_update:
  "pendente (AList.update k p ps) k' = (if k' = k then \<not> p_atendido p else pendente ps k')"
  by (simp add: pendente_def update_conv')

lemma quantidade_restante_update:
  "quantidade_restante (AList.update k p ps) k' =
     (if k' = k then p_quantidade p else quantidade_restante ps k')"
  by (simp add: quantidade_restante_def update_conv')

lemma fila_rodada:
  "fila m (fila_upd n (rodar_ate k) s) = (if m = n then rodar_ate k (fila n s) else fila m s)"
  by (simp add: fila_fila_upd)

lemma fila_unica_rodada:
  assumes "fila_unica s"
  shows "fila_unica (fila_upd n (rodar_ate k) s)"
  using assms
proof (rule fila_unica_sub)
  show "\<And>m. distinct (fila m s) \<Longrightarrow> distinct (fila m (fila_upd n (rodar_ate k) s))"
    by (auto simp: fila_rodada distinct_rodar_ate)
  show "\<And>m. set (fila m (fila_upd n (rodar_ate k) s)) \<subseteq> set (fila m s)"
    by (simp add: fila_rodada set_rodar_ate)
  show "\<And>m k'. k' \<in> set (fila m (fila_upd n (rodar_ate k) s)) \<Longrightarrow> pendente (pedidos s) k' \<Longrightarrow>
      pendente (pedidos (fila_upd n (rodar_ate k) s)) k'"
    by (simp add: fila_upd_campos)
qed

lemma filas_apos_alocar:
  assumes u: "fila_unica s" and s1: "s1 = fila_upd n (rodar_ate chave) s"
    and f: "\<And>m. fila m s' = (if cond then fila m (remover_da_fila niveis chave s1) else fila m s1)"
  shows "set (fila m s') = (if cond then set (fila m s) - {chave} else set (fila m s))"
    and "distinct (fila m s')"
proof -
  from u have u1: "fila_unica s1" unfolding s1 by (rule fila_unica_rodada)
  then have d1: "distinct (todas_filas s1)" by (simp add: fila_unica_def)
  have st: "\<And>m. set (fila m s1) = set (fila m s)" by (simp add: s1 fila_rodada set_rodar_ate)
  from u1 have ds: "\<And>m. distinct (fila m s1)" by (simp add: fila_unica_iff)
  show "set (fila m s') = (if cond then set (fila m s) - {chave} else set (fila m s))"
    by (simp add: f remover_da_fila_unica(1) [OF d1] st)
  show "distinct (fila m s')"
    by (simp add: f remover_da_fila_unica(2) [OF d1] ds)
qed

lemma inv_Continuar:
  assumes it: "iteracao E c s = Continuar s'" and u: "fila_unica s" and i: "ids_ok E s"
  shows "fila_unica s' \<and> ids_ok E s'"
  using it
proof (cases rule: iteracao_efeito_fila)
  case (invalido pid)
  have "fila_unica s'"
    using u
  proof (rule fila_unica_sub)
    show "\<And>n. distinct (fila n s) \<Longrightarrow> distinct (fila n s')"
      by (simp add: invalido(4) fila_remover_invalido distinct_popleft_se)
    show "\<And>n. set (fila n s') \<subseteq> set (fila n s)"
      by (simp add: invalido(4) fila_remover_invalido set_popleft_se)
    show "\<And>n k. k \<in> set (fila n s') \<Longrightarrow> pendente (pedidos s) k \<Longrightarrow> pendente (pedidos s') k"
      by (simp add: invalido(4) remover_invalido_campos)
  qed
  moreover have "ids_ok E s'"
    using i by (simp add: ids_ok_def invalido(4) remover_invalido_campos)
  ultimately show ?thesis ..
next
  case (alocou n chave pedido item resto s1)
  from i alocou(4) have pid: "p_id pedido = chave" by (simp add: ids_ok_def)
  let ?cond = "p_quantidade pedido \<le> i_quantidade item"
  from alocou(11) pid have f: "\<And>m. fila m s' =
      (if ?cond then fila m (remover_da_fila niveis chave s1) else fila m s1)" by simp
  note fs = filas_apos_alocar [OF u alocou(2) f]
  from u alocou(1) have pc: "pendente (pedidos s) chave" by (auto simp: fila_unica_iff)
  have "fila_unica s'"
    using u
  proof (rule fila_unica_sub)
    show "\<And>m. distinct (fila m s) \<Longrightarrow> distinct (fila m s')" by (simp add: fs(2))
    show "\<And>m. set (fila m s') \<subseteq> set (fila m s)" by (auto simp: fs(1))
    show "\<And>m k. k \<in> set (fila m s') \<Longrightarrow> pendente (pedidos s) k \<Longrightarrow> pendente (pedidos s') k"
      subgoal for m k
        using alocou(5) by (auto simp: fs(1) alocou(10) pendente_update split: if_splits)
      done
  qed
  moreover have "ids_ok E s'"
    unfolding ids_ok_def
  proof (intro allI impI)
    fix k p assume m: "map_of (pedidos s') k = Some p"
    show "p_id p = k \<and> (\<exists>i<n_ids s'. k = novo_id E i)"
    proof (cases "k = chave")
      case True
      with m have "p_id p = p_id pedido" by (auto simp: alocou(10) update_conv' split: if_splits)
      moreover from i alocou(4) obtain j where "j < n_ids s" "chave = novo_id E j"
        by (auto simp: ids_ok_def)
      ultimately show ?thesis using True pid by (auto simp: alocou(12) intro: exI [of _ j])
    next
      case False
      with m have "map_of (pedidos s) k = Some p" by (simp add: alocou(10) update_conv')
      with i obtain j where "p_id p = k" "j < n_ids s" "k = novo_id E j" by (auto simp: ids_ok_def)
      then show ?thesis by (auto simp: alocou(12) intro: exI [of _ j])
    qed
  qed
  ultimately show ?thesis ..
qed

lemma inv_Parar:
  assumes it: "iteracao E c s = Parar s'" and u: "fila_unica s" and i: "ids_ok E s"
  shows "fila_unica s' \<and> ids_ok E s'"
  using it
proof (cases rule: iteracao_Parar_fila)
  case sem_pedido
  with u i show ?thesis by simp
next
  case (sem_compativel pid pedido)
  with u i show ?thesis by simp
next
  case (sem_estoque n chave pedido)
  from u have "fila_unica (fila_upd n (rodar_ate chave) s)" by (rule fila_unica_rodada)
  then have "fila_unica s'"
    by (simp add: sem_estoque(7) fila_unica_def todas_filas_def)
  moreover from i have "ids_ok E s'"
    by (simp add: ids_ok_def sem_estoque(7) fila_upd_campos)
  ultimately show ?thesis ..
qed

lemma inv_tentar:
  assumes "fila_unica s" "ids_ok E s"
  shows "fila_unica (tentar_alocar_para_pedidos E c s) \<and> ids_ok E (tentar_alocar_para_pedidos E c s)"
proof (rule tentar_invariante [where P = "\<lambda>t. fila_unica t \<and> ids_ok E t"])
  show "fila_unica s \<and> ids_ok E s" using assms by simp
  show "\<And>t t'. fila_unica t \<and> ids_ok E t \<Longrightarrow> iteracao E c t = Continuar t' \<Longrightarrow>
      fila_unica t' \<and> ids_ok E t'"
    subgoal for t t' by (rule inv_Continuar [of E c t t']) simp_all
    done
  show "\<And>t t'. fila_unica t \<and> ids_ok E t \<Longrightarrow> iteracao E c t = Parar t' \<Longrightarrow>
      fila_unica t' \<and> ids_ok E t'"
    subgoal for t t' by (rule inv_Parar [of E c t t']) simp_all
    done
qed

lemma pos_Continuar:
  assumes it: "iteracao E c s = Continuar s'" and u: "fila_unica s" and i: "ids_ok E s"
    and p: "positivo s" and fp: "filas_positivas s"
  shows "positivo s' \<and> filas_positivas s'"
  using it
proof (cases rule: iteracao_efeito_fila)
  case (invalido pid)
  have "\<And>n. set (fila n s') \<subseteq> set (fila n s)"
    by (simp add: invalido(4) fila_remover_invalido set_popleft_se)
  with fp have "filas_positivas s'"
    unfolding filas_positivas_iff by (auto simp: invalido(4) remover_invalido_campos)
  moreover from p have "positivo s'" by (simp add: positivo_def invalido(4) remover_invalido_campos)
  ultimately show ?thesis by simp
next
  case (alocou n chave pedido item resto s1)
  from i alocou(4) have pid: "p_id pedido = chave" by (simp add: ids_ok_def)
  let ?cond = "p_quantidade pedido \<le> i_quantidade item"
  from alocou(11) pid have f: "\<And>m. fila m s' =
      (if ?cond then fila m (remover_da_fila niveis chave s1) else fila m s1)" by simp
  note fs = filas_apos_alocar [OF u alocou(2) f]
  from fp alocou(1) have "0 < quantidade_restante (pedidos s) chave"
    unfolding filas_positivas_iff by blast
  with alocou(4) have pq: "0 < p_quantidade pedido" by (simp add: quantidade_restante_def)
  from p have est: "\<And>c' x. x \<in> set (itens_de (estoque s) c') \<Longrightarrow> 0 < i_quantidade x"
    and ped: "\<And>k q. map_of (pedidos s) k = Some q \<Longrightarrow> 0 \<le> p_quantidade q"
    and his: "\<And>a. a \<in> set (historico_alocacoes s) \<Longrightarrow> 0 < a_quantidade a"
    by (auto simp: positivo_def)
  from est [of _ c] alocou(7) have iq: "0 < i_quantidade item" and rq: "\<forall>x \<in> set resto. 0 < i_quantidade x"
    by simp_all
  have "positivo s'"
    unfolding positivo_def
  proof (intro conjI allI impI ballI)
    fix k q assume "map_of (pedidos s') k = Some q"
    with ped [of k q] pq show "0 \<le> p_quantidade q"
      by (auto simp: alocou(10) update_conv' split: if_splits)
  next
    fix c' x assume "x \<in> set (itens_de (estoque s') c')"
    with est [of x c'] iq rq show "0 < i_quantidade x"
      by (auto simp: alocou(9) itens_de_update split: if_splits)
  next
    fix a assume "a \<in> set (historico_alocacoes s')"
    with his [of a] iq pq show "0 < a_quantidade a"
      by (auto simp: alocou(8))
  qed
  moreover have "filas_positivas s'"
    unfolding filas_positivas_iff
  proof (intro allI ballI)
    fix m k assume k: "k \<in> set (fila m s')"
    show "0 < quantidade_restante (pedidos s') k"
    proof (cases "k = chave")
      case True
      with k have "\<not> ?cond" by (auto simp: fs(1) split: if_splits)
      with True show ?thesis by (simp add: alocou(10) quantidade_restante_update)
    next
      case False
      from k have "k \<in> set (fila m s)" by (auto simp: fs(1) split: if_splits)
      with fp False show ?thesis
        by (auto simp: filas_positivas_iff alocou(10) quantidade_restante_update)
    qed
  qed
  ultimately show ?thesis by simp
qed

lemma pos_Parar:
  assumes it: "iteracao E c s = Parar s'" and p: "positivo s" and fp: "filas_positivas s"
  shows "positivo s' \<and> filas_positivas s'"
  using it
proof (cases rule: iteracao_Parar_fila)
  case sem_pedido
  with p fp show ?thesis by simp
next
  case (sem_compativel pid pedido)
  with p fp show ?thesis by simp
next
  case (sem_estoque n chave pedido)
  have "\<And>m. set (fila m s') = set (fila m s)"
    by (simp add: sem_estoque(7) fila_rodada set_rodar_ate)
  with fp have "filas_positivas s'"
    unfolding filas_positivas_iff by (simp add: sem_estoque(7) fila_upd_campos)
  moreover from p have "positivo s'"
    by (simp add: positivo_def sem_estoque(7) fila_upd_campos itens_de_tocar)
  ultimately show ?thesis by simp
qed

lemma inv_pos_tentar:
  assumes "inv_pos E s"
  shows "inv_pos E (tentar_alocar_para_pedidos E c s)"
proof (rule tentar_invariante [where P = "inv_pos E"])
  show "inv_pos E s" by (rule assms)
  show "\<And>t t'. inv_pos E t \<Longrightarrow> iteracao E c t = Continuar t' \<Longrightarrow> inv_pos E t'"
    subgoal for t t'
      using inv_Continuar [of E c t t'] pos_Continuar [of E c t t'] by (simp add: inv_pos_def)
    done
  show "\<And>t t'. inv_pos E t \<Longrightarrow> iteracao E c t = Parar t' \<Longrightarrow> inv_pos E t'"
    subgoal for t t'
      using inv_Parar [of E c t t'] pos_Parar [of E c t t'] by (simp add: inv_pos_def)
    done
qed

lemma id_novo_fora:
  assumes "inj (novo_id E)" "fila_unica s" "ids_ok E s"
  shows "novo_id E (n_ids s) \<notin> set (fila n s)"
proof
  assume "novo_id E (n_ids s) \<in> set (fila n s)"
  with assms(2) have "pendente (pedidos s) (novo_id E (n_ids s))" by (auto simp: fila_unica_iff)
  then obtain p where "map_of (pedidos s) (novo_id E (n_ids s)) = Some p"
    by (auto simp: pendente_def split: option.splits)
  with assms(3) obtain i where "i < n_ids s" "novo_id E (n_ids s) = novo_id E i"
    by (auto simp: ids_ok_def)
  with assms(1) show False by (auto dest: injD)
qed

lemma inv_inserir_pedido:
  assumes j: "inj (novo_id E)" and u: "fila_unica s" and i: "ids_ok E s"
  shows "fila_unica (inserir_pedido E sol c q prio s) \<and> ids_ok E (inserir_pedido E sol c q prio s)"
proof -
  let ?k = "novo_id E (n_ids s)"
  let ?t = "inserir_pedido E sol c q prio s"
  note fora = id_novo_fora [OF j u i]
  from u have d: "\<And>n. distinct (fila n s)"
    and x: "\<And>n m. n \<noteq> m \<Longrightarrow> set (fila n s) \<inter> set (fila m s) = {}"
    and pe: "\<And>n k. k \<in> set (fila n s) \<Longrightarrow> pendente (pedidos s) k"
    by (auto simp: fila_unica_iff)
  have "fila_unica ?t"
    unfolding fila_unica_iff
  proof (intro conjI allI impI ballI)
    fix n show "distinct (fila n ?t)" using d [of n] fora [of n] by (auto simp: inserir_pedido_campos)
  next
    fix n m :: nivel assume "n \<noteq> m"
    with x [of n m] fora [of n] fora [of m] show "set (fila n ?t) \<inter> set (fila m ?t) = {}"
      by (auto simp: inserir_pedido_campos)
  next
    fix n k assume "k \<in> set (fila n ?t)"
    then have "k = ?k \<or> k \<in> set (fila n s)" by (auto simp: inserir_pedido_campos split: if_splits)
    with pe [of k n] show "pendente (pedidos ?t) k"
      by (auto simp: inserir_pedido_campos pendente_update)
  qed
  moreover have "ids_ok E ?t"
    unfolding ids_ok_def
  proof (intro allI impI)
    fix k p assume m: "map_of (pedidos ?t) k = Some p"
    show "p_id p = k \<and> (\<exists>i<n_ids ?t. k = novo_id E i)"
    proof (cases "k = ?k")
      case True
      with m show ?thesis
        by (auto simp: inserir_pedido_campos update_conv' intro: exI [of _ "n_ids s"])
    next
      case False
      with m have "map_of (pedidos s) k = Some p" by (simp add: inserir_pedido_campos update_conv')
      with i obtain j where "p_id p = k" "j < n_ids s" "k = novo_id E j" by (auto simp: ids_ok_def)
      then show ?thesis by (auto simp: inserir_pedido_campos intro: exI [of _ j])
    qed
  qed
  ultimately show ?thesis ..
qed

lemma pos_inserir_pedido:
  assumes "0 < q" "positivo s" "filas_positivas s"
  shows "positivo (inserir_pedido E sol c q prio s) \<and> filas_positivas (inserir_pedido E sol c q prio s)"
proof -
  let ?t = "inserir_pedido E sol c q prio s"
  have "positivo ?t"
    using assms(1,2) by (auto simp: positivo_def inserir_pedido_campos update_conv' split: if_splits)
  moreover have "filas_positivas ?t"
    unfolding filas_positivas_iff
  proof (intro allI ballI)
    fix n k assume "k \<in> set (fila n ?t)"
    then have "k = novo_id E (n_ids s) \<or> k \<in> set (fila n s)"
      by (auto simp: inserir_pedido_campos split: if_splits)
    with assms(1,3) show "0 < quantidade_restante (pedidos ?t) k"
      by (auto simp: filas_positivas_iff inserir_pedido_campos quantidade_restante_update)
  qed
  ultimately show ?thesis ..
qed

lemma inv_inserir_doacao:
  assumes u: "fila_unica s" and i: "ids_ok E s"
  shows "fila_unica (inserir_doacao E nome c q s) \<and> ids_ok E (inserir_doacao E nome c q s)"
proof -
  from u have "fila_unica (inserir_doacao E nome c q s)"
    by (simp add: fila_unica_iff inserir_doacao_campos)
  moreover have "ids_ok E (inserir_doacao E nome c q s)"
    unfolding ids_ok_def
  proof (intro allI impI)
    fix k p assume "map_of (pedidos (inserir_doacao E nome c q s)) k = Some p"
    then have "map_of (pedidos s) k = Some p" by (simp add: inserir_doacao_campos)
    with i obtain j where "p_id p = k" "j < n_ids s" "k = novo_id E j" by (auto simp: ids_ok_def)
    then show "p_id p = k \<and> (\<exists>i<n_ids (inserir_doacao E nome c q s). k = novo_id E i)"
      by (auto simp: inserir_doacao_campos intro: exI [of _ j])
  qed
  ultimately show ?thesis ..
qed

lemma pos_inserir_doacao:
  assumes "0 < q" "positivo s" "filas_positivas s"
  shows "positivo (inserir_doacao E nome c q s) \<and> filas_positivas (inserir_doacao E nome c q s)"
proof -
  from assms(1,2) have "positivo (inserir_doacao E nome c q s)"
    by (auto simp: positivo_def inserir_doacao_campos itens_de_update split: if_splits)
  moreover from assms(3) have "filas_positivas (inserir_doacao E nome c q s)"
    by (simp add: filas_positivas_iff inserir_doacao_campos)
  ultimately show ?thesis ..
qed

lemma desfazer_vazio:
  "historico_alocacoes s = [] \<Longrightarrow> snd (desfazer_ultima_alocacao E s) = log s"
  by (simp add: desfazer_ultima_alocacao_def)

lemma fila_log [simp]: "fila n (log s) = fila n s"
  by (cases n) (simp_all add: log_def)

lemma fila_outros_campos:
  "fila n (s\<lparr>historico_alocacoes := h\<rparr>) = fila n s"
  "fila n (s\<lparr>n_relogio := r\<rparr>) = fila n s"
  "fila n (s\<lparr>pedidos := ps\<rparr>) = fila n s"
  "fila n (s\<lparr>estoque := e\<rparr>) = fila n s"
  by (cases n; simp)+

lemma desfazer_campos:
  assumes "historico_alocacoes s \<noteq> []"
  shows "historico_alocacoes (snd (desfazer_ultima_alocacao E s)) = butlast (historico_alocacoes s)"
    and "n_ids (snd (desfazer_ultima_alocacao E s)) = n_ids s"
    and "pedidos (snd (desfazer_ultima_alocacao E s)) =
      (case map_of (pedidos s) (a_pedido_id (last (historico_alocacoes s))) of
         None \<Rightarrow> pedidos s
       | Some p \<Rightarrow> AList.update (a_pedido_id (last (historico_alocacoes s)))
            (p\<lparr>p_atendido := False,
               p_quantidade := p_quantidade p + a_quantidade (last (historico_alocacoes s))\<rparr>) (pedidos s))"
    and "estoque (snd (desfazer_ultima_alocacao E s)) =
      AList.update ''Desconhecido''
        (itens_de (estoque s) ''Desconhecido'' @
          [\<lparr>i_id = a_item_id (last (historico_alocacoes s)),
            i_nome = ''Item_recuperado_'' @ a_item_id (last (historico_alocacoes s)),
            i_categoria = ''Desconhecido'', i_quantidade = a_quantidade (last (historico_alocacoes s)),
            i_data = now E (n_relogio s)\<rparr>]) (estoque s)"
  using assms
  by (simp_all add: desfazer_ultima_alocacao_def Let_def log_def fila_upd_campos
      split: option.splits)

lemma desfazer_fila:
  assumes "historico_alocacoes s \<noteq> []"
  shows "fila n (snd (desfazer_ultima_alocacao E s)) =
      (case map_of (pedidos s) (a_pedido_id (last (historico_alocacoes s))) of
         None \<Rightarrow> fila n s
       | Some p \<Rightarrow> if p_atendido p \<and> n = nivel_de (p_prioridade p) then p_id p # fila n s else fila n s)"
  using assms
  by (simp add: desfazer_ultima_alocacao_def Let_def log_def fila_outros_campos fila_fila_upd
      split: option.splits)

lemma inv_desfazer:
  assumes u: "fila_unica s" and i: "ids_ok E s"
  shows "fila_unica (snd (desfazer_ultima_alocacao E s)) \<and> ids_ok E (snd (desfazer_ultima_alocacao E s))"
proof (cases "historico_alocacoes s = []")
  case True
  from u have "fila_unica (log s)" by (simp add: fila_unica_iff) (simp add: log_def)
  moreover from i have "ids_ok E (log s)" by (simp add: ids_ok_def log_def)
  ultimately show ?thesis using True by (simp add: desfazer_vazio)
next
  case False
  let ?t = "snd (desfazer_ultima_alocacao E s)"
  let ?a = "last (historico_alocacoes s)"
  note dc = desfazer_campos [OF False, where E = E]
  note df = desfazer_fila [OF False, where E = E]
  from u have d: "\<And>n. distinct (fila n s)"
    and x: "\<And>n m. n \<noteq> m \<Longrightarrow> set (fila n s) \<inter> set (fila m s) = {}"
    and pe: "\<And>n k. k \<in> set (fila n s) \<Longrightarrow> pendente (pedidos s) k"
    by (auto simp: fila_unica_iff)
  show ?thesis
  proof (cases "map_of (pedidos s) (a_pedido_id ?a)")
    case None
    with u i show ?thesis by (simp add: fila_unica_iff ids_ok_def dc df)
  next
    case (Some p)
    with i have pid: "p_id p = a_pedido_id ?a" by (simp add: ids_ok_def)
    let ?k = "a_pedido_id ?a"
    have pt: "pedidos ?t = AList.update ?k
        (p\<lparr>p_atendido := False, p_quantidade := p_quantidade p + a_quantidade ?a\<rparr>) (pedidos s)"
      by (simp add: dc(3) Some)
    have ft: "\<And>n. fila n ?t =
        (if p_atendido p \<and> n = nivel_de (p_prioridade p) then ?k # fila n s else fila n s)"
      by (simp add: df Some pid)
    have fora: "p_atendido p \<Longrightarrow> ?k \<notin> set (fila n s)" for n
      using pe [of ?k n] Some by (auto simp: pendente_def)
    have "fila_unica ?t"
      unfolding fila_unica_iff
    proof (intro conjI allI impI ballI)
      fix n show "distinct (fila n ?t)" using d [of n] fora [of n] by (auto simp: ft)
    next
      fix n m :: nivel assume "n \<noteq> m"
      with x [of n m] fora [of n] fora [of m] show "set (fila n ?t) \<inter> set (fila m ?t) = {}"
        by (auto simp: ft)
    next
      fix n k assume "k \<in> set (fila n ?t)"
      then have "k = ?k \<or> k \<in> set (fila n s)" by (auto simp: ft split: if_splits)
      with pe [of k n] show "pendente (pedidos ?t) k" by (auto simp: pt pendente_update)
    qed
    moreover have "ids_ok E ?t"
      unfolding ids_ok_def
    proof (intro allI impI)
      fix k q assume m: "map_of (pedidos ?t) k = Some q"
      show "p_id q = k \<and> (\<exists>i<n_ids ?t. k = novo_id E i)"
      proof (cases "k = ?k")
        case True
        with m have "p_id q = p_id p" by (auto simp: pt update_conv')
        moreover from i Some obtain j where "j < n_ids s" "?k = novo_id E j"
          by (auto simp: ids_ok_def)
        ultimately show ?thesis using True pid by (auto simp: dc(2) intro: exI [of _ j])
      next
        case False
        with m have "map_of (pedidos s) k = Some q" by (simp add: pt update_conv')
        with i obtain j where "p_id q = k" "j < n_ids s" "k = novo_id E j" by (auto simp: ids_ok_def)
        then show ?thesis by (auto simp: dc(2) intro: exI [of _ j])
      qed
    qed
    ultimately show ?thesis ..
  qed
qed

lemma pos_desfazer:
  assumes i: "ids_ok E s" and p: "positivo s" and fp: "filas_positivas s"
  shows "positivo (snd (desfazer_ultima_alocacao E s)) \<and> filas_positivas (snd (desfazer_ultima_alocacao E s))"
proof (cases "historico_alocacoes s = []")
  case True
  from p have "positivo (log s)" by (simp add: positivo_def log_def)
  moreover from fp have "filas_positivas (log s)"
    by (simp add: filas_positivas_iff) (simp add: log_def)
  ultimately show ?thesis using True by (simp add: desfazer_vazio)
next
  case False
  let ?t = "snd (desfazer_ultima_alocacao E s)"
  let ?a = "last (historico_alocacoes s)"
  let ?k = "a_pedido_id ?a"
  note dc = desfazer_campos [OF False, where E = E]
  note df = desfazer_fila [OF False, where E = E]
  from p have est: "\<And>c' x. x \<in> set (itens_de (estoque s) c') \<Longrightarrow> 0 < i_quantidade x"
    and ped: "\<And>k q. map_of (pedidos s) k = Some q \<Longrightarrow> 0 \<le> p_quantidade q"
    and his: "\<And>a. a \<in> set (historico_alocacoes s) \<Longrightarrow> 0 < a_quantidade a"
    by (auto simp: positivo_def)
  from fp have fq: "\<And>n k. k \<in> set (fila n s) \<Longrightarrow> 0 < quantidade_restante (pedidos s) k"
    by (auto simp: filas_positivas_iff)
  from False his [of ?a] have aq: "0 < a_quantidade ?a" by simp
  have "positivo ?t"
    unfolding positivo_def
  proof (intro conjI allI impI ballI)
    fix k q assume m: "map_of (pedidos ?t) k = Some q"
    show "0 \<le> p_quantidade q"
    proof (cases "map_of (pedidos s) ?k")
      case None
      with m ped [of k q] show ?thesis by (simp add: dc(3))
    next
      case (Some r)
      with m ped [of k q] ped [OF Some] aq show ?thesis
        by (auto simp: dc(3) update_conv' split: if_splits)
    qed
  next
    fix c' x assume "x \<in> set (itens_de (estoque ?t) c')"
    with est [of x c'] aq show "0 < i_quantidade x"
      by (auto simp: dc(4) itens_de_update split: if_splits)
  next
    fix a assume "a \<in> set (historico_alocacoes ?t)"
    then have "a \<in> set (historico_alocacoes s)" by (auto simp: dc(1) dest: in_set_butlastD)
    then show "0 < a_quantidade a" by (rule his)
  qed
  moreover have "filas_positivas ?t"
    unfolding filas_positivas_iff
  proof (intro allI ballI)
    fix n k assume k: "k \<in> set (fila n ?t)"
    show "0 < quantidade_restante (pedidos ?t) k"
    proof (cases "map_of (pedidos s) ?k")
      case None
      with k fq [of k n] show ?thesis by (simp add: dc(3) df)
    next
      case (Some r)
      with i have pid: "p_id r = ?k" by (simp add: ids_ok_def)
      from k Some pid have kk: "k = ?k \<or> k \<in> set (fila n s)"
        by (auto simp: df split: if_splits)
      show ?thesis
      proof (cases "k = ?k")
        case True
        with ped [OF Some] aq show ?thesis
          by (simp add: dc(3) Some quantidade_restante_update)
      next
        case False
        with kk have "k \<in> set (fila n s)" by simp
        with fq [of k n] False show ?thesis
          by (simp add: dc(3) Some quantidade_restante_update)
      qed
    qed
  qed
  ultimately show ?thesis ..
qed

lemma inv_executar:
  assumes "inj (novo_id E)" "fila_unica s \<and> ids_ok E s"
  shows "fila_unica (executar E s x) \<and> ids_ok E (executar E s x)"
proof (cases x)
  case (Doar nome c q d)
  from assms(2) have "fila_unica (inserir_doacao E nome c q s) \<and> ids_ok E (inserir_doacao E nome c q s)"
    by (intro inv_inserir_doacao) simp_all
  then show ?thesis
    unfolding Doar executar.simps registrar_doacao_def by (intro inv_tentar) simp_all
next
  case (Pedir sol c q prio)
  from assms have "fila_unica (inserir_pedido E sol c q prio s) \<and> ids_ok E (inserir_pedido E sol c q prio s)"
    by (intro inv_inserir_pedido) simp_all
  then show ?thesis
    unfolding Pedir executar.simps cadastrar_pedido_def by (intro inv_tentar) simp_all
next
  case Desfazer
  from assms(2) show ?thesis
    unfolding Desfazer executar.simps by (intro inv_desfazer) simp_all
qed

lemma inv_pos_executar:
  assumes "inj (novo_id E)" "inv_pos E s" "quantidade_positiva x"
  shows "inv_pos E (executar E s x)"
proof (cases x)
  case (Doar nome c q d)
  with assms(3) have q: "0 < q" by simp
  from assms(2) have "inv_pos E (inserir_doacao E nome c q s)"
    using inv_inserir_doacao [where s = s and E = E and nome = nome and c = c and q = q]
      pos_inserir_doacao [OF q, where s = s and E = E and nome = nome and c = c]
    by (simp add: inv_pos_def)
  then show ?thesis
    unfolding Doar executar.simps registrar_doacao_def by (rule inv_pos_tentar)
next
  case (Pedir sol c q prio)
  with assms(3) have q: "0 < q" by simp
  from assms(1,2) have "inv_pos E (inserir_pedido E sol c q prio s)"
    using inv_inserir_pedido [where s = s and E = E and sol = sol and c = c and q = q and prio = prio]
      pos_inserir_pedido [OF q, where s = s and E = E and sol = sol and c = c and prio = prio]
    by (simp add: inv_pos_def)
  then show ?thesis
    unfolding Pedir executar.simps cadastrar_pedido_def by (rule inv_pos_tentar)
next
  case Desfazer
  from assms(2) show ?thesis
    unfolding Desfazer executar.simps
    using inv_desfazer [where s = s and E = E] pos_desfazer [where s = s and E = E]
    by (simp add: inv_pos_def)
qed

lemma inv_executar_todas:
  assumes "inj (novo_id E)" "fila_unica s \<and> ids_ok E s"
  shows "fila_unica (executar_todas E ops s) \<and> ids_ok E (executar_todas E ops s)"
  using assms(2) unfolding executar_todas_def
proof (induction ops arbitrary: s)
  case Nil
  then show ?case by simp
next
  case (Cons x ops)
  from assms(1) Cons.prems have "fila_unica (executar E s x) \<and> ids_ok E (executar E s x)"
    by (rule inv_executar)
  then show ?case by (simp add: Cons.IH)
qed

lemma inv_pos_executar_todas:
  assumes "inj (novo_id E)" "inv_pos E s" "list_all quantidade_positiva ops"
  shows "inv_pos E (executar_todas E ops s)"
  using assms(2,3) unfolding executar_todas_def
proof (induction ops arbitrary: s)
  case Nil
  then show ?case by simp
next
  case (Cons x ops)
  from Cons.prems have "inv_pos E (executar E s x)"
    by (intro inv_pos_executar assms(1)) simp_all
  with Cons.prems show ?case by (simp add: Cons.IH)
qed

lemma inv_pos_vazio: "inv_pos E sistema_vazio"
  by (simp add: inv_pos_def fila_unica_def ids_ok_def positivo_def filas_positivas_def
      todas_filas_def sistema_vazio_def itens_de_def)

lemma ambiente_exemplo_inj: "inj (novo_id ambiente_exemplo)"
proof (rule injI)
  fix x y assume "novo_id ambiente_exemplo x = novo_id ambiente_exemplo y"
  then have "length (replicate (Suc x) (CHR ''x'')) = length (replicate (Suc y) (CHR ''x''))"
    by (simp add: ambiente_exemplo_def)
  then show "x = y" by simp
qed

subsection \<open>The supply of the category along the loop\<close>

lemma oferta_diminui:
  assumes v: "inv_pos E s" and it: "iteracao E c s = Continuar s'"
  shows "quantidade_disponivel s' c < quantidade_disponivel s c"
  using it
proof (cases rule: iteracao_efeito_fila)
  case (invalido pid)
  from invalido(1) obtain n r where "fila n s = pid # r" by (rule prox_pedido_frente)
  then have "pid \<in> set (fila n s)" by simp
  with v have "pendente (pedidos s) pid" by (auto simp: inv_pos_def fila_unica_iff)
  with invalido(3) show ?thesis by simp
next
  case (alocou n chave pedido item resto s1)
  from v alocou(1) have "0 < quantidade_restante (pedidos s) chave"
    unfolding inv_pos_def filas_positivas_iff by blast
  with alocou(4) have pq: "0 < p_quantidade pedido" by (simp add: quantidade_restante_def)
  from v have "\<forall>x \<in> set (itens_de (estoque s) c). 0 < i_quantidade x"
    by (simp add: inv_pos_def positivo_def)
  with alocou(7) have iq: "0 < i_quantidade item" by simp
  from pq iq show ?thesis
    by (simp add: quantidade_disponivel_def alocou(7,9) itens_de_update)
qed

lemma inv_pos_estado_exemplo: "inv_pos ambiente_exemplo estado_exemplo"
proof -
  have "inv_pos ambiente_exemplo (inserir_doacao ambiente_exemplo ''A'' ''cat'' 10 sistema_vazio)"
    using inv_inserir_doacao [where s = sistema_vazio and E = ambiente_exemplo and nome = "''A''"
        and c = "''cat''" and q = 10]
      pos_inserir_doacao [where s = sistema_vazio and E = ambiente_exemplo and nome = "''A''"
        and c = "''cat''" and q = 10]
      inv_pos_vazio [where E = ambiente_exemplo]
    by (simp add: inv_pos_def)
  then show ?thesis
    unfolding estado_exemplo_def
    using inv_inserir_pedido [OF ambiente_exemplo_inj,
        where s = "inserir_doacao ambiente_exemplo ''A'' ''cat'' 10 sistema_vazio"
        and sol = "''R''" and c = "''cat''" and q = 4 and prio = "''alta''"]
      pos_inserir_pedido [where s = "inserir_doacao ambiente_exemplo ''A'' ''cat'' 10 sistema_vazio"
        and E = ambiente_exemplo and sol = "''R''" and c = "''cat''" and q = 4 and prio = "''alta''"]
    by (simp add: inv_pos_def)
qed

subsection \<open>Conservation in one category along a run without undo\<close>

lemma alocado_de_append:
  "alocado_de D (h @ [a]) = alocado_de D h + (if a_item_id a \<in> set D then a_quantidade a else 0)"
  by (induction h) simp_all

lemma alocado_de_novo:
  "\<forall>a \<in> set h. a_item_id a \<noteq> x \<Longrightarrow> alocado_de (D @ [x]) h = alocado_de D h"
  by (induction h) simp_all

lemma emitidos_mono: "n_ids s \<le> n_ids s' \<Longrightarrow> emitidos E s \<subseteq> emitidos E s'"
  by (auto simp: emitidos_def)

lemma inv_catI:
  assumes "\<And>x. x \<in> set (itens_de (estoque s) c) \<Longrightarrow> i_id x \<in> set D"
    and "\<And>c' x. c' \<noteq> c \<Longrightarrow> x \<in> set (itens_de (estoque s) c') \<Longrightarrow> i_id x \<notin> set D"
    and "set D \<subseteq> emitidos E s"
    and "\<And>c' x. x \<in> set (itens_de (estoque s) c') \<Longrightarrow> i_id x \<in> emitidos E s"
    and "\<And>a. a \<in> set (historico_alocacoes s) \<Longrightarrow> a_item_id a \<in> emitidos E s"
    and "quantidade_disponivel s c + alocado_de D (historico_alocacoes s) = T"
  shows "inv_cat E c D T s"
  using assms unfolding inv_cat_def by blast

lemma inv_catD:
  assumes "inv_cat E c D T s"
  shows "\<And>x. x \<in> set (itens_de (estoque s) c) \<Longrightarrow> i_id x \<in> set D"
    and "\<And>c' x. c' \<noteq> c \<Longrightarrow> x \<in> set (itens_de (estoque s) c') \<Longrightarrow> i_id x \<notin> set D"
    and "set D \<subseteq> emitidos E s"
    and "\<And>c' x. x \<in> set (itens_de (estoque s) c') \<Longrightarrow> i_id x \<in> emitidos E s"
    and "\<And>a. a \<in> set (historico_alocacoes s) \<Longrightarrow> a_item_id a \<in> emitidos E s"
    and "quantidade_disponivel s c + alocado_de D (historico_alocacoes s) = T"
  using assms unfolding inv_cat_def by blast+

lemma inv_cat_Continuar:
  assumes v: "inv_cat E c D T s" and it: "iteracao E c0 s = Continuar s'"
  shows "inv_cat E c D T s'"
  using it
proof (cases rule: iteracao_efeito_fila)
  case (invalido pid)
  with v show ?thesis
    by (simp add: inv_cat_def emitidos_def quantidade_disponivel_def remover_invalido_campos)
next
  case (alocou n chave pedido item resto s1)
  note d = inv_catD [OF v]
  let ?l = "if i_quantidade item \<le> p_quantidade pedido then resto
            else item\<lparr>i_quantidade := i_quantidade item - p_quantidade pedido\<rparr> # resto"
  have ids: "i_id ` set ?l \<subseteq> i_id ` set (item # resto)" by auto
  have it': "\<And>c'. itens_de (estoque s') c' = (if c' = c0 then ?l else itens_de (estoque s) c')"
    by (simp add: alocou(9) itens_de_update)
  have sub: "\<And>c' x. x \<in> set (itens_de (estoque s') c') \<Longrightarrow>
      \<exists>y \<in> set (itens_de (estoque s) c'). i_id y = i_id x"
    subgoal for c' x
      using ids by (cases "c' = c0") (auto simp: it' alocou(7) split: if_splits)
    done
  have em: "emitidos E s \<subseteq> emitidos E s'" by (rule emitidos_mono) (simp add: alocou(12))
  have item: "item \<in> set (itens_de (estoque s) c0)" by (simp add: alocou(7))
  show ?thesis
  proof (rule inv_catI)
    fix x assume "x \<in> set (itens_de (estoque s') c)"
    with sub [of x c] d(1) show "i_id x \<in> set D" by force
  next
    fix c' x assume "c' \<noteq> c" "x \<in> set (itens_de (estoque s') c')"
    with sub [of x c'] d(2) [of c'] show "i_id x \<notin> set D" by force
  next
    from d(3) em show "set D \<subseteq> emitidos E s'" by blast
  next
    fix c' x assume "x \<in> set (itens_de (estoque s') c')"
    with sub [of x c'] d(4) [of _ c'] em show "i_id x \<in> emitidos E s'" by force
  next
    fix a assume "a \<in> set (historico_alocacoes s')"
    with d(5) [of a] d(4) [OF item] em show "a_item_id a \<in> emitidos E s'"
      by (auto simp: alocou(8))
  next
    show "quantidade_disponivel s' c + alocado_de D (historico_alocacoes s') = T"
    proof (cases "c0 = c")
      case True
      with d(1) [of item] item have "i_id item \<in> set D" by simp
      moreover from alocou(7) True have "itens_de (estoque s) c = item # resto" by simp
      ultimately show ?thesis
        using d(6) True
        by (auto simp: quantidade_disponivel_def it' alocou(8) alocado_de_append)
    next
      case False
      with d(2) [of c0 item] item have "i_id item \<notin> set D" by simp
      with d(6) False show ?thesis
        by (simp add: quantidade_disponivel_def it' alocou(8) alocado_de_append)
    qed
  qed
qed

lemma inv_cat_Parar:
  assumes v: "inv_cat E c D T s" and it: "iteracao E c0 s = Parar s'"
  shows "inv_cat E c D T s'"
  using it
proof (cases rule: iteracao_Parar_fila)
  case sem_pedido
  with v show ?thesis by simp
next
  case (sem_compativel pid pedido)
  with v show ?thesis by simp
next
  case (sem_estoque n chave pedido)
  with v show ?thesis
    by (simp add: inv_cat_def emitidos_def quantidade_disponivel_def fila_upd_campos itens_de_tocar)
qed

lemma inv_cat_tentar:
  assumes "inv_cat E c D T s"
  shows "inv_cat E c D T (tentar_alocar_para_pedidos E c0 s)"
proof (rule tentar_invariante [where P = "inv_cat E c D T"])
  show "inv_cat E c D T s" by (rule assms)
  show "\<And>t t'. inv_cat E c D T t \<Longrightarrow> iteracao E c0 t = Continuar t' \<Longrightarrow> inv_cat E c D T t'"
    by (rule inv_cat_Continuar)
  show "\<And>t t'. inv_cat E c D T t \<Longrightarrow> iteracao E c0 t = Parar t' \<Longrightarrow> inv_cat E c D T t'"
    by (rule inv_cat_Parar)
qed

lemma novo_fora_emitidos: "inj (novo_id E) \<Longrightarrow> novo_id E (n_ids s) \<notin> emitidos E s"
  by (auto simp: emitidos_def dest: injD)

lemma inv_cat_inserir_pedido:
  assumes v: "inv_cat E c D T s"
  shows "inv_cat E c D T (inserir_pedido E sol c0 q prio s)"
proof -
  have em: "emitidos E s \<subseteq> emitidos E (inserir_pedido E sol c0 q prio s)"
    by (rule emitidos_mono) (simp add: inserir_pedido_campos)
  note d = inv_catD [OF v]
  show ?thesis
  proof (rule inv_catI)
    from d(3) em show "set D \<subseteq> emitidos E (inserir_pedido E sol c0 q prio s)" by blast
  next
    fix c' x assume "x \<in> set (itens_de (estoque (inserir_pedido E sol c0 q prio s)) c')"
    with d(4) [of x c'] em show "i_id x \<in> emitidos E (inserir_pedido E sol c0 q prio s)"
      by (auto simp: inserir_pedido_campos)
  next
    fix a assume "a \<in> set (historico_alocacoes (inserir_pedido E sol c0 q prio s))"
    with d(5) [of a] em show "a_item_id a \<in> emitidos E (inserir_pedido E sol c0 q prio s)"
      by (auto simp: inserir_pedido_campos)
  qed (use d in \<open>simp_all add: inserir_pedido_campos quantidade_disponivel_def\<close>)
qed

lemma inv_cat_inserir_doacao:
  assumes j: "inj (novo_id E)" and v: "inv_cat E c D T s"
  shows "inv_cat E c (D @ (if c0 = c then [novo_id E (n_ids s)] else []))
           (T + (if c0 = c then q else 0)) (inserir_doacao E nome c0 q s)"
proof -
  let ?t = "inserir_doacao E nome c0 q s"
  let ?x = "novo_id E (n_ids s)"
  let ?item = "\<lparr>i_id = ?x, i_nome = nome, i_categoria = c0, i_quantidade = q, i_data = now E (n_relogio s)\<rparr>"
  have em: "emitidos E s \<subseteq> emitidos E ?t"
    by (rule emitidos_mono) (simp add: inserir_doacao_campos)
  have xin: "?x \<in> emitidos E ?t" by (simp add: emitidos_def inserir_doacao_campos)
  from j have xout: "?x \<notin> emitidos E s" by (rule novo_fora_emitidos)
  note d = inv_catD [OF v]
  have it': "\<And>c'. itens_de (estoque ?t) c' =
      (if c' = c0 then itens_de (estoque s) c0 @ [?item] else itens_de (estoque s) c')"
    by (simp add: inserir_doacao_campos itens_de_update)
  have h: "historico_alocacoes ?t = historico_alocacoes s" by (simp add: inserir_doacao_campos)
  have hx: "\<forall>a \<in> set (historico_alocacoes s). a_item_id a \<noteq> ?x"
  proof
    fix a assume "a \<in> set (historico_alocacoes s)"
    from d(5) [OF this] xout show "a_item_id a \<noteq> ?x" by auto
  qed
  show ?thesis
  proof (cases "c0 = c")
    case True
    have "inv_cat E c (D @ [?x]) (T + q) ?t"
    proof (rule inv_catI)
      fix x assume "x \<in> set (itens_de (estoque ?t) c)"
      with d(1) [of x] True show "i_id x \<in> set (D @ [?x])"
        using it' [of c] by auto
    next
      fix c' x assume "c' \<noteq> c" "x \<in> set (itens_de (estoque ?t) c')"
      with d(2) [of c' x] d(4) [of x c'] xout True show "i_id x \<notin> set (D @ [?x])"
        using it' [of c'] by auto
    next
      from d(3) em xin show "set (D @ [?x]) \<subseteq> emitidos E ?t"
        by auto
    next
      fix c' x assume "x \<in> set (itens_de (estoque ?t) c')"
      with d(4) [of x c'] em xin show "i_id x \<in> emitidos E ?t"
        using it' [of c'] by (auto split: if_splits)
    next
      fix a assume "a \<in> set (historico_alocacoes ?t)"
      with d(5) [of a] em h show "a_item_id a \<in> emitidos E ?t" by auto
    next
      from d(6) True hx
      show "quantidade_disponivel ?t c + alocado_de (D @ [?x]) (historico_alocacoes ?t) = T + q"
        using it' [of c] h by (simp add: quantidade_disponivel_def alocado_de_novo)
    qed
    with True show ?thesis by simp
  next
    case False
    have "inv_cat E c D T ?t"
    proof (rule inv_catI)
      fix x assume "x \<in> set (itens_de (estoque ?t) c)"
      with d(1) [of x] False show "i_id x \<in> set D" using it' [of c] by auto
    next
      fix c' x assume "c' \<noteq> c" "x \<in> set (itens_de (estoque ?t) c')"
      with d(2) [of c' x] d(3) xout show "i_id x \<notin> set D"
        using it' [of c'] by (auto split: if_splits)
    next
      from d(3) em show "set D \<subseteq> emitidos E ?t" by blast
    next
      fix c' x assume "x \<in> set (itens_de (estoque ?t) c')"
      with d(4) [of x c'] em xin show "i_id x \<in> emitidos E ?t"
        using it' [of c'] by (auto split: if_splits)
    next
      fix a assume "a \<in> set (historico_alocacoes ?t)"
      with d(5) [of a] em h show "a_item_id a \<in> emitidos E ?t" by auto
    next
      from d(6) False show "quantidade_disponivel ?t c + alocado_de D (historico_alocacoes ?t) = T"
        using it' [of c] h by (simp add: quantidade_disponivel_def)
    qed
    with False show ?thesis by simp
  qed
qed

lemma inv_cat_executar_todas:
  assumes j: "inj (novo_id E)"
  shows "inv_cat E c D T s \<Longrightarrow> list_all nao_desfaz ops \<Longrightarrow>
     inv_cat E c (D @ ids_doados E c s ops) (T + sum_list (map (doado_em c) ops)) (executar_todas E ops s)"
proof (induction ops arbitrary: s D T)
  case Nil
  then show ?case by (simp add: executar_todas_def)
next
  case (Cons x ops)
  from Cons.prems(2) have rest: "list_all nao_desfaz ops" by simp
  show ?case
  proof (cases x)
    case (Doar nome c0 q d)
    let ?s1 = "executar E s x"
    let ?D1 = "D @ (if c0 = c then [novo_id E (n_ids s)] else [])"
    let ?T1 = "T + (if c0 = c then q else 0)"
    from j Cons.prems(1) have "inv_cat E c ?D1 ?T1 (inserir_doacao E nome c0 q s)"
      by (rule inv_cat_inserir_doacao)
    then have "inv_cat E c ?D1 ?T1 ?s1"
      unfolding Doar executar.simps registrar_doacao_def by (rule inv_cat_tentar)
    from Cons.IH [OF this rest] show ?thesis
      by (simp add: Doar executar_todas_def add.assoc)
  next
    case (Pedir sol c0 q prio)
    let ?s1 = "executar E s x"
    from Cons.prems(1) have "inv_cat E c D T (inserir_pedido E sol c0 q prio s)"
      by (rule inv_cat_inserir_pedido)
    then have "inv_cat E c D T ?s1"
      unfolding Pedir executar.simps cadastrar_pedido_def by (rule inv_cat_tentar)
    from Cons.IH [OF this rest] show ?thesis
      by (simp add: Pedir executar_todas_def)
  next
    case Desfazer
    with Cons.prems(2) show ?thesis by simp
  qed
qed

lemma inv_cat_vazio: "inv_cat E c [] 0 sistema_vazio"
  by (simp add: inv_cat_def sistema_vazio_def itens_de_def quantidade_disponivel_def)

lemma conservacao_sem_desfazer:
  assumes "inj (novo_id E)" "list_all nao_desfaz ops"
  shows "conservacao_por_categoria E c ops"
proof -
  from inv_cat_executar_todas [OF assms(1) inv_cat_vazio assms(2), of c]
  have "inv_cat E c (ids_doados E c sistema_vazio ops) (sum_list (map (doado_em c) ops))
      (executar_todas E ops sistema_vazio)" by simp
  then show ?thesis by (simp add: inv_cat_def conservacao_por_categoria_def)
qed

lemma iteracao_estado_pedido_zero:
  "iteracao ambiente_exemplo ''cat'' estado_pedido_zero = Continuar estado_pedido_zero_depois"
  by (simp add: estado_pedido_zero_def estado_pedido_zero_depois_def ambiente_exemplo_def avaliar)

subsection \<open>The request that has the priority is served first\<close>







subsection \<open>Conservation by the origin of the units, undos included\<close>

lemma soma_de_update:
  "sum_list (map (\<lambda>kv. soma_de D (snd kv)) (AList.update c l e)) =
     sum_list (map (\<lambda>kv. soma_de D (snd kv)) e) - soma_de D (itens_de e c) + soma_de D l"
  by (induction e) (auto simp: itens_de_def soma_de_def)

lemma soma_de_tocar:
  "sum_list (map (\<lambda>kv. soma_de D (snd kv)) (estoque_tocar c e)) = sum_list (map (\<lambda>kv. soma_de D (snd kv)) e)"
  by (simp add: estoque_tocar_def soma_de_def split: option.splits)

lemma set_update_sub: "kv \<in> set (AList.update c l e) \<Longrightarrow> kv \<in> set e \<or> kv = (c, l)"
  by (induction e) (auto split: if_splits)

lemma itens_de_em:
  assumes "x \<in> set (itens_de e c)"
  shows "\<exists>kv \<in> set e. x \<in> set (snd kv)"
proof -
  from assms obtain l where l: "map_of e c = Some l" "x \<in> set l"
    by (cases "map_of e c") (simp_all add: itens_de_def)
  from l(1) have "(c, l) \<in> set e" by (rule map_of_SomeD)
  with l(2) show ?thesis by (intro bexI [of _ "(c, l)"]) simp_all
qed

lemma soma_de_novo: "\<forall>y \<in> set l. i_id y \<noteq> x \<Longrightarrow> soma_de (D @ [x]) l = soma_de D l"
  by (induction l) (simp_all add: soma_de_def)

lemma estoque_de_origem_novo:
  "\<forall>kv \<in> set e. \<forall>y \<in> set (snd kv). i_id y \<noteq> x \<Longrightarrow>
     sum_list (map (\<lambda>kv. soma_de (D @ [x]) (snd kv)) e) = sum_list (map (\<lambda>kv. soma_de D (snd kv)) e)"
  by (induction e) (simp_all add: soma_de_novo)

lemma alocado_de_ultimo:
  "h \<noteq> [] \<Longrightarrow> alocado_de D h =
     alocado_de D (butlast h) + (if a_item_id (last h) \<in> set D then a_quantidade (last h) else 0)"
  using alocado_de_append [of D "butlast h" "last h"] by simp

lemma inv_origemI:
  assumes "set D \<subseteq> emitidos E s"
    and "\<And>kv x. kv \<in> set (estoque s) \<Longrightarrow> x \<in> set (snd kv) \<Longrightarrow> i_id x \<in> emitidos E s"
    and "\<And>a. a \<in> set (historico_alocacoes s) \<Longrightarrow> a_item_id a \<in> emitidos E s"
    and "estoque_de_origem D s + alocado_de D (historico_alocacoes s) = T"
  shows "inv_origem E D T s"
  using assms unfolding inv_origem_def by blast

lemma inv_origemD:
  assumes "inv_origem E D T s"
  shows "set D \<subseteq> emitidos E s"
    and "\<And>kv x. kv \<in> set (estoque s) \<Longrightarrow> x \<in> set (snd kv) \<Longrightarrow> i_id x \<in> emitidos E s"
    and "\<And>a. a \<in> set (historico_alocacoes s) \<Longrightarrow> a_item_id a \<in> emitidos E s"
    and "estoque_de_origem D s + alocado_de D (historico_alocacoes s) = T"
  using assms unfolding inv_origem_def by blast+

lemma inv_origem_Continuar:
  assumes v: "inv_origem E D T s" and it: "iteracao E c0 s = Continuar s'"
  shows "inv_origem E D T s'"
  using it
proof (cases rule: iteracao_efeito_fila)
  case (invalido pid)
  with v show ?thesis
    by (simp add: inv_origem_def emitidos_def estoque_de_origem_def remover_invalido_campos)
next
  case (alocou n chave pedido item resto s1)
  note d = inv_origemD [OF v]
  let ?l = "if i_quantidade item \<le> p_quantidade pedido then resto
            else item\<lparr>i_quantidade := i_quantidade item - p_quantidade pedido\<rparr> # resto"
  have em: "emitidos E s \<subseteq> emitidos E s'" by (rule emitidos_mono) (simp add: alocou(12))
  have item: "item \<in> set (itens_de (estoque s) c0)" by (simp add: alocou(7))
  then obtain kv0 where kv0: "kv0 \<in> set (estoque s)" "item \<in> set (snd kv0)"
    using itens_de_em by blast
  have old: "\<And>x. x \<in> set (item # resto) \<Longrightarrow> i_id x \<in> emitidos E s"
  proof -
    fix x assume "x \<in> set (item # resto)"
    then have "x \<in> set (itens_de (estoque s) c0)" by (simp add: alocou(7))
    then obtain kv where "kv \<in> set (estoque s)" "x \<in> set (snd kv)" using itens_de_em by blast
    then show "i_id x \<in> emitidos E s" by (rule d(2))
  qed
  show ?thesis
  proof (rule inv_origemI)
    from d(1) em show "set D \<subseteq> emitidos E s'" by blast
  next
    fix kv x assume kv: "kv \<in> set (estoque s')" and x: "x \<in> set (snd kv)"
    from kv have "kv \<in> set (estoque s) \<or> kv = (c0, ?l)"
      unfolding alocou(9) by (rule set_update_sub)
    then have "i_id x \<in> emitidos E s"
    proof
      assume "kv \<in> set (estoque s)"
      then show ?thesis using x by (rule d(2))
    next
      assume "kv = (c0, ?l)"
      with x have "x \<in> set resto \<or> x = item\<lparr>i_quantidade := i_quantidade item - p_quantidade pedido\<rparr>"
        by (auto split: if_splits)
      then show ?thesis using old [of item] old [of x] by auto
    qed
    with em show "i_id x \<in> emitidos E s'" by blast
  next
    fix a assume "a \<in> set (historico_alocacoes s')"
    with d(3) [of a] old [of item] em show "a_item_id a \<in> emitidos E s'"
      by (auto simp: alocou(8))
  next
    have "soma_de D ?l = soma_de D (item # resto)
        - (if i_id item \<in> set D then min (i_quantidade item) (p_quantidade pedido) else 0)"
      by (simp add: soma_de_def)
    with d(4) show "estoque_de_origem D s' + alocado_de D (historico_alocacoes s') = T"
      by (simp add: estoque_de_origem_def alocou(9) soma_de_update alocou(7,8) alocado_de_append)
  qed
qed

lemma inv_origem_Parar:
  assumes v: "inv_origem E D T s" and it: "iteracao E c0 s = Parar s'"
  shows "inv_origem E D T s'"
  using it
proof (cases rule: iteracao_Parar_fila)
  case sem_pedido
  with v show ?thesis by simp
next
  case (sem_compativel pid pedido)
  with v show ?thesis by simp
next
  case (sem_estoque n chave pedido)
  have t: "\<And>kv. kv \<in> set (estoque_tocar c0 (estoque s)) \<Longrightarrow> kv \<in> set (estoque s) \<or> snd kv = []"
    by (auto simp: estoque_tocar_def split: option.splits)
  note d = inv_origemD [OF v]
  have em: "emitidos E s' = emitidos E s" by (simp add: emitidos_def sem_estoque(7) fila_upd_campos)
  show ?thesis
  proof (rule inv_origemI)
    from d(1) show "set D \<subseteq> emitidos E s'" by (simp add: em)
  next
    fix kv x assume "kv \<in> set (estoque s')" and x: "x \<in> set (snd kv)"
    then have "kv \<in> set (estoque_tocar c0 (estoque s))" by (simp add: sem_estoque(7))
    from t [OF this] x have "kv \<in> set (estoque s)" by auto
    from d(2) [OF this x] show "i_id x \<in> emitidos E s'" by (simp add: em)
  next
    fix a assume "a \<in> set (historico_alocacoes s')"
    then have "a \<in> set (historico_alocacoes s)" by (simp add: sem_estoque(7) fila_upd_campos)
    from d(3) [OF this] show "a_item_id a \<in> emitidos E s'" by (simp add: em)
  next
    from d(4) show "estoque_de_origem D s' + alocado_de D (historico_alocacoes s') = T"
      by (simp add: estoque_de_origem_def sem_estoque(7) fila_upd_campos soma_de_tocar)
  qed
qed

lemma inv_origem_tentar:
  assumes "inv_origem E D T s"
  shows "inv_origem E D T (tentar_alocar_para_pedidos E c0 s)"
proof (rule tentar_invariante [where P = "inv_origem E D T"])
  show "inv_origem E D T s" by (rule assms)
  show "\<And>t t'. inv_origem E D T t \<Longrightarrow> iteracao E c0 t = Continuar t' \<Longrightarrow> inv_origem E D T t'"
    by (rule inv_origem_Continuar)
  show "\<And>t t'. inv_origem E D T t \<Longrightarrow> iteracao E c0 t = Parar t' \<Longrightarrow> inv_origem E D T t'"
    by (rule inv_origem_Parar)
qed

lemma inv_origem_inserir_pedido:
  assumes v: "inv_origem E D T s"
  shows "inv_origem E D T (inserir_pedido E sol c0 q prio s)"
proof -
  have em: "emitidos E s \<subseteq> emitidos E (inserir_pedido E sol c0 q prio s)"
    by (rule emitidos_mono) (simp add: inserir_pedido_campos)
  with v show ?thesis
    unfolding inv_origem_def
    by (simp add: inserir_pedido_campos estoque_de_origem_def) blast
qed

lemma inv_origem_inserir_doacao:
  assumes j: "inj (novo_id E)" and v: "inv_origem E D T s"
  shows "inv_origem E (D @ (if c0 = c then [novo_id E (n_ids s)] else []))
           (T + (if c0 = c then q else 0)) (inserir_doacao E nome c0 q s)"
proof -
  let ?t = "inserir_doacao E nome c0 q s"
  let ?x = "novo_id E (n_ids s)"
  let ?item = "\<lparr>i_id = ?x, i_nome = nome, i_categoria = c0, i_quantidade = q, i_data = now E (n_relogio s)\<rparr>"
  let ?l = "itens_de (estoque s) c0 @ [?item]"
  have em: "emitidos E s \<subseteq> emitidos E ?t"
    by (rule emitidos_mono) (simp add: inserir_doacao_campos)
  have xin: "?x \<in> emitidos E ?t" by (simp add: emitidos_def inserir_doacao_campos)
  from j have xout: "?x \<notin> emitidos E s" by (rule novo_fora_emitidos)
  note d = inv_origemD [OF v]
  have e: "estoque ?t = AList.update c0 ?l (estoque s)" by (simp add: inserir_doacao_campos)
  have h: "historico_alocacoes ?t = historico_alocacoes s" by (simp add: inserir_doacao_campos)
  have hx: "\<forall>a \<in> set (historico_alocacoes s). a_item_id a \<noteq> ?x"
  proof
    fix a assume "a \<in> set (historico_alocacoes s)"
    from d(3) [OF this] xout show "a_item_id a \<noteq> ?x" by auto
  qed
  have ex: "\<forall>kv \<in> set (estoque s). \<forall>y \<in> set (snd kv). i_id y \<noteq> ?x"
  proof (intro ballI)
    fix kv y assume "kv \<in> set (estoque s)" "y \<in> set (snd kv)"
    from d(2) [OF this] xout show "i_id y \<noteq> ?x" by auto
  qed
  have lx: "\<forall>y \<in> set (itens_de (estoque s) c0). i_id y \<noteq> ?x"
  proof
    fix y assume "y \<in> set (itens_de (estoque s) c0)"
    then obtain kv where "kv \<in> set (estoque s)" "y \<in> set (snd kv)" using itens_de_em by blast
    with ex show "i_id y \<noteq> ?x" by blast
  qed
  have ids: "\<And>kv y. kv \<in> set (estoque ?t) \<Longrightarrow> y \<in> set (snd kv) \<Longrightarrow> i_id y \<in> emitidos E ?t"
  proof -
    fix kv y assume kv: "kv \<in> set (estoque ?t)" and y: "y \<in> set (snd kv)"
    from kv have "kv \<in> set (estoque s) \<or> kv = (c0, ?l)" unfolding e by (rule set_update_sub)
    then show "i_id y \<in> emitidos E ?t"
    proof
      assume "kv \<in> set (estoque s)"
      from d(2) [OF this y] em show ?thesis by blast
    next
      assume "kv = (c0, ?l)"
      with y have "y \<in> set (itens_de (estoque s) c0) \<or> y = ?item" by auto
      then show ?thesis
      proof
        assume "y \<in> set (itens_de (estoque s) c0)"
        then obtain kv' where "kv' \<in> set (estoque s)" "y \<in> set (snd kv')" using itens_de_em by blast
        from d(2) [OF this] em show ?thesis by blast
      next
        assume "y = ?item"
        with xin show ?thesis by simp
      qed
    qed
  qed
  have hs: "\<And>a. a \<in> set (historico_alocacoes ?t) \<Longrightarrow> a_item_id a \<in> emitidos E ?t"
    using d(3) em h by auto
  show ?thesis
  proof (cases "c0 = c")
    case True
    have "inv_origem E (D @ [?x]) (T + q) ?t"
    proof (rule inv_origemI)
      from d(1) em xin show "set (D @ [?x]) \<subseteq> emitidos E ?t" by auto
    next
      have "soma_de (D @ [?x]) ?l = soma_de D (itens_de (estoque s) c0) + q"
        using soma_de_novo [OF lx, of D] by (simp add: soma_de_def)
      moreover have "soma_de (D @ [?x]) (itens_de (estoque s) c0) = soma_de D (itens_de (estoque s) c0)"
        using lx by (rule soma_de_novo)
      ultimately show "estoque_de_origem (D @ [?x]) ?t + alocado_de (D @ [?x]) (historico_alocacoes ?t) = T + q"
        using d(4) hx
        by (simp add: estoque_de_origem_def e h soma_de_update estoque_de_origem_novo [OF ex]
            alocado_de_novo)
    qed (rule ids hs; assumption)+
    with True show ?thesis by simp
  next
    case False
    have "inv_origem E D T ?t"
    proof (rule inv_origemI)
      from d(1) em show "set D \<subseteq> emitidos E ?t" by blast
    next
      from d(1) xout have "?x \<notin> set D" by blast
      then have "soma_de D ?l = soma_de D (itens_de (estoque s) c0)" by (simp add: soma_de_def)
      with d(4) show "estoque_de_origem D ?t + alocado_de D (historico_alocacoes ?t) = T"
        by (simp add: estoque_de_origem_def e h soma_de_update)
    qed (rule ids hs; assumption)+
    with False show ?thesis by simp
  qed
qed

lemma inv_origem_desfazer:
  assumes v: "inv_origem E D T s"
  shows "inv_origem E D T (snd (desfazer_ultima_alocacao E s))"
proof (cases "historico_alocacoes s = []")
  case True
  with v show ?thesis
    by (simp add: desfazer_vazio inv_origem_def emitidos_def estoque_de_origem_def log_def)
next
  case False
  let ?t = "snd (desfazer_ultima_alocacao E s)"
  let ?a = "last (historico_alocacoes s)"
  let ?item = "\<lparr>i_id = a_item_id ?a, i_nome = ''Item_recuperado_'' @ a_item_id ?a,
            i_categoria = ''Desconhecido'', i_quantidade = a_quantidade ?a,
            i_data = now E (n_relogio s)\<rparr>"
  let ?l = "itens_de (estoque s) ''Desconhecido'' @ [?item]"
  note f = desfazer_campos [OF False, where E = E]
  note d = inv_origemD [OF v]
  have em: "emitidos E ?t = emitidos E s" by (simp add: emitidos_def f(2))
  from False have la: "?a \<in> set (historico_alocacoes s)" by simp
  show ?thesis
  proof (rule inv_origemI)
    from d(1) show "set D \<subseteq> emitidos E ?t" by (simp add: em)
  next
    fix kv y assume kv: "kv \<in> set (estoque ?t)" and y: "y \<in> set (snd kv)"
    from kv have "kv \<in> set (estoque s) \<or> kv = (''Desconhecido'', ?l)"
      unfolding f(4) by (rule set_update_sub)
    then have "i_id y \<in> emitidos E s"
    proof
      assume "kv \<in> set (estoque s)"
      then show ?thesis using y by (rule d(2))
    next
      assume "kv = (''Desconhecido'', ?l)"
      with y have "y \<in> set (itens_de (estoque s) ''Desconhecido'') \<or> y = ?item" by auto
      then show ?thesis
      proof
        assume "y \<in> set (itens_de (estoque s) ''Desconhecido'')"
        then obtain kv' where "kv' \<in> set (estoque s)" "y \<in> set (snd kv')" using itens_de_em by blast
        then show ?thesis by (rule d(2))
      next
        assume "y = ?item"
        with d(3) [OF la] show ?thesis by simp
      qed
    qed
    then show "i_id y \<in> emitidos E ?t" by (simp add: em)
  next
    fix a assume "a \<in> set (historico_alocacoes ?t)"
    then have "a \<in> set (historico_alocacoes s)" unfolding f(1) by (rule in_set_butlastD)
    from d(3) [OF this] show "a_item_id a \<in> emitidos E ?t" by (simp add: em)
  next
    have "soma_de D ?l = soma_de D (itens_de (estoque s) ''Desconhecido'')
        + (if a_item_id ?a \<in> set D then a_quantidade ?a else 0)"
      by (simp add: soma_de_def)
    with d(4) show "estoque_de_origem D ?t + alocado_de D (historico_alocacoes ?t) = T"
      by (simp add: estoque_de_origem_def f(1,4) soma_de_update alocado_de_ultimo [OF False, of D])
  qed
qed

lemma inv_origem_executar_todas:
  assumes j: "inj (novo_id E)"
  shows "inv_origem E D T s \<Longrightarrow>
     inv_origem E (D @ ids_doados E c s ops) (T + sum_list (map (doado_em c) ops)) (executar_todas E ops s)"
proof (induction ops arbitrary: s D T)
  case Nil
  then show ?case by (simp add: executar_todas_def)
next
  case (Cons x ops)
  show ?case
  proof (cases x)
    case (Doar nome c0 q d)
    let ?s1 = "executar E s x"
    let ?D1 = "D @ (if c0 = c then [novo_id E (n_ids s)] else [])"
    let ?T1 = "T + (if c0 = c then q else 0)"
    from j Cons.prems have "inv_origem E ?D1 ?T1 (inserir_doacao E nome c0 q s)"
      by (rule inv_origem_inserir_doacao)
    then have "inv_origem E ?D1 ?T1 ?s1"
      unfolding Doar executar.simps registrar_doacao_def by (rule inv_origem_tentar)
    from Cons.IH [OF this] show ?thesis
      by (simp add: Doar executar_todas_def add.assoc)
  next
    case (Pedir sol c0 q prio)
    let ?s1 = "executar E s x"
    from Cons.prems have "inv_origem E D T (inserir_pedido E sol c0 q prio s)"
      by (rule inv_origem_inserir_pedido)
    then have "inv_origem E D T ?s1"
      unfolding Pedir executar.simps cadastrar_pedido_def by (rule inv_origem_tentar)
    from Cons.IH [OF this] show ?thesis
      by (simp add: Pedir executar_todas_def)
  next
    case Desfazer
    let ?s1 = "executar E s x"
    from Cons.prems have "inv_origem E D T ?s1"
      unfolding Desfazer executar.simps by (rule inv_origem_desfazer)
    from Cons.IH [OF this] show ?thesis
      by (simp add: Desfazer executar_todas_def)
  qed
qed

lemma inv_origem_vazio: "inv_origem E [] 0 sistema_vazio"
  by (simp add: inv_origem_def sistema_vazio_def estoque_de_origem_def)

lemma conservacao_de_origem:
  assumes "inj (novo_id E)"
  shows "conservacao_por_origem E c ops"
proof -
  from inv_origem_executar_todas [OF assms inv_origem_vazio, of c ops]
  have "inv_origem E (ids_doados E c sistema_vazio ops) (sum_list (map (doado_em c) ops))
      (executar_todas E ops sistema_vazio)" by simp
  then show ?thesis by (simp add: inv_origem_def conservacao_por_origem_def)
qed

section \<open>The claims\<close>

text \<open>
  C9, as the claim states it, fails in its reason: the loop may go round without lowering
  the supply or the unsatisfied demand of the category. After a donation of 10 and with a
  request for 0 units just queued, the iteration allocates 0 units: the category still
  holds 10 and the unsatisfied demand is 0 before and after.
\<close>

theorem variante_counterexample:
  "estado_pedido_zero =
     inserir_pedido ambiente_exemplo ''R'' ''cat'' 0 ''alta''
       (executar_todas ambiente_exemplo [Doar ''A'' ''cat'' 10 None] sistema_vazio)
   \<and> iteracao ambiente_exemplo ''cat'' estado_pedido_zero = Continuar estado_pedido_zero_depois
   \<and> quantidade_disponivel estado_pedido_zero ''cat'' = 10
   \<and> quantidade_disponivel estado_pedido_zero_depois ''cat'' = 10
   \<and> demanda_pendente estado_pedido_zero ''cat'' = 0
   \<and> demanda_pendente estado_pedido_zero_depois ''cat'' = 0
   \<and> \<not> variante_diminui ''cat'' estado_pedido_zero estado_pedido_zero_depois"
proof -
  have a: "estado_pedido_zero =
     inserir_pedido ambiente_exemplo ''R'' ''cat'' 0 ''alta''
       (executar_todas ambiente_exemplo [Doar ''A'' ''cat'' 10 None] sistema_vazio)"
    by (simp add: estado_pedido_zero_def executar_todas_def)
  have v: "estado_pedido_zero =
     \<lparr>estoque = [(''cat'', [\<lparr>i_id = ''x'', i_nome = ''A'', i_categoria = ''cat'', i_quantidade = 10, i_data = ''''\<rparr>])],
      fila_alta = [''xx''], fila_media = [], fila_baixa = [],
      pedidos = [(''xx'', \<lparr>p_id = ''xx'', p_solicitante = ''R'', p_categoria = ''cat'', p_quantidade = 0,
                           p_prioridade = ''alta'', p_data = ''tt'', p_atendido = False\<rparr>)],
      historico_alocacoes = [],
      n_ids = 2, n_relogio = 4\<rparr>"
    by (simp add: estado_pedido_zero_def ambiente_exemplo_def avaliar)
  have q1: "quantidade_disponivel estado_pedido_zero ''cat'' = 10"
    by (simp add: v quantidade_disponivel_def itens_de_def)
  have q2: "quantidade_disponivel estado_pedido_zero_depois ''cat'' = 10"
    by (simp add: estado_pedido_zero_depois_def quantidade_disponivel_def itens_de_def)
  have d1: "demanda_pendente estado_pedido_zero ''cat'' = 0"
    by (simp add: v demanda_pendente_def)
  have d2: "demanda_pendente estado_pedido_zero_depois ''cat'' = 0"
    by (simp add: estado_pedido_zero_depois_def demanda_pendente_def)
  from q1 q2 d1 d2 have n: "\<not> variante_diminui ''cat'' estado_pedido_zero estado_pedido_zero_depois"
    by (simp add: variante_diminui_def)
  from a iteracao_estado_pedido_zero q1 q2 d1 d2 n show ?thesis by (intro conjI)
qed

text \<open>
  C9, amended. The matching loop terminates on every state: run with a budget of
  \<open>medida s + 1\<close> iterations it reaches its \<open>break\<close>, with the result of
  \<open>_tentar_alocar_para_pedidos\<close>, because every iteration that does not break lowers
  \<open>medida\<close>, the number of stock items, of unsatisfied requests and of queue entries.
  In the states a run with positive quantities reaches, such an iteration is an
  allocation of a positive quantity, and it lowers the quantity the category has in stock.
\<close>

theorem laco_termina:
  "iterar (Suc (medida s)) E c s = Some (tentar_alocar_para_pedidos E c s)
   \<and> (\<forall>s'. iteracao E c s = Continuar s' \<longrightarrow> medida s' < medida s)
   \<and> (\<forall>s'. inv_pos E s \<and> iteracao E c s = Continuar s' \<longrightarrow>
         quantidade_disponivel s' c < quantidade_disponivel s c)"
proof (intro conjI)
  show "iterar (Suc (medida s)) E c s = Some (tentar_alocar_para_pedidos E c s)"
    by (rule iterar_suficiente) simp
  show "\<forall>s'. iteracao E c s = Continuar s' \<longrightarrow> medida s' < medida s"
    by (simp add: medida_iteracao)
  show "\<forall>s'. inv_pos E s \<and> iteracao E c s = Continuar s' \<longrightarrow>
         quantidade_disponivel s' c < quantidade_disponivel s c"
    by (auto intro: oferta_diminui)
qed

theorem laco_termina_witness:
  "iteracao ambiente_exemplo ''cat'' estado_exemplo = Continuar estado_exemplo_depois
   \<and> inv_pos ambiente_exemplo estado_exemplo
   \<and> medida estado_exemplo_depois < medida estado_exemplo
   \<and> quantidade_disponivel estado_exemplo_depois ''cat'' < quantidade_disponivel estado_exemplo ''cat''
   \<and> iterar (Suc (medida estado_exemplo)) ambiente_exemplo ''cat'' estado_exemplo
       = Some (tentar_alocar_para_pedidos ambiente_exemplo ''cat'' estado_exemplo)"
  using laco_termina [of estado_exemplo ambiente_exemplo "''cat''"] iteracao_estado_exemplo
    inv_pos_estado_exemplo
  by blast

text \<open>
  C6 (invariant I1). Every iteration that commits an allocation pairs the front item of
  the category's stock with a request of the dictionary, and the quantity it records is
  the minimum of the two remaining quantities as they are at that moment; it exceeds
  neither.
\<close>

theorem alocacao_minimo:
  assumes "iteracao E c s = Continuar s'"
    and "historico_alocacoes s' \<noteq> historico_alocacoes s"
  shows "\<exists>item resto chave pedido aloc.
     itens_de (estoque s) c = item # resto \<and> map_of (pedidos s) chave = Some pedido
     \<and> historico_alocacoes s' = historico_alocacoes s @ [aloc]
     \<and> a_item_id aloc = i_id item \<and> a_pedido_id aloc = p_id pedido
     \<and> a_quantidade aloc = min (i_quantidade item) (p_quantidade pedido)
     \<and> a_quantidade aloc \<le> i_quantidade item \<and> a_quantidade aloc \<le> p_quantidade pedido"
  using assms(1)
proof (cases rule: iteracao_Continuar_casos)
  case (invalido pid)
  with assms(2) show ?thesis by (simp add: remover_invalido_campos)
next
  case (frente pid pedido)
  from frente(6) obtain item resto where it: "itens_de (estoque s) c = item # resto"
    by (cases "itens_de (estoque s) c") (auto simp: alocar_def)
  from alocar_Cons [OF it, of E pid pedido] frente(6)
  have "historico_alocacoes s' = historico_alocacoes s @
           [\<lparr>a_id = novo_id E (n_ids s), a_item_id = i_id item, a_pedido_id = p_id pedido,
             a_quantidade = min (i_quantidade item) (p_quantidade pedido), a_data = now E (n_relogio s)\<rparr>]"
    by simp
  with it frente(3) show ?thesis by (intro exI conjI) (assumption+, simp_all)
next
  case (busca pid pedido found p s1)
  from procurar_Some [OF busca(6)] obtain n where
    f: "map_of (pedidos s) found = Some p" and s1: "s1 = fila_upd n (rodar_ate found) s" by auto
  from busca(7) obtain item resto where it1: "itens_de (estoque s1) c = item # resto"
    by (cases "itens_de (estoque s1) c") (auto simp: alocar_def)
  from alocar_Cons [OF it1, of E found p] busca(7)
  have "historico_alocacoes s' = historico_alocacoes s1 @
           [\<lparr>a_id = novo_id E (n_ids s1), a_item_id = i_id item, a_pedido_id = p_id p,
             a_quantidade = min (i_quantidade item) (p_quantidade p), a_data = now E (n_relogio s1)\<rparr>]"
    by simp
  then have h: "historico_alocacoes s' = historico_alocacoes s @
           [\<lparr>a_id = novo_id E (n_ids s1), a_item_id = i_id item, a_pedido_id = p_id p,
             a_quantidade = min (i_quantidade item) (p_quantidade p), a_data = now E (n_relogio s1)\<rparr>]"
    by (simp add: s1 fila_upd_campos)
  from it1 have it: "itens_de (estoque s) c = item # resto" by (simp add: s1 fila_upd_campos)
  from it f h show ?thesis by (intro exI conjI) (assumption+, simp_all)
qed

theorem alocacao_minimo_witness:
  "iteracao ambiente_exemplo ''cat'' estado_exemplo = Continuar estado_exemplo_depois
   \<and> historico_alocacoes estado_exemplo_depois \<noteq> historico_alocacoes estado_exemplo
   \<and> (\<exists>item resto chave pedido aloc.
     itens_de (estoque estado_exemplo) ''cat'' = item # resto \<and> map_of (pedidos estado_exemplo) chave = Some pedido
     \<and> historico_alocacoes estado_exemplo_depois = historico_alocacoes estado_exemplo @ [aloc]
     \<and> a_item_id aloc = i_id item \<and> a_pedido_id aloc = p_id pedido
     \<and> a_quantidade aloc = min (i_quantidade item) (p_quantidade pedido)
     \<and> a_quantidade aloc \<le> i_quantidade item \<and> a_quantidade aloc \<le> p_quantidade pedido)"
proof -
  have h: "historico_alocacoes estado_exemplo_depois \<noteq> historico_alocacoes estado_exemplo"
    by (simp add: estado_exemplo_def estado_exemplo_depois_def avaliar)
  from alocacao_minimo [OF iteracao_estado_exemplo h] iteracao_estado_exemplo h
  show ?thesis by (intro conjI)
qed

text \<open>
  C3, as the claim states it, fails: bringing the matched request to the front rotates
  the queue, so the entries that stood before the match end up behind those that stood
  after it. With the queue \<open>xxx, xx, x\<close> and a donation for the category of \<open>xx\<close>, the
  other two entries change places.
\<close>

theorem promover_ordem_counterexample:
  "remove1 ''xx'' (fila_alta (registrar_doacao ambiente_exemplo ''D'' ''B'' 1 None estado_tres_pedidos))
     \<noteq> remove1 ''xx'' (fila_alta estado_tres_pedidos)"
  by (simp add: estado_tres_pedidos_valor)
     (simp add: ambiente_exemplo_def avaliar rodar_ate.simps)

text \<open>
  C3, amended. When the search relocates a matched request, the queue that holds it is
  rotated: the match comes first, then the entries that followed it, then the entries
  that preceded it, each group in its old order; the other two queues are untouched.
\<close>

theorem promover_rotacao:
  assumes "procurar niveis c s = Some (found, p, s1)"
  shows "\<exists>n. found \<in> set (fila n s)
     \<and> fila n s1 = found # tl (dropWhile (\<lambda>x. x \<noteq> found) (fila n s)) @ takeWhile (\<lambda>x. x \<noteq> found) (fila n s)
     \<and> fila n s = takeWhile (\<lambda>x. x \<noteq> found) (fila n s) @ found # tl (dropWhile (\<lambda>x. x \<noteq> found) (fila n s))
     \<and> (\<forall>m. m \<noteq> n \<longrightarrow> fila m s1 = fila m s)"
proof -
  from procurar_rotacao [OF assms] obtain n where n: "found \<in> set (fila n s)"
    "fila n s1 = dropWhile (\<lambda>x. x \<noteq> found) (fila n s) @ takeWhile (\<lambda>x. x \<noteq> found) (fila n s)"
    "\<forall>m. m \<noteq> n \<longrightarrow> fila m s1 = fila m s" by blast
  from n(1) have d: "dropWhile (\<lambda>x. x \<noteq> found) (fila n s) = found # tl (dropWhile (\<lambda>x. x \<noteq> found) (fila n s))"
    by (rule dropWhile_achado)
  have "fila n s = takeWhile (\<lambda>x. x \<noteq> found) (fila n s) @ dropWhile (\<lambda>x. x \<noteq> found) (fila n s)"
    by simp
  with d have "fila n s = takeWhile (\<lambda>x. x \<noteq> found) (fila n s) @ found # tl (dropWhile (\<lambda>x. x \<noteq> found) (fila n s))"
    by simp
  with n d show ?thesis by (intro exI [of _ n]) simp
qed

theorem promover_rotacao_witness:
  "procurar niveis ''B'' estado_tres_pedidos =
     Some (''xx'', \<lparr>p_id = ''xx'', p_solicitante = ''R2'', p_categoria = ''B'', p_quantidade = 2,
                           p_prioridade = ''alta'', p_data = ''tt'', p_atendido = False\<rparr>,
           estado_tres_pedidos\<lparr>fila_alta := [''xx'', ''x'', ''xxx'']\<rparr>)
   \<and> (\<exists>n. ''xx'' \<in> set (fila n estado_tres_pedidos)
     \<and> fila n (estado_tres_pedidos\<lparr>fila_alta := [''xx'', ''x'', ''xxx'']\<rparr>) =
         ''xx'' # tl (dropWhile (\<lambda>x. x \<noteq> ''xx'') (fila n estado_tres_pedidos))
           @ takeWhile (\<lambda>x. x \<noteq> ''xx'') (fila n estado_tres_pedidos)
     \<and> fila n estado_tres_pedidos =
         takeWhile (\<lambda>x. x \<noteq> ''xx'') (fila n estado_tres_pedidos)
           @ ''xx'' # tl (dropWhile (\<lambda>x. x \<noteq> ''xx'') (fila n estado_tres_pedidos))
     \<and> (\<forall>m. m \<noteq> n \<longrightarrow> fila m (estado_tres_pedidos\<lparr>fila_alta := [''xx'', ''x'', ''xxx'']\<rparr>) = fila m estado_tres_pedidos))"
proof -
  have h: "procurar niveis ''B'' estado_tres_pedidos =
     Some (''xx'', \<lparr>p_id = ''xx'', p_solicitante = ''R2'', p_categoria = ''B'', p_quantidade = 2,
                           p_prioridade = ''alta'', p_data = ''tt'', p_atendido = False\<rparr>,
           estado_tres_pedidos\<lparr>fila_alta := [''xx'', ''x'', ''xxx'']\<rparr>)"
    by (simp add: estado_tres_pedidos_valor niveis_def rodar_ate.simps)
  from promover_rotacao [OF h] h show ?thesis by (intro conjI)
qed

text \<open>
  C10 (FIFO within a category). Donating 5 and then 3 of one category and then requesting
  4 of it at priority \<open>alta\<close> gives exactly one allocation, of 4, from the first donation;
  the stock is left at 1 and 3 and the request is satisfied. In general a donation is
  appended behind the stock of its category, and an allocating iteration draws from the
  front item and leaves the items behind it as they are.
\<close>

theorem fifo_por_categoria:
  "(novo_id E 2 \<noteq> [] \<longrightarrow>
      executar_todas E [Doar n1 c 5 d1, Doar n2 c 3 d2, Pedir sol c 4 ''alta''] sistema_vazio =
        \<lparr>estoque = [(c, [\<lparr>i_id = novo_id E 0, i_nome = n1, i_categoria = c, i_quantidade = 1, i_data = now E 0\<rparr>,
                          \<lparr>i_id = novo_id E 1, i_nome = n2, i_categoria = c, i_quantidade = 3, i_data = now E 2\<rparr>])],
          fila_alta = [], fila_media = [], fila_baixa = [],
          pedidos = [(novo_id E 2, \<lparr>p_id = novo_id E 2, p_solicitante = sol, p_categoria = c,
                        p_quantidade = 0, p_prioridade = ''alta'', p_data = now E 4, p_atendido = True\<rparr>)],
          historico_alocacoes = [\<lparr>a_id = novo_id E 3, a_item_id = novo_id E 0, a_pedido_id = novo_id E 2,
                                    a_quantidade = 4, a_data = now E 6\<rparr>],
          n_ids = 4, n_relogio = 8\<rparr>)
   \<and> itens_de (estoque (inserir_doacao E n c q s)) c =
        itens_de (estoque s) c @ [\<lparr>i_id = novo_id E (n_ids s), i_nome = n, i_categoria = c,
                                     i_quantidade = q, i_data = now E (n_relogio s)\<rparr>]
   \<and> (\<forall>s' velho resto.
         iteracao E c s = Continuar s' \<and> historico_alocacoes s' \<noteq> historico_alocacoes s
           \<and> itens_de (estoque s) c = velho # resto \<longrightarrow>
         a_item_id (last (historico_alocacoes s')) = i_id velho
         \<and> (itens_de (estoque s') c = resto
              \<or> (\<exists>q'. itens_de (estoque s') c = velho\<lparr>i_quantidade := q'\<rparr> # resto)))"
proof (intro conjI impI allI)
  assume "novo_id E 2 \<noteq> []"
  then show "executar_todas E [Doar n1 c 5 d1, Doar n2 c 3 d2, Pedir sol c 4 ''alta''] sistema_vazio =
        \<lparr>estoque = [(c, [\<lparr>i_id = novo_id E 0, i_nome = n1, i_categoria = c, i_quantidade = 1, i_data = now E 0\<rparr>,
                          \<lparr>i_id = novo_id E 1, i_nome = n2, i_categoria = c, i_quantidade = 3, i_data = now E 2\<rparr>])],
          fila_alta = [], fila_media = [], fila_baixa = [],
          pedidos = [(novo_id E 2, \<lparr>p_id = novo_id E 2, p_solicitante = sol, p_categoria = c,
                        p_quantidade = 0, p_prioridade = ''alta'', p_data = now E 4, p_atendido = True\<rparr>)],
          historico_alocacoes = [\<lparr>a_id = novo_id E 3, a_item_id = novo_id E 0, a_pedido_id = novo_id E 2,
                                    a_quantidade = 4, a_data = now E 6\<rparr>],
          n_ids = 4, n_relogio = 8\<rparr>"
    by (simp add: avaliar eval_nat_numeral)
next
  show "itens_de (estoque (inserir_doacao E n c q s)) c =
        itens_de (estoque s) c @ [\<lparr>i_id = novo_id E (n_ids s), i_nome = n, i_categoria = c,
                                     i_quantidade = q, i_data = now E (n_relogio s)\<rparr>]"
    by (simp add: inserir_doacao_def log_def itens_de_update)
next
  fix s' velho resto
  assume a: "iteracao E c s = Continuar s' \<and> historico_alocacoes s' \<noteq> historico_alocacoes s
           \<and> itens_de (estoque s) c = velho # resto"
  have "a_item_id (last (historico_alocacoes s')) = i_id velho
     \<and> (itens_de (estoque s') c = resto \<or> (\<exists>q. itens_de (estoque s') c = velho\<lparr>i_quantidade := q\<rparr> # resto))"
    by (rule fifo_iteracao [of E c s s']) (simp_all add: a)
  then show "a_item_id (last (historico_alocacoes s')) = i_id velho"
    and "itens_de (estoque s') c = resto
              \<or> (\<exists>q'. itens_de (estoque s') c = velho\<lparr>i_quantidade := q'\<rparr> # resto)"
    by simp_all
qed

theorem fifo_por_categoria_witness:
  "novo_id ambiente_exemplo 2 \<noteq> []
   \<and> executar_todas ambiente_exemplo
        [Doar ''Arroz'' ''cat'' 5 None, Doar ''Feijao'' ''cat'' 3 None, Pedir ''Fam A'' ''cat'' 4 ''alta'']
        sistema_vazio =
        \<lparr>estoque = [(''cat'', [\<lparr>i_id = novo_id ambiente_exemplo 0, i_nome = ''Arroz'', i_categoria = ''cat'',
                                i_quantidade = 1, i_data = now ambiente_exemplo 0\<rparr>,
                               \<lparr>i_id = novo_id ambiente_exemplo 1, i_nome = ''Feijao'', i_categoria = ''cat'',
                                i_quantidade = 3, i_data = now ambiente_exemplo 2\<rparr>])],
          fila_alta = [], fila_media = [], fila_baixa = [],
          pedidos = [(novo_id ambiente_exemplo 2,
                      \<lparr>p_id = novo_id ambiente_exemplo 2, p_solicitante = ''Fam A'', p_categoria = ''cat'',
                        p_quantidade = 0, p_prioridade = ''alta'', p_data = now ambiente_exemplo 4,
                        p_atendido = True\<rparr>)],
          historico_alocacoes = [\<lparr>a_id = novo_id ambiente_exemplo 3, a_item_id = novo_id ambiente_exemplo 0,
                                    a_pedido_id = novo_id ambiente_exemplo 2,
                                    a_quantidade = 4, a_data = now ambiente_exemplo 6\<rparr>],
          n_ids = 4, n_relogio = 8\<rparr>
   \<and> iteracao ambiente_exemplo ''cat'' estado_exemplo = Continuar estado_exemplo_depois
   \<and> historico_alocacoes estado_exemplo_depois \<noteq> historico_alocacoes estado_exemplo
   \<and> itens_de (estoque estado_exemplo) ''cat'' =
        [\<lparr>i_id = ''x'', i_nome = ''A'', i_categoria = ''cat'', i_quantidade = 10, i_data = ''''\<rparr>]
   \<and> a_item_id (last (historico_alocacoes estado_exemplo_depois)) = ''x''"
proof -
  note t = fifo_por_categoria [where E = ambiente_exemplo and c = "''cat''" and s = estado_exemplo
      and ?n1.0 = "''Arroz''" and ?n2.0 = "''Feijao''" and ?d1.0 = None and ?d2.0 = None
      and sol = "''Fam A''" and n = "''A''" and q = 10]
  have h1: "novo_id ambiente_exemplo 2 \<noteq> []" by (simp add: ambiente_exemplo_def)
  have h2: "historico_alocacoes estado_exemplo_depois \<noteq> historico_alocacoes estado_exemplo"
    by (simp add: estado_exemplo_def estado_exemplo_depois_def avaliar)
  have h3: "itens_de (estoque estado_exemplo) ''cat'' =
        [\<lparr>i_id = ''x'', i_nome = ''A'', i_categoria = ''cat'', i_quantidade = 10, i_data = ''''\<rparr>]"
    by (simp add: estado_exemplo_def ambiente_exemplo_def avaliar)
  from t h1 have a: "executar_todas ambiente_exemplo
        [Doar ''Arroz'' ''cat'' 5 None, Doar ''Feijao'' ''cat'' 3 None, Pedir ''Fam A'' ''cat'' 4 ''alta'']
        sistema_vazio =
        \<lparr>estoque = [(''cat'', [\<lparr>i_id = novo_id ambiente_exemplo 0, i_nome = ''Arroz'', i_categoria = ''cat'',
                                i_quantidade = 1, i_data = now ambiente_exemplo 0\<rparr>,
                               \<lparr>i_id = novo_id ambiente_exemplo 1, i_nome = ''Feijao'', i_categoria = ''cat'',
                                i_quantidade = 3, i_data = now ambiente_exemplo 2\<rparr>])],
          fila_alta = [], fila_media = [], fila_baixa = [],
          pedidos = [(novo_id ambiente_exemplo 2,
                      \<lparr>p_id = novo_id ambiente_exemplo 2, p_solicitante = ''Fam A'', p_categoria = ''cat'',
                        p_quantidade = 0, p_prioridade = ''alta'', p_data = now ambiente_exemplo 4,
                        p_atendido = True\<rparr>)],
          historico_alocacoes = [\<lparr>a_id = novo_id ambiente_exemplo 3, a_item_id = novo_id ambiente_exemplo 0,
                                    a_pedido_id = novo_id ambiente_exemplo 2,
                                    a_quantidade = 4, a_data = now ambiente_exemplo 6\<rparr>],
          n_ids = 4, n_relogio = 8\<rparr>"
    by (rule mp [OF conjunct1])
  from t have "\<forall>s' velho resto.
         iteracao ambiente_exemplo ''cat'' estado_exemplo = Continuar s'
           \<and> historico_alocacoes s' \<noteq> historico_alocacoes estado_exemplo
           \<and> itens_de (estoque estado_exemplo) ''cat'' = velho # resto \<longrightarrow>
         a_item_id (last (historico_alocacoes s')) = i_id velho
         \<and> (itens_de (estoque s') ''cat'' = resto
              \<or> (\<exists>q'. itens_de (estoque s') ''cat'' = velho\<lparr>i_quantidade := q'\<rparr> # resto))"
    by (rule conjunct2 [OF conjunct2])
  with iteracao_estado_exemplo h2 h3
  have "a_item_id (last (historico_alocacoes estado_exemplo_depois)) =
          i_id \<lparr>i_id = ''x'', i_nome = ''A'', i_categoria = ''cat'', i_quantidade = 10, i_data = ''''\<rparr>"
    by blast
  then have b: "a_item_id (last (historico_alocacoes estado_exemplo_depois)) = ''x''" by simp
  from h1 a iteracao_estado_exemplo h2 h3 b show ?thesis by (intro conjI)
qed

text \<open>
  C1, as the claim states it, fails: after a donation of 10, a request of 4 and the undo,
  the category holds 6 and not 10. \<open>desfazer_ultima_alocacao\<close> puts the quantity back
  under the category \<open>Desconhecido\<close>.
\<close>

theorem desfazer_cenario_counterexample:
  "quantidade_disponivel
     (executar_todas ambiente_exemplo [Doar ''A'' ''cat'' 10 None, Pedir ''R'' ''cat'' 4 ''alta'', Desfazer] sistema_vazio)
     ''cat'' \<noteq> 10"
  by (simp add: quantidade_disponivel_def ambiente_exemplo_def avaliar)

text \<open>
  C1, amended. A donation of 10 and a request of 4 of the same category at priority
  \<open>alta\<close> give one allocation of 4. The undo empties the history, puts the request back
  at the front of the high queue, unsatisfied, with 4 remaining, and returns the 4 units
  as a new item that has the id of the donated item, the name \<open>Item_recuperado_\<close>
  followed by that id, and the category \<open>Desconhecido\<close>; the donated category keeps 6.
\<close>

theorem desfazer_cenario:
  assumes "novo_id E 1 \<noteq> []" and "c \<noteq> ''Desconhecido''"
  shows "executar_todas E [Doar n c 10 d, Pedir sol c 4 ''alta''] sistema_vazio =
     \<lparr>estoque = [(c, [\<lparr>i_id = novo_id E 0, i_nome = n, i_categoria = c, i_quantidade = 6, i_data = now E 0\<rparr>])],
      fila_alta = [], fila_media = [], fila_baixa = [],
      pedidos = [(novo_id E 1, \<lparr>p_id = novo_id E 1, p_solicitante = sol, p_categoria = c,
                    p_quantidade = 0, p_prioridade = ''alta'', p_data = now E 2, p_atendido = True\<rparr>)],
      historico_alocacoes = [\<lparr>a_id = novo_id E 2, a_item_id = novo_id E 0, a_pedido_id = novo_id E 1,
                                a_quantidade = 4, a_data = now E 4\<rparr>],
      n_ids = 3, n_relogio = 6\<rparr>
  \<and> executar_todas E [Doar n c 10 d, Pedir sol c 4 ''alta'', Desfazer] sistema_vazio =
     \<lparr>estoque = [(c, [\<lparr>i_id = novo_id E 0, i_nome = n, i_categoria = c, i_quantidade = 6, i_data = now E 0\<rparr>]),
                 (''Desconhecido'', [\<lparr>i_id = novo_id E 0, i_nome = ''Item_recuperado_'' @ novo_id E 0,
                      i_categoria = ''Desconhecido'', i_quantidade = 4, i_data = now E 6\<rparr>])],
      fila_alta = [novo_id E 1], fila_media = [], fila_baixa = [],
      pedidos = [(novo_id E 1, \<lparr>p_id = novo_id E 1, p_solicitante = sol, p_categoria = c,
                    p_quantidade = 4, p_prioridade = ''alta'', p_data = now E 2, p_atendido = False\<rparr>)],
      historico_alocacoes = [],
      n_ids = 3, n_relogio = 8\<rparr>"
  using assms by (simp add: avaliar eval_nat_numeral)

theorem desfazer_cenario_witness:
  "novo_id ambiente_exemplo 1 \<noteq> [] \<and> ''cat'' \<noteq> ''Desconhecido''
  \<and> executar_todas ambiente_exemplo [Doar ''A'' ''cat'' 10 None, Pedir ''R'' ''cat'' 4 ''alta''] sistema_vazio =
     \<lparr>estoque = [(''cat'', [\<lparr>i_id = novo_id ambiente_exemplo 0, i_nome = ''A'', i_categoria = ''cat'',
                              i_quantidade = 6, i_data = now ambiente_exemplo 0\<rparr>])],
      fila_alta = [], fila_media = [], fila_baixa = [],
      pedidos = [(novo_id ambiente_exemplo 1,
                  \<lparr>p_id = novo_id ambiente_exemplo 1, p_solicitante = ''R'', p_categoria = ''cat'',
                    p_quantidade = 0, p_prioridade = ''alta'', p_data = now ambiente_exemplo 2, p_atendido = True\<rparr>)],
      historico_alocacoes = [\<lparr>a_id = novo_id ambiente_exemplo 2, a_item_id = novo_id ambiente_exemplo 0,
                                a_pedido_id = novo_id ambiente_exemplo 1,
                                a_quantidade = 4, a_data = now ambiente_exemplo 4\<rparr>],
      n_ids = 3, n_relogio = 6\<rparr>
  \<and> executar_todas ambiente_exemplo [Doar ''A'' ''cat'' 10 None, Pedir ''R'' ''cat'' 4 ''alta'', Desfazer] sistema_vazio =
     \<lparr>estoque = [(''cat'', [\<lparr>i_id = novo_id ambiente_exemplo 0, i_nome = ''A'', i_categoria = ''cat'',
                              i_quantidade = 6, i_data = now ambiente_exemplo 0\<rparr>]),
                 (''Desconhecido'', [\<lparr>i_id = novo_id ambiente_exemplo 0,
                      i_nome = ''Item_recuperado_'' @ novo_id ambiente_exemplo 0,
                      i_categoria = ''Desconhecido'', i_quantidade = 4, i_data = now ambiente_exemplo 6\<rparr>])],
      fila_alta = [novo_id ambiente_exemplo 1], fila_media = [], fila_baixa = [],
      pedidos = [(novo_id ambiente_exemplo 1,
                  \<lparr>p_id = novo_id ambiente_exemplo 1, p_solicitante = ''R'', p_categoria = ''cat'',
                    p_quantidade = 4, p_prioridade = ''alta'', p_data = now ambiente_exemplo 2, p_atendido = False\<rparr>)],
      historico_alocacoes = [],
      n_ids = 3, n_relogio = 8\<rparr>"
proof -
  have h1: "novo_id ambiente_exemplo 1 \<noteq> []" by (simp add: ambiente_exemplo_def)
  have h2: "''cat'' \<noteq> ''Desconhecido''" by simp
  from desfazer_cenario [OF h1 h2, of "''A''" None "''R''"] h1 h2 show ?thesis by (intro conjI) simp_all
qed

text \<open>
  C2, as the claim states it, fails: after a donation of 10 to a category, a request of 4
  and the undo, the category holds 6 and the history is empty, against 10 donated.
\<close>

theorem conservacao_por_categoria_counterexample:
  "\<not> conservacao_por_categoria ambiente_exemplo ''cat''
       [Doar ''A'' ''cat'' 10 None, Pedir ''R'' ''cat'' 4 ''alta'', Desfazer]"
  by (simp add: conservacao_por_categoria_def quantidade_disponivel_def ambiente_exemplo_def avaliar)

text \<open>
  C2, amended. For every run of donations, requests and undos from the empty system, the
  quantity in stock summed over all categories, the category \<open>Desconhecido\<close> included,
  plus the quantity of the allocations in the history, is the total quantity donated.
  When the id generator never repeats an id, the account holds for each category by the
  origin of the units, in every run, undos included: the quantity of the stock units that
  carry the id of an item donated to the category, whether they lie in the category or,
  returned by an undo, under \<open>Desconhecido\<close>, plus what the history allocates from the
  items donated to the category, is what was donated to the category. In a run without
  undo that is the equality the claim states: what the category holds, plus what the
  history allocates from the items donated to it, is what was donated to it.
\<close>

theorem conservacao_total:
  "soma_estoque (executar_todas E ops sistema_vazio) + soma_historico (executar_todas E ops sistema_vazio)
     = total_doado ops
   \<and> (inj (novo_id E) \<longrightarrow> conservacao_por_origem E c ops)
   \<and> (inj (novo_id E) \<and> list_all nao_desfaz ops \<longrightarrow> conservacao_por_categoria E c ops)"
proof (intro conjI)
  show "soma_estoque (executar_todas E ops sistema_vazio) + soma_historico (executar_todas E ops sistema_vazio)
     = total_doado ops"
    using soma_executar_todas [of E ops sistema_vazio]
    by (simp add: soma_estoque_def soma_historico_def sistema_vazio_def)
  show "inj (novo_id E) \<longrightarrow> conservacao_por_origem E c ops"
    by (auto intro: conservacao_de_origem)
  show "inj (novo_id E) \<and> list_all nao_desfaz ops \<longrightarrow> conservacao_por_categoria E c ops"
    by (auto intro: conservacao_sem_desfazer)
qed

theorem conservacao_total_witness:
  "inj (novo_id ambiente_exemplo)
   \<and> conservacao_por_origem ambiente_exemplo ''cat''
        [Doar ''A'' ''cat'' 10 None, Pedir ''R'' ''cat'' 4 ''alta'', Desfazer]
   \<and> ids_doados ambiente_exemplo ''cat'' sistema_vazio
        [Doar ''A'' ''cat'' 10 None, Pedir ''R'' ''cat'' 4 ''alta'', Desfazer] = [''x'']
   \<and> estoque_de_origem [''x''] (executar_todas ambiente_exemplo
        [Doar ''A'' ''cat'' 10 None, Pedir ''R'' ''cat'' 4 ''alta'', Desfazer] sistema_vazio) = 10
   \<and> quantidade_disponivel (executar_todas ambiente_exemplo
        [Doar ''A'' ''cat'' 10 None, Pedir ''R'' ''cat'' 4 ''alta'', Desfazer] sistema_vazio) ''cat'' = 6
   \<and> list_all nao_desfaz [Doar ''A'' ''cat'' 10 None, Pedir ''R'' ''cat'' 4 ''alta'']
   \<and> conservacao_por_categoria ambiente_exemplo ''cat''
        [Doar ''A'' ''cat'' 10 None, Pedir ''R'' ''cat'' 4 ''alta'']
   \<and> quantidade_disponivel (executar_todas ambiente_exemplo
        [Doar ''A'' ''cat'' 10 None, Pedir ''R'' ''cat'' 4 ''alta''] sistema_vazio) ''cat'' = 6"
proof -
  have h: "list_all nao_desfaz [Doar ''A'' ''cat'' 10 None, Pedir ''R'' ''cat'' 4 ''alta'']" by simp
  have q: "quantidade_disponivel (executar_todas ambiente_exemplo
        [Doar ''A'' ''cat'' 10 None, Pedir ''R'' ''cat'' 4 ''alta''] sistema_vazio) ''cat'' = 6"
    by (simp add: quantidade_disponivel_def ambiente_exemplo_def avaliar)
  have i: "ids_doados ambiente_exemplo ''cat'' sistema_vazio
        [Doar ''A'' ''cat'' 10 None, Pedir ''R'' ''cat'' 4 ''alta'', Desfazer] = [''x'']"
    by (simp add: ambiente_exemplo_def sistema_vazio_def)
  have e: "estoque_de_origem [''x''] (executar_todas ambiente_exemplo
        [Doar ''A'' ''cat'' 10 None, Pedir ''R'' ''cat'' 4 ''alta'', Desfazer] sistema_vazio) = 10"
    by (simp add: estoque_de_origem_def soma_de_def ambiente_exemplo_def avaliar)
  have u: "quantidade_disponivel (executar_todas ambiente_exemplo
        [Doar ''A'' ''cat'' 10 None, Pedir ''R'' ''cat'' 4 ''alta'', Desfazer] sistema_vazio) ''cat'' = 6"
    by (simp add: quantidade_disponivel_def ambiente_exemplo_def avaliar)
  from conservacao_total [where E = ambiente_exemplo and c = "''cat''"
      and ops = "[Doar ''A'' ''cat'' 10 None, Pedir ''R'' ''cat'' 4 ''alta'']"] h ambiente_exemplo_inj
  have c1: "conservacao_por_categoria ambiente_exemplo ''cat''
        [Doar ''A'' ''cat'' 10 None, Pedir ''R'' ''cat'' 4 ''alta'']" by blast
  from conservacao_total [where E = ambiente_exemplo and c = "''cat''"
      and ops = "[Doar ''A'' ''cat'' 10 None, Pedir ''R'' ''cat'' 4 ''alta'', Desfazer]"] ambiente_exemplo_inj
  have c2: "conservacao_por_origem ambiente_exemplo ''cat''
        [Doar ''A'' ''cat'' 10 None, Pedir ''R'' ''cat'' 4 ''alta'', Desfazer]" by blast
  from ambiente_exemplo_inj c2 i e u h c1 q show ?thesis by (intro conjI)
qed

text \<open>
  C5, as the claim states it, fails: a request for \<open>-3\<close> units at the priority
  \<open>urgente\<close> and a donation of \<open>0\<close> units are both taken in; the request waits in the
  low queue and the item lies in the stock.
\<close>

theorem sem_validacao_counterexample:
  "executar_todas ambiente_exemplo [Pedir ''R'' ''A'' (- 3) ''urgente'', Doar ''D'' ''B'' 0 None] sistema_vazio =
     \<lparr>estoque = [(''A'', []), (''B'', [\<lparr>i_id = ''xx'', i_nome = ''D'', i_categoria = ''B'',
                                          i_quantidade = 0, i_data = ''tt''\<rparr>])],
      fila_alta = [], fila_media = [], fila_baixa = [''x''],
      pedidos = [(''x'', \<lparr>p_id = ''x'', p_solicitante = ''R'', p_categoria = ''A'', p_quantidade = - 3,
                           p_prioridade = ''urgente'', p_data = '''', p_atendido = False\<rparr>)],
      historico_alocacoes = [], n_ids = 2, n_relogio = 4\<rparr>"
  by (simp add: ambiente_exemplo_def avaliar procurar.simps)

text \<open>
  C5, amended. Neither operation validates its input. \<open>cadastrar_pedido\<close> records the
  request under a new id with whatever quantity and priority it is given, queues it, a
  priority other than \<open>alta\<close> and \<open>media\<close> counting as low, and the record is still
  there when the operation returns; \<open>registrar_doacao\<close> appends the item with whatever
  quantity it is given, and that quantity enters the books.
\<close>

theorem sem_validacao:
  "map_of (pedidos (inserir_pedido E sol c q prio s)) (novo_id E (n_ids s)) =
      Some \<lparr>p_id = novo_id E (n_ids s), p_solicitante = sol, p_categoria = c, p_quantidade = q,
             p_prioridade = prio, p_data = now E (n_relogio s), p_atendido = False\<rparr>
   \<and> fila (nivel_de prio) (inserir_pedido E sol c q prio s) = fila (nivel_de prio) s @ [novo_id E (n_ids s)]
   \<and> (prio \<noteq> ''alta'' \<and> prio \<noteq> ''media'' \<longrightarrow> nivel_de prio = Baixa)
   \<and> (\<exists>p. map_of (pedidos (cadastrar_pedido E sol c q prio s)) (novo_id E (n_ids s)) = Some p
          \<and> p_id p = novo_id E (n_ids s) \<and> p_solicitante p = sol \<and> p_categoria p = c
          \<and> p_prioridade p = prio)
   \<and> itens_de (estoque (inserir_doacao E n c q s)) c =
        itens_de (estoque s) c @ [\<lparr>i_id = novo_id E (n_ids s), i_nome = n, i_categoria = c,
                                     i_quantidade = q, i_data = now E (n_relogio s)\<rparr>]
   \<and> soma_estoque (registrar_doacao E n c q d s) + soma_historico (registrar_doacao E n c q d s)
        = soma_estoque s + soma_historico s + q"
proof (intro conjI)
  let ?p = "\<lparr>p_id = novo_id E (n_ids s), p_solicitante = sol, p_categoria = c, p_quantidade = q,
             p_prioridade = prio, p_data = now E (n_relogio s), p_atendido = False\<rparr>"
  show m: "map_of (pedidos (inserir_pedido E sol c q prio s)) (novo_id E (n_ids s)) = Some ?p"
    by (simp add: inserir_pedido_campos update_conv')
  show "fila (nivel_de prio) (inserir_pedido E sol c q prio s) = fila (nivel_de prio) s @ [novo_id E (n_ids s)]"
    by (simp add: inserir_pedido_campos)
  show "prio \<noteq> ''alta'' \<and> prio \<noteq> ''media'' \<longrightarrow> nivel_de prio = Baixa"
    by (simp add: nivel_de_def)
  from m have "pedido_mantido (novo_id E (n_ids s)) ?p (inserir_pedido E sol c q prio s)"
    by (simp add: pedido_mantido_def mesmo_pedido_refl)
  then have "pedido_mantido (novo_id E (n_ids s)) ?p (cadastrar_pedido E sol c q prio s)"
    unfolding cadastrar_pedido_def by (rule pedido_mantido_tentar)
  then show "\<exists>p. map_of (pedidos (cadastrar_pedido E sol c q prio s)) (novo_id E (n_ids s)) = Some p
          \<and> p_id p = novo_id E (n_ids s) \<and> p_solicitante p = sol \<and> p_categoria p = c
          \<and> p_prioridade p = prio"
    by (auto simp: pedido_mantido_def mesmo_pedido_def)
  show "itens_de (estoque (inserir_doacao E n c q s)) c =
        itens_de (estoque s) c @ [\<lparr>i_id = novo_id E (n_ids s), i_nome = n, i_categoria = c,
                                     i_quantidade = q, i_data = now E (n_relogio s)\<rparr>]"
    by (simp add: inserir_doacao_def log_def itens_de_update)
  show "soma_estoque (registrar_doacao E n c q d s) + soma_historico (registrar_doacao E n c q d s)
        = soma_estoque s + soma_historico s + q"
    by (simp add: registrar_doacao_def soma_tentar soma_inserir_doacao)
qed

theorem sem_validacao_witness:
  "''urgente'' \<noteq> ''alta'' \<and> ''urgente'' \<noteq> ''media'' \<and> nivel_de ''urgente'' = Baixa"
  using sem_validacao [of ambiente_exemplo "''R''" "''A''" "- 3" "''urgente''" sistema_vazio "''D''" None]
  by simp

text \<open>
  C4, as the claim states it, fails: with two requests of high priority for the
  categories \<open>A\<close> and \<open>B\<close> and no stock at all, the step for \<open>A\<close> rotates the high
  queue to bring the request for \<open>A\<close> to the front before it finds the stock empty.
\<close>

theorem passo_sem_trabalho_counterexample:
  "itens_de (estoque estado_dois_pedidos) ''A'' = []
   \<and> fila_alta (tentar_alocar_para_pedidos ambiente_exemplo ''A'' estado_dois_pedidos) = [''x'', ''xx'']
   \<and> fila_alta estado_dois_pedidos = [''xx'', ''x'']
   \<and> tentar_alocar_para_pedidos ambiente_exemplo ''A'' estado_dois_pedidos \<noteq> estado_dois_pedidos"
proof -
  have "fila_alta (estado_dois_pedidos\<lparr>fila_alta := [''x'', ''xx'']\<rparr>) \<noteq> fila_alta estado_dois_pedidos"
    by (simp add: estado_dois_pedidos_valor)
  then have "estado_dois_pedidos\<lparr>fila_alta := [''x'', ''xx'']\<rparr> \<noteq> estado_dois_pedidos"
    by (rule contrapos_nn) simp
  then show ?thesis
    by (simp add: tentar_estado_dois_pedidos) (simp add: estado_dois_pedidos_valor itens_de_def)
qed

text \<open>
  C4, amended. When no queue entry names a known, unsatisfied request of the category,
  or the category has no stock, the matching step writes no history entry and leaves the
  history, the requests, the items of every category and the two counters as they are.
  It may create the category in the stock dictionary with an empty list, rotate a queue
  and drop queue entries of unknown or satisfied requests; no entry of a known,
  unsatisfied request leaves its queue. The situation still holds afterwards, and a
  second step changes nothing at all.
\<close>

theorem passo_sem_trabalho:
  assumes "sem_trabalho c s"
  shows "quieto c s (tentar_alocar_para_pedidos E c s)
     \<and> sem_trabalho c (tentar_alocar_para_pedidos E c s)
     \<and> tentar_alocar_para_pedidos E c (tentar_alocar_para_pedidos E c s) = tentar_alocar_para_pedidos E c s"
  using quieto_tentar [OF assms, of E] tentar_idempotente [of E c s] by simp

theorem passo_sem_trabalho_witness:
  "sem_trabalho ''A'' estado_dois_pedidos
   \<and> quieto ''A'' estado_dois_pedidos (tentar_alocar_para_pedidos ambiente_exemplo ''A'' estado_dois_pedidos)
   \<and> sem_trabalho ''A'' (tentar_alocar_para_pedidos ambiente_exemplo ''A'' estado_dois_pedidos)
   \<and> tentar_alocar_para_pedidos ambiente_exemplo ''A''
        (tentar_alocar_para_pedidos ambiente_exemplo ''A'' estado_dois_pedidos)
      = tentar_alocar_para_pedidos ambiente_exemplo ''A'' estado_dois_pedidos"
proof -
  have h: "sem_trabalho ''A'' estado_dois_pedidos"
    by (simp add: sem_trabalho_def estado_dois_pedidos_valor itens_de_def)
  from passo_sem_trabalho [OF h, of ambiente_exemplo] h show ?thesis by (intro conjI) simp_all
qed



text \<open>
  C8, as the claim states it, fails: nothing stops a request for 0 units, and with no
  stock it waits in its queue with a remaining quantity of 0.
\<close>

theorem singularidade_counterexample:
  "\<not> singularidade (executar_todas ambiente_exemplo [Pedir ''R'' ''A'' 0 ''alta''] sistema_vazio)"
  by (simp add: singularidade_def fila_unica_def todas_filas_def quantidade_restante_def pendente_def
      ambiente_exemplo_def avaliar)

text \<open>
  C8 (invariant I2), amended. With an id generator that never repeats an id, in every
  state a run of donations, requests and undos reaches from the empty system no id stands
  twice in the three queues taken together and every queue entry names a known request
  whose satisfied flag is false; so a satisfied request is in no queue. When every
  quantity registered in the run is positive, every queued request has a positive
  remaining quantity as well.
\<close>

theorem singularidade_das_filas:
  assumes "inj (novo_id E)"
  shows "fila_unica (executar_todas E ops sistema_vazio)
     \<and> (list_all quantidade_positiva ops \<longrightarrow> singularidade (executar_todas E ops sistema_vazio))"
proof
  from inv_pos_vazio [where E = E] have "fila_unica sistema_vazio \<and> ids_ok E sistema_vazio"
    by (simp add: inv_pos_def)
  with assms have "fila_unica (executar_todas E ops sistema_vazio) \<and> ids_ok E (executar_todas E ops sistema_vazio)"
    by (rule inv_executar_todas)
  then show "fila_unica (executar_todas E ops sistema_vazio)" ..
  show "list_all quantidade_positiva ops \<longrightarrow> singularidade (executar_todas E ops sistema_vazio)"
  proof
    assume "list_all quantidade_positiva ops"
    with assms inv_pos_vazio have "inv_pos E (executar_todas E ops sistema_vazio)"
      by (rule inv_pos_executar_todas)
    then show "singularidade (executar_todas E ops sistema_vazio)"
      by (simp add: inv_pos_def singularidade_def filas_positivas_def)
  qed
qed

theorem singularidade_das_filas_witness:
  "inj (novo_id ambiente_exemplo)
   \<and> list_all quantidade_positiva [Doar ''A'' ''cat'' 10 None, Pedir ''R'' ''cat'' 4 ''alta'', Desfazer]
   \<and> fila_unica (executar_todas ambiente_exemplo
        [Doar ''A'' ''cat'' 10 None, Pedir ''R'' ''cat'' 4 ''alta'', Desfazer] sistema_vazio)
   \<and> singularidade (executar_todas ambiente_exemplo
        [Doar ''A'' ''cat'' 10 None, Pedir ''R'' ''cat'' 4 ''alta'', Desfazer] sistema_vazio)
   \<and> todas_filas (executar_todas ambiente_exemplo
        [Doar ''A'' ''cat'' 10 None, Pedir ''R'' ''cat'' 4 ''alta'', Desfazer] sistema_vazio) = [''xx'']"
proof -
  have h: "list_all quantidade_positiva [Doar ''A'' ''cat'' 10 None, Pedir ''R'' ''cat'' 4 ''alta'', Desfazer]"
    by simp
  have q: "todas_filas (executar_todas ambiente_exemplo
        [Doar ''A'' ''cat'' 10 None, Pedir ''R'' ''cat'' 4 ''alta'', Desfazer] sistema_vazio) = [''xx'']"
    by (simp add: todas_filas_def ambiente_exemplo_def avaliar)
  from singularidade_das_filas [OF ambiente_exemplo_inj,
      where ops = "[Doar ''A'' ''cat'' 10 None, Pedir ''R'' ''cat'' 4 ''alta'', Desfazer]"] h ambiente_exemplo_inj q
  show ?thesis by (intro conjI) simp_all
qed

end
